theory Spec2Isabelle
  imports Complex_Main
begin

section \<open>The NAT model of \<open>src/model.py\<close>: tensors, errors and library operations\<close>

text \<open>
  The source is a PyTorch module. Tensors are modelled as nested lists: a 1-D integer
  tensor is an \<open>int list\<close>, a batch of rows \<open>[B, L]\<close> an \<open>int list list\<close>, and
  so on. Integer tensors are of dtype \<open>long\<close>. An integer that the model computes
  from sequence lengths and token ids is far inside the \<open>int64\<close> range and is an
  unbounded \<open>int\<close> here; where an integer supplied by the caller enters an addition,
  the \<open>int64\<close> wrap-around is written out (\<open>wrap64\<close>).

  The scores of the encoder and of the head, and what is computed from them, are modelled
  in exact arithmetic as \<open>real\<close>: rounding is abstracted, and an operation whose float
  result is not a finite number (a division by zero) ends the run with \<open>NonFinite\<close>,
  so that a result \<open>Inr x\<close> is always a finite number. Two computations are modelled
  more closely. The loss normalisation takes and returns IEEE values, finite or not
  (type \<open>float\<close>), and the product that gives the reveal count of glancing sampling
  is rounded to single precision (\<open>float32\<close>).

  Whatever makes the Python raise is a value of \<open>error\<close>; a function that can raise
  returns \<open>error + 'a\<close>. Where the source combines two tensors elementwise, the
  model requires equal shapes and reports \<open>ShapeError\<close> otherwise; the broadcasting
  of a dimension of size 1 is followed where \<open>broadcast_pair\<close> is used.
\<close>

datatype error =
    AssertionError      \<comment> \<open>a failed \<open>assert\<close>\<close>
  | ShapeError          \<comment> \<open>torch: sizes of tensors must match\<close>
  | IndexError          \<comment> \<open>an index out of range\<close>
  | ZeroDivisionError   \<comment> \<open>Python: float division by zero\<close>
  | NonFinite           \<comment> \<open>a float tensor operation whose result is inf or NaN\<close>

definition ebind :: "error + 'a \<Rightarrow> ('a \<Rightarrow> error + 'b) \<Rightarrow> error + 'b" where
  "ebind m f = (case m of Inl e \<Rightarrow> Inl e | Inr x \<Rightarrow> f x)"

fun emap :: "('a \<Rightarrow> error + 'b) \<Rightarrow> 'a list \<Rightarrow> error + 'b list" where
  "emap f [] = Inr []"
| "emap f (x # xs) = ebind (f x) (\<lambda>y. ebind (emap f xs) (\<lambda>ys. Inr (y # ys)))"

text \<open>\<open>torch.arange(0, n)\<close>, for a length \<open>n\<close>.\<close>

definition arange :: "nat \<Rightarrow> int list" where
  "arange n = map int [0..<n]"

text \<open>
  Broadcasting of two tensors along their leading dimension: the sizes must be equal, or
  one of them is 1 and that tensor is repeated.
\<close>

definition broadcast_pair :: "'a list \<Rightarrow> 'b list \<Rightarrow> error + ('a \<times> 'b) list" where
  "broadcast_pair xs ys =
     (if length xs = length ys then Inr (zip xs ys)
      else if length xs = 1 then Inr (map (\<lambda>y. (hd xs, y)) ys)
      else if length ys = 1 then Inr (map (\<lambda>x. (x, hd ys)) xs)
      else Inl ShapeError)"

text \<open>
  \<open>torch.cat((a, b), dim=1)\<close> of two batches of rows: the batch sizes must agree,
  and each row of \<open>a\<close> is followed by the row of \<open>b\<close>.
\<close>

definition cat1 :: "'a list list \<Rightarrow> 'a list list \<Rightarrow> error + 'a list list" where
  "cat1 a b = (if length a = length b then Inr (map2 (@) a b) else Inl ShapeError)"

section \<open>Floating-point values\<close>

text \<open>
  An IEEE 754 value: a finite number, an infinity or NaN. The operations below follow the
  standard on the infinities and on NaN (\<open>inf * 0\<close>, \<open>inf - inf\<close>,
  \<open>0 / 0\<close> and \<open>inf / inf\<close> are NaN, and NaN propagates); on finite
  operands they are exact, and the sign of a zero is not kept.
\<close>

datatype float = Finite real | PosInf | NegInf | NaN

definition is_finite :: "float \<Rightarrow> bool" where
  "is_finite x = (case x of Finite _ \<Rightarrow> True | _ \<Rightarrow> False)"

fun fmul :: "float \<Rightarrow> float \<Rightarrow> float" where
  "fmul (Finite a) (Finite b) = Finite (a * b)"
| "fmul (Finite a) PosInf = (if a = 0 then NaN else if 0 < a then PosInf else NegInf)"
| "fmul (Finite a) NegInf = (if a = 0 then NaN else if 0 < a then NegInf else PosInf)"
| "fmul PosInf (Finite b) = (if b = 0 then NaN else if 0 < b then PosInf else NegInf)"
| "fmul NegInf (Finite b) = (if b = 0 then NaN else if 0 < b then NegInf else PosInf)"
| "fmul PosInf PosInf = PosInf"
| "fmul PosInf NegInf = NegInf"
| "fmul NegInf PosInf = NegInf"
| "fmul NegInf NegInf = PosInf"
| "fmul NaN y = NaN"
| "fmul x NaN = NaN"

fun fadd :: "float \<Rightarrow> float \<Rightarrow> float" where
  "fadd (Finite a) (Finite b) = Finite (a + b)"
| "fadd (Finite a) PosInf = PosInf"
| "fadd (Finite a) NegInf = NegInf"
| "fadd PosInf (Finite b) = PosInf"
| "fadd NegInf (Finite b) = NegInf"
| "fadd PosInf PosInf = PosInf"
| "fadd NegInf NegInf = NegInf"
| "fadd PosInf NegInf = NaN"
| "fadd NegInf PosInf = NaN"
| "fadd NaN y = NaN"
| "fadd x NaN = NaN"

fun fdiv :: "float \<Rightarrow> float \<Rightarrow> float" where
  "fdiv (Finite a) (Finite b) =
     (if b = 0 then (if a = 0 then NaN else if 0 < a then PosInf else NegInf)
      else Finite (a / b))"
| "fdiv (Finite a) PosInf = Finite 0"
| "fdiv (Finite a) NegInf = Finite 0"
| "fdiv PosInf (Finite b) = (if 0 \<le> b then PosInf else NegInf)"
| "fdiv NegInf (Finite b) = (if 0 \<le> b then NegInf else PosInf)"
| "fdiv PosInf PosInf = NaN"
| "fdiv PosInf NegInf = NaN"
| "fdiv NegInf PosInf = NaN"
| "fdiv NegInf NegInf = NaN"
| "fdiv NaN y = NaN"
| "fdiv x NaN = NaN"

text \<open>\<open>x.sum()\<close> of a float tensor, its entries in a list.\<close>

definition fsum :: "float list \<Rightarrow> float" where
  "fsum xs = foldr fadd xs (Finite 0)"

text \<open>
  Where an IEEE value enters the part of the model that is in exact arithmetic, a value
  that is not finite ends the run with \<open>NonFinite\<close>.
\<close>

definition finite_value :: "float \<Rightarrow> error + real" where
  "finite_value x = (case x of Finite r \<Rightarrow> Inr r | _ \<Rightarrow> Inl NonFinite)"

text \<open>
  Rounding to single precision (round to nearest, ties to even). \<open>float32_exponent x\<close>
  is the exponent of the binade of \<open>x\<close>: the largest \<open>e\<close> in \<open>[-126, 127]\<close>
  with \<open>2^e \<le> |x|\<close>, and \<open>-126\<close> for a subnormal \<open>x\<close>; it is found by
  counting up from \<open>-126\<close>. The representable numbers of that binade are the
  multiples of \<open>2^(e - 23)\<close>, and \<open>float32 x\<close> is the nearest one. A result of
  magnitude \<open>2^128\<close> or more stands for an overflow to infinity, which
  \<open>to_float32\<close> reports.
\<close>

fun binade :: "nat \<Rightarrow> int \<Rightarrow> real \<Rightarrow> int" where
  "binade 0 e x = e"
| "binade (Suc n) e x = (if 2 powi (e + 1) \<le> x then binade n (e + 1) x else e)"

definition float32_exponent :: "real \<Rightarrow> int" where
  "float32_exponent x = binade 253 (- 126) \<bar>x\<bar>"

definition round_half_even :: "real \<Rightarrow> int" where
  "round_half_even x =
     (let f = \<lfloor>x\<rfloor>; d = x - of_int f
      in if d < 1 / 2 then f else if 1 / 2 < d then f + 1 else if even f then f else f + 1)"

definition float32 :: "real \<Rightarrow> real" where
  "float32 x =
     (let u = 2 powi (float32_exponent x - 23)
      in of_int (round_half_even (x / u)) * u)"

definition to_float32 :: "real \<Rightarrow> error + real" where
  "to_float32 x = (let y = float32 x in if 2 ^ 128 \<le> \<bar>y\<bar> then Inl NonFinite else Inr y)"

section \<open>Validity masks and position ids\<close>

text \<open>
  Arithmetic of dtype \<open>long\<close>: the result of an \<open>int64\<close> operation is the
  mathematical result reduced to the range \<open>[-2^63, 2^63)\<close> (two's complement).
\<close>

definition wrap64 :: "int \<Rightarrow> int" where
  "wrap64 x = (x + 2 ^ 63) mod 2 ^ 64 - 2 ^ 63"

text \<open>
  \<open>NAT.create_mask_and_position_ids(num_tokens, max_len, offset=None)\<close>. The base
  position matrix is the row \<open>[0, ..., max_len - 1]\<close> (shape \<open>[1, L]\<close>); the mask
  compares it with each count (shape \<open>[B, L]\<close>); with an offset the base becomes one
  row per offset (shape \<open>[B', L]\<close>); the position ids are the product of base and mask,
  broadcast along the batch dimension. \<open>max_len\<close> is a tensor size at every call site,
  hence a \<open>nat\<close>. The offset is a tensor of the caller, so the sum
  \<open>base_position_matrix + offset\<close> is taken in \<open>int64\<close>; the product with the
  mask, whose entries are 0 and 1, cannot leave the range.
\<close>

definition create_mask_and_position_ids ::
  "int list \<Rightarrow> nat \<Rightarrow> int list option \<Rightarrow> error + (int list list \<times> int list list)" where
  "create_mask_and_position_ids num_tokens max_len offset =
     (let base_position_matrix = [arange max_len];
          msk = map (\<lambda>c. map (\<lambda>p. if p < c then 1 else 0) (arange max_len)) num_tokens;
          base_position_matrix' =
            (case offset of
               None \<Rightarrow> base_position_matrix
             | Some off \<Rightarrow> map (\<lambda>o'. map (\<lambda>p. wrap64 (p + o')) (arange max_len)) off)
      in ebind (broadcast_pair base_position_matrix' msk)
           (\<lambda>prs. Inr (msk, map (\<lambda>(brow, mrow). map2 (*) brow mrow) prs)))"

section \<open>The attention-visibility matrix\<close>

text \<open>
  \<open>NAT.create_attention_mask(source_mask, target_mask)\<close>. \<open>weight\<close> is 1 on the
  source block and 0 on the target block; \<open>mask\<close> is the joint validity (an entry is
  valid when it equals 1); entry \<open>(i, j)\<close> of the result is 1 when
  \<open>(weight[i] = 0 or weight[j] = 1)\<close> and both positions are valid, else 0.
\<close>

definition attention_row :: "int list \<Rightarrow> bool list \<Rightarrow> int list list" where
  "attention_row weight msk =
     map (\<lambda>(fw, fm). map (\<lambda>(tw, tm). if (fw = 0 \<or> tw = 1) \<and> (fm \<and> tm) then 1 else 0)
                          (zip weight msk))
         (zip weight msk)"

definition create_attention_mask ::
  "int list list \<Rightarrow> int list list \<Rightarrow> error + int list list list" where
  "create_attention_mask source_mask target_mask =
     ebind (cat1 (map (map (\<lambda>_. 1)) source_mask) (map (map (\<lambda>_. 0)) target_mask))
       (\<lambda>weight.
     ebind (cat1 source_mask target_mask)
       (\<lambda>joint.
     Inr (map2 attention_row weight (map (map (\<lambda>m. m = 1)) joint))))"

section \<open>The label-smoothed loss\<close>

text \<open>
  Indexing a tensor of size \<open>n\<close> with a Python integer: a negative index counts from
  the end, and an index outside \<open>[-n, n)\<close> raises.
\<close>

definition py_index :: "nat \<Rightarrow> int \<Rightarrow> error + nat" where
  "py_index n i =
     (if 0 \<le> i \<and> i < int n then Inr (nat i)
      else if - int n \<le> i \<and> i < 0 then Inr (nat (int n + i))
      else Inl IndexError)"

text \<open>
  \<open>class LabelSmoothingLoss\<close>: the fields set by \<open>__init__\<close>. The buffer
  \<open>one_hot\<close> has shape \<open>[1, V]\<close>; its single row is kept.
\<close>

record LabelSmoothingLoss =
  ignore_index :: int
  one_hot :: "real list"
  confidence :: real
  tgt_vocab_size :: int

text \<open>
  \<open>LabelSmoothingLoss.__init__(label_smoothing, tgt_vocab_size, ignore_index)\<close>: the
  three assertions in their order, the Python division \<open>label_smoothing / (V - 2)\<close>
  (which raises for \<open>V = 2\<close>), \<open>torch.full\<close> and the indexed store of 0.
\<close>

definition LabelSmoothingLoss_init :: "real \<Rightarrow> int \<Rightarrow> int \<Rightarrow> error + LabelSmoothingLoss" where
  "LabelSmoothingLoss_init label_smoothing vocab_size ign =
     (if \<not> (0 < label_smoothing \<and> label_smoothing \<le> 1) then Inl AssertionError
      else if \<not> 0 < label_smoothing then Inl AssertionError
      else if \<not> 0 < vocab_size then Inl AssertionError
      else if vocab_size - 2 = 0 then Inl ZeroDivisionError
      else
        let smoothing_value = label_smoothing / real_of_int (vocab_size - 2);
            full = replicate (nat vocab_size) smoothing_value
        in ebind (py_index (nat vocab_size) ign)
             (\<lambda>k. Inr \<lparr>ignore_index = ign, one_hot = full[k := 0],
                        confidence = 1 - label_smoothing, tgt_vocab_size = vocab_size\<rparr>))"

text \<open>
  One row of \<open>model_prob\<close> in \<open>LabelSmoothingLoss.forward\<close>, for the label \<open>t\<close>
  of that row: a copy of \<open>one_hot\<close>, \<open>scatter_\<close> of the confidence at column
  \<open>t\<close> (an index outside \<open>[0, V)\<close> raises), and \<open>masked_fill_\<close> of the whole
  row with 0 when the label equals the ignore index.
\<close>

definition smoothed_target :: "LabelSmoothingLoss \<Rightarrow> int \<Rightarrow> error + real list" where
  "smoothed_target L t =
     (if t < 0 \<or> int (length (one_hot L)) \<le> t then Inl IndexError
      else
        let row = (one_hot L)[nat t := confidence L]
        in Inr (if t = ignore_index L then map (\<lambda>_. 0) row else row))"

text \<open>
  \<open>F.kl_div(input, target, reduction='none')\<close> at one entry is
  \<open>xlogy(target, target) - target * input\<close>, where \<open>xlogy(0, 0) = 0\<close>; a negative
  target gives NaN. \<open>kl_div_row\<close> is the sum over the vocabulary dimension of one
  position (the \<open>.sum(2)\<close> of the source).
\<close>

definition kl_div_pointwise :: "real \<Rightarrow> real \<Rightarrow> error + real" where
  "kl_div_pointwise x t =
     (if t < 0 then Inl NonFinite
      else Inr ((if t = 0 then 0 else t * ln t) - t * x))"

definition kl_div_row :: "real list \<Rightarrow> real list \<Rightarrow> error + real" where
  "kl_div_row xs ts =
     (if length xs \<noteq> length ts then Inl ShapeError
      else ebind (emap (\<lambda>(x, t). kl_div_pointwise x t) (zip xs ts)) (\<lambda>ks. Inr (sum_list ks)))"

text \<open>
  \<open>LabelSmoothingLoss.forward(output, target)\<close>, with \<open>output\<close> of shape
  \<open>[B, P, V]\<close> and \<open>target\<close> of shape \<open>[B, P]\<close>: the assertion on the vocabulary
  dimension, then one smoothed row and one summed divergence per position. The source
  flattens both tensors and reshapes the result to \<open>[B, P]\<close>; the model keeps the two
  leading dimensions and requires them to agree.
\<close>

definition LabelSmoothingLoss_forward ::
  "LabelSmoothingLoss \<Rightarrow> real list list list \<Rightarrow> int list list \<Rightarrow> error + real list list" where
  "LabelSmoothingLoss_forward L output target =
     (if \<not> (\<forall>row \<in> set output. \<forall>v \<in> set row. int (length v) = tgt_vocab_size L)
      then Inl AssertionError
      else if map length output \<noteq> map length target then Inl ShapeError
      else emap (\<lambda>(orow, trow).
                  emap (\<lambda>(x, t). ebind (smoothed_target L t) (kl_div_row x)) (zip orow trow))
             (zip output target))"

section \<open>Loss normalisation\<close>

text \<open>
  The local function \<open>loss_mask_and_normalize(loss, mask)\<close> of \<open>NAT.forward\<close>:
  the mask is cast to float, multiplied into the loss, and every entry is divided by
  \<open>torch.sum(mask) + 1e-5\<close>, the sum being over the whole mask tensor; the quotients are
  summed. The entries of the loss are IEEE values: an infinite or NaN loss is multiplied
  by its mask entry like any other. The two tensors have the same shape where
  \<open>forward\<close> calls the function on a batch with one count per example, and the model
  requires it.
\<close>

definition loss_mask_and_normalize :: "float list list \<Rightarrow> int list list \<Rightarrow> error + float" where
  "loss_mask_and_normalize loss msk =
     (if map length loss \<noteq> map length msk then Inl ShapeError
      else
        let msk' = map (map (\<lambda>m. Finite (real_of_int m))) msk;
            loss' = map2 (map2 fmul) loss msk';
            denominator = fadd (fsum (map fsum msk')) (Finite (1 / 100000))
        in Inr (fsum (map (\<lambda>row. fsum (map (\<lambda>x. fdiv x denominator) row)) loss')))"

text \<open>
  The normalisation as the specification words it, for comparison with the code: each
  example's masked losses are summed and divided by that example's own valid count plus
  epsilon, and the quotients are summed over the batch.
\<close>

definition spec_per_example_normalize :: "real list list \<Rightarrow> int list list \<Rightarrow> real" where
  "spec_per_example_normalize loss msk =
     sum_list (map2 (\<lambda>lrow mrow.
                 sum_list (map2 (\<lambda>l m. l * real_of_int m) lrow mrow) /
                   (real_of_int (sum_list mrow) + 1 / 100000))
               loss msk)"

section \<open>The model object, the encoder and the random source\<close>

text \<open>
  The encoder \<open>self.bert\<close> and the prediction head \<open>self.cls\<close> are external
  (the \<open>transformers\<close> library): they are fields of the model, total functions on
  tensors. One call of the encoder receives the four tensors of \<open>bert_input\<close>; the
  attention mask is kept as 0/1 integers. Every call is appended to a log that the
  functions below take and return, so that what is fed to the encoder can be stated.
\<close>

record bert_input =
  bert_input_ids :: "int list list"
  bert_attention_mask :: "int list list list"
  bert_token_type_ids :: "int list list"
  bert_position_ids :: "int list list"

text \<open>
  The fields of \<open>class NAT\<close> set by \<open>__init__\<close>. \<open>vocab_size\<close> and
  \<open>encoder_embed_dim\<close> come from the encoder's configuration; \<open>embed_length\<close> is
  the weight of \<open>nn.Embedding(512, C)\<close>, one row per length.
\<close>

record NAT =
  use_glat :: bool
  glat_random_prob :: "real option"
  glat_f :: real
  mask_word_id :: int
  sep_word_id :: int
  pad_word_id :: int
  label_smoothing :: real
  vocab_size :: int
  encoder_embed_dim :: nat
  bert :: "bert_input \<Rightarrow> real list list list"
  cls :: "real list list list \<Rightarrow> real list list list"
  embed_length :: "real list list"
  crit_mask_lm_smoothed :: "LabelSmoothingLoss option"

definition source_type_id :: int where
  "source_type_id = 0"

definition target_type_id :: int where
  "target_type_id = 1"

text \<open>
  \<open>NAT.__init__\<close>, given the loaded encoder, head and length table: the label-smoothed
  criterion is built when \<open>label_smoothing > 0\<close>, with the vocabulary size of the
  configuration and ignore index 0; otherwise the plain cross-entropy is used.
\<close>

definition NAT_init ::
  "(bert_input \<Rightarrow> real list list list) \<Rightarrow> (real list list list \<Rightarrow> real list list list) \<Rightarrow>
   real list list \<Rightarrow> int \<Rightarrow> nat \<Rightarrow> bool \<Rightarrow> real option \<Rightarrow> real \<Rightarrow> real \<Rightarrow> int \<Rightarrow> int \<Rightarrow> int \<Rightarrow>
   error + NAT" where
  "NAT_init bert_model head length_table vsize hidden glat rprob f smoothing sep_id mask_id pad_id =
     ebind (if 0 < smoothing
            then ebind (LabelSmoothingLoss_init smoothing vsize 0) (\<lambda>L. Inr (Some L))
            else Inr None)
       (\<lambda>crit. Inr \<lparr>use_glat = glat, glat_random_prob = rprob, glat_f = f,
                     mask_word_id = mask_id, sep_word_id = sep_id, pad_word_id = pad_id,
                     label_smoothing = smoothing, vocab_size = vsize,
                     encoder_embed_dim = hidden, bert = bert_model, cls = head,
                     embed_length = length_table, crit_mask_lm_smoothed = crit\<rparr>)"

text \<open>
  The random numbers drawn by \<open>forward_glat\<close>, as functions of the example and the
  position: \<open>rand_sort\<close> stands for \<open>torch.rand(pseudo_ids.shape)\<close>,
  \<open>rand_keep\<close> for \<open>torch.rand_like(indices.float())\<close>, and \<open>rand_token i k\<close>
  for the \<open>k\<close>-th value of the \<open>torch.randint\<close> of example \<open>i\<close>.
\<close>

record rng =
  rand_sort :: "nat \<Rightarrow> nat \<Rightarrow> real"
  rand_keep :: "nat \<Rightarrow> nat \<Rightarrow> real"
  rand_token :: "nat \<Rightarrow> nat \<Rightarrow> int"

section \<open>Tensor operations used by the model\<close>

text \<open>
  \<open>x.shape[1]\<close> of a batch of rows. A tensor is rectangular, so the width is read
  from the first row; an empty batch has no row to read it from and counts as width 0.
\<close>

definition width :: "'a list list \<Rightarrow> nat" where
  "width xs = (case xs of [] \<Rightarrow> 0 | r # _ \<Rightarrow> length r)"

text \<open>Python slices \<open>xs[:n]\<close> and \<open>xs[n:]\<close>; a negative \<open>n\<close> counts from the end.\<close>

definition py_slice_to :: "int \<Rightarrow> 'a list \<Rightarrow> 'a list" where
  "py_slice_to n xs = (if 0 \<le> n then take (nat n) xs else take (length xs - nat (- n)) xs)"

definition py_slice_from :: "int \<Rightarrow> 'a list \<Rightarrow> 'a list" where
  "py_slice_from n xs = (if 0 \<le> n then drop (nat n) xs else drop (length xs - nat (- n)) xs)"

text \<open>
  \<open>x.max(-1)[1]\<close>: the index of the first maximal value of a row (index 0 when
  the head is at least every later value, otherwise one more than the index in the
  tail); \<open>torch.max\<close> raises on an empty row.
\<close>

fun argmax_list :: "real list \<Rightarrow> nat" where
  "argmax_list [] = 0"
| "argmax_list (x # xs) = (if \<forall>y \<in> set xs. y \<le> x then 0 else Suc (argmax_list xs))"

definition argmax :: "real list \<Rightarrow> error + int" where
  "argmax xs = (if xs = [] then Inl IndexError else Inr (int (argmax_list xs)))"

text \<open>\<open>F.log_softmax(x, -1)\<close> of one row.\<close>

definition log_softmax :: "real list \<Rightarrow> real list" where
  "log_softmax xs = map (\<lambda>x. x - ln (sum_list (map exp xs))) xs"

text \<open>
  The cross-entropy of one row of logits against a class index, as \<open>torch\<close> computes
  it: a target equal to the default \<open>ignore_index = -100\<close> gives no loss, any other
  target outside the classes raises.
\<close>

definition cross_entropy_row :: "real list \<Rightarrow> int \<Rightarrow> error + real" where
  "cross_entropy_row logits t =
     (if t = - 100 then Inr 0
      else if t < 0 \<or> int (length logits) \<le> t then Inl IndexError
      else Inr (- (log_softmax logits ! nat t)))"

text \<open>
  \<open>F.cross_entropy(input, target)\<close> with the default mean reduction: the mean of the
  row losses over the targets that are not ignored (NaN when there is none).
\<close>

definition cross_entropy_mean :: "real list list \<Rightarrow> int list \<Rightarrow> error + real" where
  "cross_entropy_mean logits target =
     (if length logits \<noteq> length target then Inl ShapeError
      else ebind (emap (\<lambda>(row, t). cross_entropy_row row t) (zip logits target))
        (\<lambda>losses.
           let kept = length (filter (\<lambda>t. t \<noteq> - 100) target)
           in if kept = 0 then Inl NonFinite else Inr (sum_list losses / real kept)))"

text \<open>
  \<open>nn.CrossEntropyLoss(reduction='none')\<close> on scores \<open>[B, T, V]\<close> (the source
  passes them transposed to \<open>[B, V, T]\<close>, as that loss expects) and targets
  \<open>[B, T]\<close>: one loss per position.
\<close>

definition cross_entropy_none :: "real list list list \<Rightarrow> int list list \<Rightarrow> error + real list list" where
  "cross_entropy_none scores target =
     (if map length scores \<noteq> map length target then Inl ShapeError
      else emap (\<lambda>(srow, trow). emap (\<lambda>(x, t). cross_entropy_row x t) (zip srow trow))
             (zip scores target))"

text \<open>
  \<open>x.long()\<close> of a finite float: truncation towards zero. The conversion of a value
  outside the \<open>int64\<close> range is undefined in \<open>torch\<close>; the model ends the run.
\<close>

definition trunc_long :: "real \<Rightarrow> error + int" where
  "trunc_long x =
     (let n = (if 0 \<le> x then \<lfloor>x\<rfloor> else \<lceil>x\<rceil>)
      in if - (2 ^ 63) \<le> n \<and> n < 2 ^ 63 then Inr n else Inl NonFinite)"

text \<open>
  The indices returned by \<open>torch.sort(x, descending=True)\<close> for one row: the positions
  ordered by decreasing value. (Equal values keep their order here; \<open>torch\<close> leaves
  their order open.)
\<close>

definition argsort_desc :: "real list \<Rightarrow> nat list" where
  "argsort_desc xs = sort_key (\<lambda>i. - (xs ! i)) [0..<length xs]"

text \<open>
  Reading and writing one row at a list of indices, \<open>src[idx]\<close> and
  \<open>dest[idx] = values\<close>: an index outside the row raises; the values are as many as
  the indices, or a single value that is written everywhere.
\<close>

definition index_get :: "'a list \<Rightarrow> nat list \<Rightarrow> error + 'a list" where
  "index_get src idx =
     (if \<forall>p \<in> set idx. p < length src then Inr (map (\<lambda>p. src ! p) idx) else Inl IndexError)"

definition index_put :: "'a list \<Rightarrow> nat list \<Rightarrow> 'a list \<Rightarrow> error + 'a list" where
  "index_put dest idx values =
     (if \<not> (\<forall>p \<in> set idx. p < length dest) then Inl IndexError
      else if length values = length idx
        then Inr (fold (\<lambda>(p, v) d. d[p := v]) (zip idx values) dest)
      else if length values = 1
        then Inr (fold (\<lambda>p d. d[p := hd values]) idx dest)
      else Inl ShapeError)"

section \<open>The length predictor\<close>

text \<open>
  \<open>NAT.forward_length(enc_feats, src_masks)\<close> for one example: every feature vector
  is divided by the number of valid source positions and multiplied by the mask entry of
  its position, and the vectors are summed over the positions. A count of zero makes the
  quotients inf or NaN (when there is a position at all). The feature vectors have the
  hidden size of the encoder, \<open>hidden\<close>.
\<close>

definition pool_example :: "nat \<Rightarrow> real list list \<Rightarrow> int list \<Rightarrow> error + real list" where
  "pool_example hidden feats msk =
     (if length feats \<noteq> length msk \<or> \<not> (\<forall>v \<in> set feats. length v = hidden) then Inl ShapeError
      else
        let count = real_of_int (sum_list msk)
        in if count = 0 \<and> feats \<noteq> [] then Inl NonFinite
           else
             let scaled = map2 (\<lambda>v m. map (\<lambda>x. x / count * real_of_int m) v) feats msk
             in Inr (map (\<lambda>c. sum_list (map (\<lambda>v. v ! c) scaled)) [0..<hidden]))"

text \<open>\<open>F.linear(x, W)\<close> of one vector: one dot product per row of \<open>W\<close>.\<close>

definition linear :: "real list \<Rightarrow> real list list \<Rightarrow> error + real list" where
  "linear x W =
     (if \<forall>w \<in> set W. length w = length x
      then Inr (map (\<lambda>w. sum_list (map2 (*) x w)) W)
      else Inl ShapeError)"

definition forward_length :: "NAT \<Rightarrow> real list list list \<Rightarrow> int list list \<Rightarrow> error + real list list" where
  "forward_length self enc_feats src_masks =
     (if length enc_feats \<noteq> length src_masks then Inl ShapeError
      else emap (\<lambda>(feats, msk).
                  ebind (pool_example (encoder_embed_dim self) feats msk)
                    (\<lambda>pooled. ebind (linear pooled (embed_length self))
                    (\<lambda>length_out. Inr (log_softmax length_out))))
             (zip enc_feats src_masks))"

section \<open>Calling the encoder\<close>

text \<open>
  \<open>NAT.feed_bert\<close>: the attention mask is built from the two validity masks and the
  encoder is called once; the call is appended to the log. (The parameters
  \<open>target_position_ids\<close>, \<open>target_ids\<close> and \<open>decoding\<close> of the source are not
  used by its body.)
\<close>

definition feed_bert ::
  "NAT \<Rightarrow> bert_input list \<Rightarrow> int list list \<Rightarrow> int list list \<Rightarrow> int list list \<Rightarrow> int list list \<Rightarrow>
   int list list \<Rightarrow> error + (bert_input list \<times> real list list list)" where
  "feed_bert self calls input_ids source_mask target_mask token_type_ids position_ids =
     ebind (create_attention_mask source_mask target_mask)
       (\<lambda>attention_mask.
          let inp = \<lparr>bert_input_ids = input_ids, bert_attention_mask = attention_mask,
                     bert_token_type_ids = token_type_ids, bert_position_ids = position_ids\<rparr>
          in Inr (calls @ [inp], bert self inp))"

section \<open>Glancing sampling\<close>

text \<open>
  The reveal counts of \<open>forward_glat\<close>:
  \<open>N = ((prediction_tokens != target_ids) & (target_mask == 1)).sum(-1) * glat_f\<close>,
  then \<open>N.long()\<close>. The sum is an \<open>int64\<close> tensor and \<open>glat_f\<close> a Python
  float, so the product is a tensor of the default dtype \<open>float32\<close>: both operands are
  converted to single precision and their product is rounded to single precision.
  \<open>glat_count f d\<close> is the count of one example with \<open>d\<close> differing positions.
  A conversion or a product that overflows is infinite, and the conversion of an infinite
  value to \<open>long\<close> is undefined; the model ends these runs with \<open>NonFinite\<close>.
\<close>

definition glat_mismatches :: "int list \<Rightarrow> int list \<Rightarrow> int list \<Rightarrow> nat" where
  "glat_mismatches prediction target tmask =
     length (filter (\<lambda>(p, t, m). p \<noteq> t \<and> m = 1) (zip prediction (zip target tmask)))"

definition glat_count :: "real \<Rightarrow> nat \<Rightarrow> error + int" where
  "glat_count f d =
     ebind (to_float32 (real d)) (\<lambda>a.
     ebind (to_float32 f) (\<lambda>b.
     ebind (to_float32 (a * b)) trunc_long))"

definition glat_counts ::
  "real \<Rightarrow> int list list \<Rightarrow> int list list \<Rightarrow> int list list \<Rightarrow> error + int list" where
  "glat_counts f prediction_tokens target_ids target_mask =
     (if map length prediction_tokens \<noteq> map length target_ids \<or>
         map length target_ids \<noteq> map length target_mask then Inl ShapeError
      else emap (\<lambda>(p, t, m). glat_count f (glat_mismatches p t m))
             (zip prediction_tokens (zip target_ids target_mask)))"

text \<open>
  The body of the loop \<open>for i, indice in enumerate(indices)\<close> for one example:
  \<open>indice\<close> is the example's row of sorted indices, \<open>tmask\<close> its row of the target
  mask, \<open>n\<close> its reveal count, \<open>target\<close> and \<open>pseudo\<close> its rows of
  \<open>target_ids\<close> and \<open>pseudo_ids\<close>. The result is the updated row of
  \<open>pseudo_ids\<close>. \<open>if self.glat_random_prob\<close> is false for \<open>None\<close> and
  for 0. A boolean mask must be as long as the tensor it indexes, and
  \<open>torch.randint(0, vocab_size - 1, ...)\<close> raises when its range is empty.
\<close>

definition glat_reveal_row ::
  "NAT \<Rightarrow> rng \<Rightarrow> nat \<Rightarrow> nat list \<Rightarrow> int list \<Rightarrow> int \<Rightarrow> int list \<Rightarrow> int list \<Rightarrow> error + int list" where
  "glat_reveal_row self r i indice tmask n target pseudo =
     (let indice = filter (\<lambda>p. int p < sum_list tmask) indice
      in case glat_random_prob self of
           None \<Rightarrow>
             ebind (index_get target (py_slice_to n indice)) (index_put pseudo (py_slice_to n indice))
         | Some q \<Rightarrow>
             if q = 0
             then ebind (index_get target (py_slice_to n indice))
                    (index_put pseudo (py_slice_to n indice))
             else
               let ind = py_slice_to n indice;
                   ind_mask = py_slice_to n (map (\<lambda>p. q < rand_keep r i p) [0..<length pseudo])
               in if length ind \<noteq> length ind_mask then Inl IndexError
                  else
                    let kept = map fst (filter snd (zip ind ind_mask));
                        rest = map fst (filter (\<lambda>(p, k). \<not> k) (zip ind ind_mask));
                        rn = n - int (length (filter id ind_mask))
                    in ebind (ebind (index_get target kept) (index_put pseudo kept))
                         (\<lambda>pseudo'.
                            if 0 < rn
                            then if vocab_size self - 1 \<le> 0 then Inl IndexError
                                 else index_put pseudo' rest (map (rand_token r i) [0..<nat rn])
                            else Inr pseudo'))"

text \<open>
  \<open>NAT.forward_glat\<close>: the draft pass on the given pseudo-target, the counts
  \<open>N\<close>, the random order of the positions of each example, and the loop over the
  examples. It returns the log, the updated \<open>pseudo_ids\<close> and \<open>N\<close>. The
  loop reads row \<open>i\<close> of \<open>target_mask\<close>, \<open>N\<close> and \<open>target_ids\<close> (which
  have one batch size once \<open>N\<close> is computed) for every row \<open>i\<close> of
  \<open>pseudo_ids\<close>, and raises when there is no such row.
\<close>

definition forward_glat ::
  "NAT \<Rightarrow> rng \<Rightarrow> bert_input list \<Rightarrow> int list list \<Rightarrow> int list list \<Rightarrow> int list list \<Rightarrow>
   int list \<Rightarrow> int list \<Rightarrow> error + (bert_input list \<times> int list list \<times> int list)" where
  "forward_glat self r calls source_ids target_ids pseudo_ids num_source_tokens num_target_tokens =
     (let source_len = width source_ids;
          target_len = width target_ids;
          pseudo_len = width pseudo_ids
      in if target_len \<noteq> pseudo_len then Inl AssertionError
         else if \<not> (0 < source_len \<and> 0 < target_len) then Inl AssertionError
         else
           ebind (cat1 source_ids pseudo_ids) (\<lambda>input_ids.
           ebind (cat1 (map (map (\<lambda>_. 1 * source_type_id)) source_ids)
                       (map (map (\<lambda>_. 1 * target_type_id)) pseudo_ids)) (\<lambda>token_type_ids.
           ebind (create_mask_and_position_ids num_source_tokens source_len None)
             (\<lambda>(source_mask, source_position_ids).
           ebind (create_mask_and_position_ids num_target_tokens target_len (Some num_source_tokens))
             (\<lambda>(target_mask, target_position_ids).
           ebind (cat1 source_position_ids target_position_ids) (\<lambda>position_ids.
           ebind (feed_bert self calls input_ids source_mask target_mask token_type_ids position_ids)
             (\<lambda>(calls', sequence_output).
           let pseudo_sequence_output = map (drop source_len) sequence_output;
               prediction_scores_masked = cls self pseudo_sequence_output
           in
           ebind (emap (emap argmax) prediction_scores_masked) (\<lambda>prediction_tokens.
           ebind (glat_counts (glat_f self) prediction_tokens target_ids target_mask) (\<lambda>N.
           let indices = map (\<lambda>i. argsort_desc (map (rand_sort r i) [0..<length (pseudo_ids ! i)]))
                           [0..<length pseudo_ids]
           in
           if length target_mask < length pseudo_ids then Inl IndexError
           else
           ebind (emap (\<lambda>(i, indice).
                          glat_reveal_row self r i indice (target_mask ! i) (N ! i)
                            (target_ids ! i) (pseudo_ids ! i))
                    (zip [0..<length indices] indices)) (\<lambda>pseudo_ids'.
           Inr (calls', pseudo_ids', N)))))))))))"

section \<open>Decoding\<close>

text \<open>
  Lines 301 and 302 of the source, \<open>length_out[length_out > 48] = 48\<close> and then
  \<open>length_out[length_out < 7] = 7\<close>.
\<close>

definition clamp_length :: "int list \<Rightarrow> int list" where
  "clamp_length length_out =
     map (\<lambda>l. if l < 7 then 7 else l) (map (\<lambda>l. if 48 < l then 48 else l) length_out)"

text \<open>
  The branch \<open>if length_out is None\<close> of \<open>forward_decode\<close>: the attention mask of
  the source alone (both positions are not padding), one encoder pass, the length
  distribution, its argmax per example, and the clamp.
\<close>

definition predict_length ::
  "NAT \<Rightarrow> bert_input list \<Rightarrow> int list list \<Rightarrow> int list list \<Rightarrow> int list list \<Rightarrow> int list list \<Rightarrow>
   error + (bert_input list \<times> int list)" where
  "predict_length self calls input_ids token_type_ids position_ids source_mask =
     (let weight = map (map (\<lambda>t. if t = pad_word_id self then 0 else (1::int))) input_ids;
          attention_mask =
            map (\<lambda>w. map (\<lambda>fw. map (\<lambda>tw. if 0 < fw \<and> 0 < tw then 1 else 0) w) w) weight;
          inp = \<lparr>bert_input_ids = input_ids, bert_attention_mask = attention_mask,
                  bert_token_type_ids = token_type_ids, bert_position_ids = position_ids\<rparr>;
          sequence_output = bert self inp
      in ebind (forward_length self sequence_output source_mask) (\<lambda>length_out.
         ebind (emap argmax length_out) (\<lambda>length_out.
         Inr (calls @ [inp], clamp_length length_out))))"

text \<open>
  \<open>NAT.forward_decode(input_ids, token_type_ids, position_ids, input_mask,
  length_out=None)\<close>. It returns the log, \<open>prediction_tokens\<close> and \<open>length_out\<close>.
  \<open>torch.empty\<close> and \<open>torch.arange\<close> raise on a negative size, and the maximum of
  an empty tensor raises.
\<close>

definition forward_decode ::
  "NAT \<Rightarrow> bert_input list \<Rightarrow> int list list \<Rightarrow> int list list \<Rightarrow> int list list \<Rightarrow> bool list list \<Rightarrow>
   int list option \<Rightarrow> error + (bert_input list \<times> int list list \<times> int list)" where
  "forward_decode self calls input_ids token_type_ids position_ids input_mask length_out =
     (let source_len = int (width input_ids);
          token_type_ids = map (py_slice_to source_len) token_type_ids;
          position_ids = map (py_slice_to source_len) position_ids;
          input_mask = map (py_slice_to source_len) input_mask;
          source_ids = input_ids;
          source_mask = map (map (\<lambda>t. if t \<noteq> pad_word_id self then 1 else (0::int))) input_ids;
          source_position_ids = position_ids
      in
      ebind (case length_out of
               None \<Rightarrow> predict_length self calls input_ids token_type_ids position_ids source_mask
             | Some l \<Rightarrow> Inr (calls, map (\<lambda>x. wrap64 (x + 1)) l)) (\<lambda>(calls, length_out).
      if length_out = [] then Inl IndexError
      else
        let target_len = Max (set length_out);
            truncate = (512 < target_len + source_len);
            source_len = (if truncate then 512 - target_len else source_len);
            source_ids = (if truncate then map (py_slice_to source_len) source_ids else source_ids);
            source_position_ids =
              (if truncate then map (py_slice_to source_len) source_position_ids
               else source_position_ids);
            source_mask = (if truncate then map (py_slice_to source_len) source_mask else source_mask)
        in
        if target_len < 0 then Inl ShapeError
        else
          let pseudo_ids = replicate (length length_out) (replicate (nat target_len) (mask_word_id self));
              base_position_matrix = arange (nat target_len);
              pseudo_mask = map (\<lambda>l. map (\<lambda>p. p < l) base_position_matrix) length_out
          in
          ebind (broadcast_pair
                   (map (\<lambda>mrow. map2 (\<lambda>p m. p * (if m then 1 else 0)) base_position_matrix mrow)
                      pseudo_mask)
                   (map sum_list source_mask)) (\<lambda>prs.
          let pseudo_position_ids = map (\<lambda>(row, c). map (\<lambda>x. x + c) row) prs;
              pseudo_ids = map2 (map2 (\<lambda>x m. if \<not> m then pad_word_id self else x)) pseudo_ids pseudo_mask
          in
          ebind (cat1 source_ids pseudo_ids) (\<lambda>input_ids.
          ebind (cat1 source_position_ids pseudo_position_ids) (\<lambda>position_ids.
          ebind (cat1 (map (map (\<lambda>_. 1 * source_type_id)) source_ids)
                      (map (map (\<lambda>_. 1 * target_type_id)) pseudo_ids)) (\<lambda>token_type_ids.
          ebind (feed_bert self calls input_ids source_mask
                   (map (map (\<lambda>m. if m then 1 else 0)) pseudo_mask) token_type_ids position_ids)
            (\<lambda>(calls, sequence_output).
          let prediction_scores = cls self (map (py_slice_from source_len) sequence_output)
          in
          ebind (emap (emap argmax) prediction_scores) (\<lambda>prediction_tokens.
          if map length prediction_tokens \<noteq> map length pseudo_mask then Inl IndexError
          else
            Inr (calls,
                 map2 (map2 (\<lambda>x m. if \<not> m then pad_word_id self else x)) prediction_tokens pseudo_mask,
                 length_out)))))))))"

section \<open>The forward pass\<close>

text \<open>
  What \<open>NAT.forward\<close> returns: in decode mode the predicted tokens, the predicted
  lengths and the two accuracies (a quotient by zero is NaN, here \<open>None\<close>); in training
  the token loss and the length loss, and with GLAT the mean of \<open>N\<close> as well.
\<close>

datatype forward_result =
    Decoded "int list list" "int list" "real option" "real option"
  | Losses real real
  | GlatLosses real real real

definition true_divide :: "real \<Rightarrow> real \<Rightarrow> real option" where
  "true_divide a b = (if b = 0 then None else Some (a / b))"

text \<open>
  The branch \<open>if decode\<close> of \<open>NAT.forward\<close> (lines 159 to 175): the mask,
  positions and segment types of the source from its padding, the decoding, and the two
  accuracies against \<open>target_ids\<close>.
\<close>

definition forward_decode_mode ::
  "NAT \<Rightarrow> bert_input list \<Rightarrow> int list list \<Rightarrow> int list list \<Rightarrow> error + (bert_input list \<times> forward_result)" where
  "forward_decode_mode self calls source_ids target_ids =
     (let source_mask = map (map (\<lambda>t. t \<noteq> pad_word_id self)) source_ids;
          position_ids =
            map (\<lambda>mrow. map2 (\<lambda>p m. if \<not> m then 0 else p) (arange (width source_ids)) mrow) source_mask;
          token_type_ids = map (map (\<lambda>m. if \<not> m then 1 else (0::int))) source_mask;
          length_out = map (\<lambda>row. int (length (filter (\<lambda>t. t \<noteq> pad_word_id self) row))) target_ids
      in
      ebind (forward_decode self calls source_ids token_type_ids position_ids source_mask None)
        (\<lambda>(calls, prediction_tokens, pred_length_out).
      ebind (broadcast_pair length_out pred_length_out) (\<lambda>lens.
      let len_acc = length (filter (\<lambda>(a, b). a = b) lens);
          min_size = min (width target_ids) (width prediction_tokens);
          target_mask' = map (take min_size) (map (map (\<lambda>t. t \<noteq> pad_word_id self)) target_ids)
      in
      ebind (broadcast_pair (map (take min_size) prediction_tokens)
               (zip (map (take min_size) target_ids) target_mask')) (\<lambda>rows.
      let hits = map (\<lambda>(prow, trow, mrow).
                        length (filter (\<lambda>((x, t), m). m \<and> x = t) (zip (zip prow trow) mrow)))
                   rows;
          tokens_acc = true_divide (real (sum_list hits))
                         (real (sum_list (map (\<lambda>mrow. length (filter id mrow)) target_mask')));
          len_acc = true_divide (real len_acc) (real (length length_out))
      in Inr (calls, Decoded prediction_tokens pred_length_out len_acc tokens_acc)))))"

text \<open>
  The training part of \<open>NAT.forward\<close> (lines 177 to 224): the optional glancing
  step, the joint input, the masks and positions from the token counts, one encoder
  pass, the length loss and the normalised token loss. The per-position losses, computed
  in exact arithmetic from the scores of the head, are finite numbers when they are
  handed to \<open>loss_mask_and_normalize\<close>.
\<close>

definition forward_train ::
  "NAT \<Rightarrow> rng \<Rightarrow> bert_input list \<Rightarrow> int list list \<Rightarrow> int list list \<Rightarrow> int list list \<Rightarrow>
   int list \<Rightarrow> int list \<Rightarrow> error + (bert_input list \<times> forward_result)" where
  "forward_train self r calls source_ids target_ids pseudo_ids num_source_tokens num_target_tokens =
     ebind (if use_glat self
            then ebind (forward_glat self r calls source_ids target_ids pseudo_ids
                          num_source_tokens num_target_tokens)
                   (\<lambda>(calls, pseudo_ids, N). Inr (calls, pseudo_ids, Some N))
            else Inr (calls, pseudo_ids, None)) (\<lambda>(calls, pseudo_ids, N).
     let source_len = width source_ids;
         target_len = width target_ids;
         pseudo_len = width pseudo_ids
     in if target_len \<noteq> pseudo_len then Inl AssertionError
        else if \<not> (0 < source_len \<and> 0 < target_len) then Inl AssertionError
        else
          ebind (cat1 source_ids pseudo_ids) (\<lambda>input_ids.
          ebind (cat1 (map (map (\<lambda>_. 1 * source_type_id)) source_ids)
                      (map (map (\<lambda>_. 1 * target_type_id)) pseudo_ids)) (\<lambda>token_type_ids.
          ebind (create_mask_and_position_ids num_source_tokens source_len None)
            (\<lambda>(source_mask, source_position_ids).
          ebind (create_mask_and_position_ids num_target_tokens target_len (Some num_source_tokens))
            (\<lambda>(target_mask, target_position_ids).
          ebind (cat1 source_position_ids target_position_ids) (\<lambda>position_ids.
          ebind (feed_bert self calls input_ids source_mask target_mask token_type_ids position_ids)
            (\<lambda>(calls, sequence_output).
          let length_tgt = map sum_list target_mask
          in
          ebind (forward_length self (map (take source_len) sequence_output) source_mask)
            (\<lambda>length_out.
          ebind (cross_entropy_mean length_out length_tgt) (\<lambda>length_loss.
          let pseudo_sequence_output = map (drop source_len) sequence_output;
              prediction_scores_masked = cls self pseudo_sequence_output
          in
          ebind (case crit_mask_lm_smoothed self of
                   Some crit \<Rightarrow>
                     LabelSmoothingLoss_forward crit (map (map log_softmax) prediction_scores_masked)
                       target_ids
                 | None \<Rightarrow> cross_entropy_none prediction_scores_masked target_ids)
            (\<lambda>masked_lm_loss.
          ebind (ebind (loss_mask_and_normalize (map (map Finite) masked_lm_loss) target_mask)
                   finite_value) (\<lambda>pseudo_lm_loss.
          case N of
            Some N \<Rightarrow>
              if N = [] then Inl NonFinite
              else Inr (calls, GlatLosses pseudo_lm_loss length_loss
                                 (sum_list (map real_of_int N) / real (length N)))
          | None \<Rightarrow> Inr (calls, Losses pseudo_lm_loss length_loss))))))))))))"

text \<open>
  \<open>NAT.forward(source_ids, target_ids, pseudo_ids, num_source_tokens,
  num_target_tokens, decode=False)\<close>.
\<close>

definition forward ::
  "NAT \<Rightarrow> rng \<Rightarrow> bert_input list \<Rightarrow> int list list \<Rightarrow> int list list \<Rightarrow> int list list \<Rightarrow>
   int list \<Rightarrow> int list \<Rightarrow> bool \<Rightarrow> error + (bert_input list \<times> forward_result)" where
  "forward self r calls source_ids target_ids pseudo_ids num_source_tokens num_target_tokens decode =
     (if decode then forward_decode_mode self calls source_ids target_ids
      else forward_train self r calls source_ids target_ids pseudo_ids
             num_source_tokens num_target_tokens)"

section \<open>A small model for concrete runs\<close>

text \<open>
  A model with a two-dimensional encoder that looks only at the token ids (token 12 is
  embedded as \<open>[0, 1]\<close>, every other token as \<open>[1, 0]\<close>), a head that always
  scores vocabulary entry 1 highest among three, and a length table of 512 rows whose
  row 9 is \<open>[0, 1]\<close> and whose other rows are zero: a source that consists of token 12
  gets the length 9, any other source the length 0 before the clamp.
\<close>

definition demo_bert :: "bert_input \<Rightarrow> real list list list" where
  "demo_bert inp = map (map (\<lambda>t. if t = 12 then [0, 1] else [1, 0])) (bert_input_ids inp)"

definition demo_cls :: "real list list list \<Rightarrow> real list list list" where
  "demo_cls h = map (map (\<lambda>v. [0, 1, 0])) h"

definition demo_model :: NAT where
  "demo_model = \<lparr>use_glat = False, glat_random_prob = None, glat_f = 1 / 2,
     mask_word_id = 103, sep_word_id = 102, pad_word_id = 0, label_smoothing = 0,
     vocab_size = 3, encoder_embed_dim = 2, bert = demo_bert, cls = demo_cls,
     embed_length = (replicate 512 [0, 0])[9 := [0, 1]], crit_mask_lm_smoothed = None\<rparr>"

text \<open>
  The same model with another length table: row 3 is \<open>[1, 0]\<close> and row 60 is
  \<open>[0, 1]\<close>, so that a source of token 12 gets the raw length 60 and any other source
  the raw length 3.
\<close>

definition demo_model2 :: NAT where
  "demo_model2 = demo_model\<lparr>embed_length := (replicate 512 [0, 0])[3 := [1, 0], 60 := [0, 1]]\<rparr>"

text \<open>Two random sources that differ everywhere.\<close>

definition demo_rng :: rng where
  "demo_rng = \<lparr>rand_sort = (\<lambda>i p. real p), rand_keep = (\<lambda>i p. 0), rand_token = (\<lambda>i k. 0)\<rparr>"

definition demo_rng' :: rng where
  "demo_rng' = \<lparr>rand_sort = (\<lambda>i p. - real p), rand_keep = (\<lambda>i p. 1), rand_token = (\<lambda>i k. 1)\<rparr>"

text \<open>
  The encoder call that the glancing step makes on the source \<open>[11]\<close> and an
  all-masked pseudo-target of three positions.
\<close>

definition demo_glat_calls :: "bert_input list" where
  "demo_glat_calls =
     [\<lparr>bert_input_ids = [[11, 103, 103, 103]],
       bert_attention_mask = [[[1, 0, 0, 0], [1, 1, 1, 1], [1, 1, 1, 1], [1, 1, 1, 1]]],
       bert_token_type_ids = [[0, 1, 1, 1]],
       bert_position_ids = [[0, 1, 2, 3]]\<rparr>]"

text \<open>
  The encoder call that the glancing step makes on the source \<open>[11]\<close> and a
  pseudo-target of two masked positions and one padding position.
\<close>

definition demo_glat_calls_padded :: "bert_input list" where
  "demo_glat_calls_padded =
     [\<lparr>bert_input_ids = [[11, 103, 103, 0]],
       bert_attention_mask = [[[1, 0, 0, 0], [1, 1, 1, 0], [1, 1, 1, 0], [0, 0, 0, 0]]],
       bert_token_type_ids = [[0, 1, 1, 1]],
       bert_position_ids = [[0, 1, 2, 0]]\<rparr>]"

section \<open>Basic facts about the error monad\<close>

lemma ebind_Inr [simp]: "ebind (Inr x) f = f x"
  by (simp add: ebind_def)

lemma ebind_Inl [simp]: "ebind (Inl e) f = Inl e"
  by (simp add: ebind_def)

lemma ebind_eq_Inr: "ebind m f = Inr y \<longleftrightarrow> (\<exists>x. m = Inr x \<and> f x = Inr y)"
  by (cases m) simp_all

lemma emap_eq_Inr:
  "emap f xs = Inr ys \<longleftrightarrow> length ys = length xs \<and> (\<forall>i < length xs. f (xs ! i) = Inr (ys ! i))"
proof (induction xs arbitrary: ys)
  case Nil
  then show ?case by auto
next
  case (Cons x xs)
  show ?case
  proof (cases ys)
    case Nil
    then show ?thesis by (auto simp: ebind_eq_Inr)
  next
    case (Cons y ys')
    then show ?thesis
      using Cons.IH [of ys'] by (auto simp: ebind_eq_Inr nth_Cons split: nat.splits)
  qed
qed

lemma sum_list_all_zero:
  fixes xs :: "'a::comm_monoid_add list"
  shows "\<forall>x \<in> set xs. x = 0 \<Longrightarrow> sum_list xs = 0"
  by (induction xs) simp_all

lemma upt_0_2: "[0..<2] = [0, Suc 0]"
  by (simp add: numeral_2_eq_2)

lemma length_arange [simp]: "length (arange n) = n"
  by (simp add: arange_def)

lemma nth_arange [simp]: "p < n \<Longrightarrow> arange n ! p = int p"
  by (simp add: arange_def)

section \<open>Claim C4: the contract of \<open>create_mask_and_position_ids\<close>\<close>

lemma broadcast_pair_same: "length xs = length ys \<Longrightarrow> broadcast_pair xs ys = Inr (zip xs ys)"
  by (simp add: broadcast_pair_def)

lemma broadcast_pair_single: "broadcast_pair [x] ys = Inr (map (\<lambda>y. (x, y)) ys)"
  by (cases ys rule: list.exhaust; cases "tl ys") (auto simp: broadcast_pair_def)

lemma create_mask_and_position_ids_None:
  "create_mask_and_position_ids num_tokens max_len None =
     Inr (map (\<lambda>c. map (\<lambda>p. if p < c then 1 else 0) (arange max_len)) num_tokens,
          map (\<lambda>c. map (\<lambda>p. if p < c then p else 0) (arange max_len)) num_tokens)"
  unfolding create_mask_and_position_ids_def Let_def
  by (simp add: broadcast_pair_single) (simp add: list_eq_iff_nth_eq)

lemma create_mask_and_position_ids_Some:
  "length off = length num_tokens \<Longrightarrow>
   create_mask_and_position_ids num_tokens max_len (Some off) =
     Inr (map (\<lambda>c. map (\<lambda>p. if p < c then 1 else 0) (arange max_len)) num_tokens,
          map2 (\<lambda>o' c. map (\<lambda>p. if p < c then wrap64 (p + o') else 0) (arange max_len))
            off num_tokens)"
  unfolding create_mask_and_position_ids_def Let_def
  by (simp add: broadcast_pair_same) (simp add: list_eq_iff_nth_eq)

lemma create_mask_and_position_ids_mask:
  "create_mask_and_position_ids num_tokens max_len offset = Inr (msk, pos) \<Longrightarrow>
   msk = map (\<lambda>c. map (\<lambda>p. if p < c then 1 else 0) (arange max_len)) num_tokens"
  by (auto simp: create_mask_and_position_ids_def Let_def ebind_eq_Inr)



lemma wrap64_id: "- (2 ^ 63) \<le> x \<Longrightarrow> x < 2 ^ 63 \<Longrightarrow> wrap64 x = x"
  by (simp add: wrap64_def)

text \<open>
  Claim C4 says that the position index of a valid position is \<open>p + o\<close> for every
  offset \<open>o\<close>. The sum is an \<open>int64\<close> addition: with the offset
  \<open>2^63 - 1\<close> the position 0 gets \<open>2^63 - 1\<close>, and the position 1 gets
  \<open>-2^63\<close>, not \<open>2^63\<close>.
\<close>

theorem position_offset_overflow_counterexample:
  "create_mask_and_position_ids [2] 2 (Some [2 ^ 63 - 1]) =
     Inr ([[1, 1]], [[2 ^ 63 - 1, - (2 ^ 63)]]) \<and>
   - (2 ^ 63) \<noteq> (1 + (2 ^ 63 - 1) :: int)"
  by (simp add: create_mask_and_position_ids_def Let_def broadcast_pair_def arange_def wrap64_def
      upt_0_2)

text \<open>
  Claim C4, amended. For every list of per-example token counts, every maximum length and
  every optional offset with one entry per example, \<open>create_mask_and_position_ids\<close>
  returns without error a mask and position ids of shape \<open>[B, max_len]\<close> such that,
  for every example \<open>b\<close> and every position \<open>p < max_len\<close>, the mask is 1 when
  \<open>p\<close> is below the example's count and 0 otherwise (so a count of \<open>max_len\<close> or
  more marks every position valid), and the position id is 0 at an invalid position and,
  at a valid one, \<open>p\<close> when no offset is given and the \<open>int64\<close> sum of \<open>p\<close>
  and the example's offset otherwise: that is \<open>p + o\<close> whenever \<open>p + o\<close> lies in
  \<open>[-2^63, 2^63)\<close>.
\<close>

theorem create_mask_and_position_ids_contract:
  assumes "case offset of None \<Rightarrow> True | Some off \<Rightarrow> length off = length num_tokens"
  shows "\<exists>msk pos.
           create_mask_and_position_ids num_tokens max_len offset = Inr (msk, pos) \<and>
           length msk = length num_tokens \<and> length pos = length num_tokens \<and>
           (\<forall>b < length num_tokens.
              length (msk ! b) = max_len \<and> length (pos ! b) = max_len \<and>
              (\<forall>p < max_len.
                 msk ! b ! p = (if int p < num_tokens ! b then 1 else 0) \<and>
                 pos ! b ! p =
                   (if int p < num_tokens ! b
                    then (case offset of None \<Rightarrow> int p | Some off \<Rightarrow> wrap64 (int p + off ! b))
                    else 0) \<and>
                 (int p < num_tokens ! b \<and>
                  (case offset of
                     None \<Rightarrow> True
                   | Some off \<Rightarrow> - (2 ^ 63) \<le> int p + off ! b \<and> int p + off ! b < 2 ^ 63) \<longrightarrow>
                  pos ! b ! p = int p + (case offset of None \<Rightarrow> 0 | Some off \<Rightarrow> off ! b))))"
proof (cases offset)
  case None
  show ?thesis
    unfolding None create_mask_and_position_ids_None by simp
next
  case (Some off)
  with assms have len: "length off = length num_tokens" by simp
  show ?thesis
    unfolding Some create_mask_and_position_ids_Some [OF len] using len by (simp add: wrap64_id)
qed

theorem create_mask_and_position_ids_contract_witness:
  "\<exists>msk pos. create_mask_and_position_ids [2, 5] 3 (Some [10, 20]) = Inr (msk, pos) \<and>
      msk ! 0 ! 2 = 0 \<and> pos ! 0 ! 2 = 0 \<and> msk ! 1 ! 2 = 1 \<and> pos ! 1 ! 2 = 22"
proof -
  have h: "case Some [10, 20::int] of None \<Rightarrow> True | Some off \<Rightarrow> length off = length [2, 5::int]"
    by simp
  from create_mask_and_position_ids_contract [OF h, of 3]
  obtain msk pos where
    r: "create_mask_and_position_ids [2, 5] 3 (Some [10, 20]) = Inr (msk, pos)" and
    a: "\<forall>b < length [2, 5::int].
              length (msk ! b) = 3 \<and> length (pos ! b) = 3 \<and>
              (\<forall>p < 3.
                 msk ! b ! p = (if int p < [2, 5] ! b then 1 else 0) \<and>
                 pos ! b ! p =
                   (if int p < [2, 5] ! b
                    then (case Some [10, 20::int] of None \<Rightarrow> int p
                          | Some off \<Rightarrow> wrap64 (int p + off ! b))
                    else 0) \<and>
                 (int p < [2, 5] ! b \<and>
                  (case Some [10, 20::int] of
                     None \<Rightarrow> True
                   | Some off \<Rightarrow> - (2 ^ 63) \<le> int p + off ! b \<and> int p + off ! b < 2 ^ 63) \<longrightarrow>
                  pos ! b ! p = int p + (case Some [10, 20::int] of None \<Rightarrow> 0 | Some off \<Rightarrow> off ! b)))"
    by blast
  from a have "msk ! 0 ! 2 = 0 \<and> pos ! 0 ! 2 = 0" by (simp add: nth_Cons')
  moreover from a have "msk ! 1 ! 2 = 1 \<and> pos ! 1 ! 2 = 22" by (simp add: nth_Cons' wrap64_def)
  ultimately show ?thesis using r by blast
qed

section \<open>Claim C1: the visibility pattern of \<open>create_attention_mask\<close>\<close>

lemma attention_row_nth:
  assumes "length weight = length msk" "i < length weight" "j < length weight"
  shows "attention_row weight msk ! i ! j =
           (if (weight ! i = 0 \<or> weight ! j = 1) \<and> msk ! i \<and> msk ! j then 1 else 0)"
  using assms by (simp add: attention_row_def)

lemma attention_row_length:
  "length weight = length msk \<Longrightarrow> length (attention_row weight msk) = length weight"
  "length weight = length msk \<Longrightarrow> i < length weight \<Longrightarrow> length (attention_row weight msk ! i) = length weight"
  by (simp_all add: attention_row_def)

lemma weight_nth:
  "i < length s + length t \<Longrightarrow>
   (map (\<lambda>_. 1::int) s @ map (\<lambda>_. 0) t) ! i = (if i < length s then 1 else 0)"
  by (simp add: nth_append)

lemma attention_row_joint:
  assumes "i < length (s @ t)" "j < length (s @ t)"
  shows "attention_row (map (\<lambda>_. 1) s @ map (\<lambda>_. 0) t) (map (\<lambda>m. m = 1) (s @ t)) ! i ! j =
           (if \<not> (i < length s \<and> length s \<le> j) \<and> (s @ t) ! i = 1 \<and> (s @ t) ! j = 1
            then 1 else 0)"
proof -
  have "attention_row (map (\<lambda>_. 1) s @ map (\<lambda>_. 0) t) (map (\<lambda>m. m = 1) (s @ t)) ! i ! j =
        (if ((map (\<lambda>_. 1::int) s @ map (\<lambda>_. 0) t) ! i = 0 \<or>
             (map (\<lambda>_. 1::int) s @ map (\<lambda>_. 0) t) ! j = 1) \<and>
            map (\<lambda>m. m = 1) (s @ t) ! i \<and> map (\<lambda>m. m = 1) (s @ t) ! j then 1 else 0)"
    using assms by (intro attention_row_nth) simp_all
  also have "\<dots> = (if \<not> (i < length s \<and> length s \<le> j) \<and> (s @ t) ! i = 1 \<and> (s @ t) ! j = 1
            then 1 else 0)"
    using assms unfolding length_append
    by (simp only: weight_nth nth_map length_append) auto
  finally show ?thesis .
qed

lemma create_attention_mask_eq:
  assumes "length source_mask = length target_mask"
  shows "create_attention_mask source_mask target_mask =
           Inr (map2 (\<lambda>s t. attention_row (map (\<lambda>_. 1) s @ map (\<lambda>_. 0) t)
                                          (map (\<lambda>m. m = 1) (s @ t)))
                     source_mask target_mask)"
  using assms
  by (simp add: create_attention_mask_def cat1_def list_eq_iff_nth_eq)

text \<open>
  Claim C1. For every pair of source and target validity masks of the same batch size,
  \<open>create_attention_mask\<close> returns a matrix per example over the joint sequence
  (source block, then target block) in which entry \<open>(i, j)\<close> is 0 exactly when
  \<open>i\<close> is a source position and \<open>j\<close> a target position, or \<open>i\<close> or \<open>j\<close> is
  invalid (its mask entry is not 1); for every other pair (source to source, target to
  source, target to target, both valid) the entry is 1.
\<close>

theorem create_attention_mask_visibility:
  assumes "length source_mask = length target_mask"
  shows "\<exists>att.
           create_attention_mask source_mask target_mask = Inr att \<and>
           length att = length source_mask \<and>
           (\<forall>b < length source_mask.
              let sl = length (source_mask ! b);
                  joint = source_mask ! b @ target_mask ! b
              in length (att ! b) = length joint \<and>
                 (\<forall>i < length joint.
                    length (att ! b ! i) = length joint \<and>
                    (\<forall>j < length joint.
                       (att ! b ! i ! j = 0 \<longleftrightarrow>
                          (i < sl \<and> sl \<le> j) \<or> joint ! i \<noteq> 1 \<or> joint ! j \<noteq> 1) \<and>
                       (att ! b ! i ! j = 1 \<longleftrightarrow>
                          \<not> (i < sl \<and> sl \<le> j) \<and> joint ! i = 1 \<and> joint ! j = 1))))"
proof -
  let ?att = "map2 (\<lambda>s t. attention_row (map (\<lambda>_. 1) s @ map (\<lambda>_. 0) t)
                                          (map (\<lambda>m. m = 1) (s @ t)))
                     source_mask target_mask"
  have "length ?att = length source_mask" using assms by simp
  moreover have "let sl = length (source_mask ! b);
                  joint = source_mask ! b @ target_mask ! b
              in length (?att ! b) = length joint \<and>
                 (\<forall>i < length joint.
                    length (?att ! b ! i) = length joint \<and>
                    (\<forall>j < length joint.
                       (?att ! b ! i ! j = 0 \<longleftrightarrow>
                          (i < sl \<and> sl \<le> j) \<or> joint ! i \<noteq> 1 \<or> joint ! j \<noteq> 1) \<and>
                       (?att ! b ! i ! j = 1 \<longleftrightarrow>
                          \<not> (i < sl \<and> sl \<le> j) \<and> joint ! i = 1 \<and> joint ! j = 1)))"
    if b: "b < length source_mask" for b
  proof -
    have row: "?att ! b = attention_row (map (\<lambda>_. 1) (source_mask ! b) @ map (\<lambda>_. 0) (target_mask ! b))
                                          (map (\<lambda>m. m = 1) (source_mask ! b @ target_mask ! b))"
      using b assms by simp
    let ?s = "source_mask ! b" and ?t = "target_mask ! b"
    let ?w = "map (\<lambda>_. 1::int) ?s @ map (\<lambda>_. 0) ?t"
    let ?m = "map (\<lambda>m. m = (1::int)) (?s @ ?t)"
    have len: "length ?w = length ?m" "length ?w = length (?s @ ?t)" by simp_all
    show ?thesis
      unfolding Let_def row
    proof (intro conjI allI impI)
      show "length (attention_row ?w ?m) = length (?s @ ?t)"
        using attention_row_length(1) [OF len(1)] len(2) by simp
    next
      fix i assume i: "i < length (?s @ ?t)"
      then show "length (attention_row ?w ?m ! i) = length (?s @ ?t)"
        using attention_row_length(2) [OF len(1), of i] len(2) by simp
    next
      fix i j assume "i < length (?s @ ?t)" "j < length (?s @ ?t)"
      then show "(attention_row ?w ?m ! i ! j = 0) =
                   ((i < length ?s \<and> length ?s \<le> j) \<or> (?s @ ?t) ! i \<noteq> 1 \<or> (?s @ ?t) ! j \<noteq> 1)"
        by (simp only: attention_row_joint) auto
    next
      fix i j assume "i < length (?s @ ?t)" "j < length (?s @ ?t)"
      then show "(attention_row ?w ?m ! i ! j = 1) =
                   (\<not> (i < length ?s \<and> length ?s \<le> j) \<and> (?s @ ?t) ! i = 1 \<and> (?s @ ?t) ! j = 1)"
        by (simp only: attention_row_joint) auto
    qed
  qed
  ultimately show ?thesis
    using create_attention_mask_eq [OF assms] by blast
qed


theorem create_attention_mask_visibility_witness:
  "\<exists>att. create_attention_mask [[1, 1, 0]] [[1, 0]] = Inr att \<and>
      att ! 0 ! 0 ! 1 = 1 \<and> att ! 0 ! 0 ! 3 = 0 \<and> att ! 0 ! 3 ! 0 = 1 \<and>
      att ! 0 ! 3 ! 3 = 1 \<and> att ! 0 ! 2 ! 0 = 0 \<and> att ! 0 ! 3 ! 4 = 0"
proof -
  have h: "length [[1, 1, 0::int]] = length [[1, 0::int]]" by simp
  from create_attention_mask_visibility [OF h]
  obtain att where
    r: "create_attention_mask [[1, 1, 0]] [[1, 0]] = Inr att" and
    a: "\<forall>b < length [[1, 1, 0::int]].
              let sl = length ([[1, 1, 0::int]] ! b);
                  joint = [[1, 1, 0::int]] ! b @ [[1, 0]] ! b
              in length (att ! b) = length joint \<and>
                 (\<forall>i < length joint.
                    length (att ! b ! i) = length joint \<and>
                    (\<forall>j < length joint.
                       (att ! b ! i ! j = 0 \<longleftrightarrow>
                          (i < sl \<and> sl \<le> j) \<or> joint ! i \<noteq> 1 \<or> joint ! j \<noteq> 1) \<and>
                       (att ! b ! i ! j = 1 \<longleftrightarrow>
                          \<not> (i < sl \<and> sl \<le> j) \<and> joint ! i = 1 \<and> joint ! j = 1)))"
    by blast
  from a have
    "att ! 0 ! 0 ! 1 = 1 \<and> att ! 0 ! 0 ! 3 = 0 \<and> att ! 0 ! 3 ! 0 = 1 \<and>
      att ! 0 ! 3 ! 3 = 1 \<and> att ! 0 ! 2 ! 0 = 0 \<and> att ! 0 ! 3 ! 4 = 0"
    by (simp add: nth_Cons')
  with r show ?thesis by blast
qed

section \<open>Claim C5: the label-smoothed loss and its target rows\<close>

lemma sum_list_list_update:
  fixes xs :: "real list"
  shows "k < length xs \<Longrightarrow> sum_list (xs[k := x]) = sum_list xs - xs ! k + x"
  by (induction xs arbitrary: k) (auto split: nat.splits)

lemma smoothing_mass:
  fixes d s :: real
  shows "d \<noteq> 0 \<Longrightarrow> (d + 2) * (s / d) - s / d - s / d + (1 - s) = 1"
  by (simp add: field_simps)

lemma py_index_nonneg: "0 \<le> i \<Longrightarrow> py_index n i = (if i < int n then Inr (nat i) else Inl IndexError)"
  by (simp add: py_index_def)

lemma LabelSmoothingLoss_init_Inr:
  assumes "LabelSmoothingLoss_init ls V ig = Inr L" and "0 \<le> ig"
  shows "0 < ls" "ls \<le> 1" "0 < V" "V \<noteq> 2" "ig < V"
    "L = \<lparr>ignore_index = ig,
          one_hot = (replicate (nat V) (ls / real_of_int (V - 2)))[nat ig := 0],
          confidence = 1 - ls, tgt_vocab_size = V\<rparr>"
  using assms
  by (auto simp: LabelSmoothingLoss_init_def Let_def py_index_nonneg split: if_splits)

text \<open>
  The row of the smoothed target distribution for one label: its entries, its sum, and
  that no entry is negative.
\<close>

lemma smoothed_target_row:
  assumes init: "LabelSmoothingLoss_init ls V ig = Inr L"
    and ig: "0 \<le> ig" and t: "0 \<le> t" "t < V"
  shows "\<exists>row. smoothed_target L t = Inr row \<and> length row = nat V \<and>
           (\<forall>k < nat V. 0 \<le> row ! k) \<and>
           (if t \<noteq> ig
            then row ! nat t = 1 - ls \<and> row ! nat ig = 0 \<and>
                 (\<forall>k < nat V. k \<noteq> nat t \<and> k \<noteq> nat ig \<longrightarrow> row ! k = ls / real_of_int (V - 2)) \<and>
                 sum_list row = 1
            else (\<forall>k < nat V. row ! k = 0) \<and> sum_list row = 0)"
proof -
  note I = LabelSmoothingLoss_init_Inr [OF init ig]
  let ?sv = "ls / real_of_int (V - 2)"
  let ?oh = "(replicate (nat V) ?sv)[nat ig := 0]"
  have oh: "one_hot L = ?oh" and conf: "confidence L = 1 - ls" and igL: "ignore_index L = ig"
    using I(6) by simp_all
  have len: "length ?oh = nat V" by simp
  have tn: "nat t < nat V" and ign: "nat ig < nat V" using t ig I by auto
  show ?thesis
  proof (cases "t = ig")
    case True
    let ?row = "map (\<lambda>_. 0::real) (?oh[nat t := 1 - ls])"
    have r: "smoothed_target L t = Inr ?row"
      using t True by (simp add: smoothed_target_def oh conf igL Let_def)
    have "sum_list ?row = 0" by simp
    moreover have "\<forall>k < nat V. ?row ! k = 0" by simp
    ultimately show ?thesis using True r by (intro exI [of _ ?row]) simp
  next
    case False
    let ?row = "?oh[nat t := 1 - ls]"
    have ne: "nat t \<noteq> nat ig" using False t ig by auto
    have r: "smoothed_target L t = Inr ?row"
      using t False by (simp add: smoothed_target_def oh conf igL Let_def)
    have V3: "3 \<le> V" using False t ig I(4,5) by linarith
    then have V2: "real_of_int (V - 2) \<noteq> 0" by simp
    have svn: "0 \<le> ?sv" using V3 I(1) by simp
    have "sum_list ?oh = real (nat V) * ?sv - ?sv"
      using ign by (simp add: sum_list_list_update sum_list_replicate)
    moreover have "?oh ! nat t = ?sv" using ne tn by simp
    ultimately have "sum_list ?row = real (nat V) * ?sv - ?sv - ?sv + (1 - ls)"
      using tn by (simp add: sum_list_list_update)
    also have "real (nat V) = real_of_int (V - 2) + 2" using I(3) by simp
    also have "(real_of_int (V - 2) + 2) * ?sv - ?sv - ?sv + (1 - ls) = 1"
      using V2 by (rule smoothing_mass)
    finally have s: "sum_list ?row = 1" .
    have e1: "?row ! nat t = 1 - ls" using tn by simp
    have e2: "?row ! nat ig = 0" using ne ign by simp
    have e3: "\<forall>k < nat V. k \<noteq> nat t \<and> k \<noteq> nat ig \<longrightarrow> ?row ! k = ?sv" by simp
    have nn: "\<forall>k < nat V. 0 \<le> ?row ! k"
    proof (intro allI impI)
      fix k assume k: "k < nat V"
      show "0 \<le> ?row ! k"
      proof (cases "k = nat t")
        case True
        then show ?thesis using e1 I(2) by simp
      next
        case kt: False
        show ?thesis
        proof (cases "k = nat ig")
          case True
          then show ?thesis using e2 by simp
        next
          case False
          then show ?thesis using e3 k kt svn by simp
        qed
      qed
    qed
    show ?thesis using False r s e1 e2 e3 nn by (intro exI [of _ ?row]) simp
  qed
qed

text \<open>
  The divergence of one position from a row without negative entries: the sum over the
  vocabulary of \<open>q * log q - q * x\<close>, an entry \<open>q = 0\<close> giving \<open>- 0 * x = 0\<close>.
\<close>

lemma emap_kl_div_pointwise:
  assumes "length xs = length ts" "\<forall>t \<in> set ts. 0 \<le> t"
  shows "emap (\<lambda>(x, t). kl_div_pointwise x t) (zip xs ts) =
           Inr (map2 (\<lambda>x t. (if t = 0 then 0 else t * ln t) - t * x) xs ts)"
  using assms by (induction xs ts rule: list_induct2) (simp_all add: kl_div_pointwise_def)

lemma map2_nth_upt:
  "length xs = length ts \<Longrightarrow> map2 f xs ts = map (\<lambda>k. f (xs ! k) (ts ! k)) [0..<length ts]"
  by (rule nth_equalityI) simp_all

lemma kl_div_row_eq:
  assumes "length xs = length ts" "\<forall>k < length ts. 0 \<le> ts ! k"
  shows "kl_div_row xs ts =
           Inr (sum_list (map (\<lambda>k. (if ts ! k = 0 then 0 else ts ! k * ln (ts ! k)) - ts ! k * xs ! k)
                            [0..<length ts]))"
proof -
  have nn: "\<forall>t \<in> set ts. 0 \<le> t" using assms(2) by (auto simp: in_set_conv_nth)
  show ?thesis
    unfolding kl_div_row_def
    using assms(1) emap_kl_div_pointwise [OF assms(1) nn]
      map2_nth_upt [OF assms(1), of "\<lambda>x t. (if t = 0 then 0 else t * ln t) - t * x"]
    by simp
qed

lemma sum_list_zero_terms:
  fixes ts :: "real list"
  assumes "\<forall>k < n. ts ! k = 0"
  shows "sum_list (map (\<lambda>k. (if ts ! k = 0 then 0 else ts ! k * ln (ts ! k)) - ts ! k * xs ! k)
                     [0..<n]) = 0"
  using assms by (intro sum_list_all_zero) auto

text \<open>
  Claim C5. For a label-smoothed loss constructed with smoothing \<open>ls\<close>, vocabulary size
  \<open>V\<close> and an ignore index that is a vocabulary entry, applied to predictions of
  shape \<open>[B, P, V]\<close> and labels of shape \<open>[B, P]\<close> that are vocabulary entries:
  \<open>LabelSmoothingLoss.forward\<close> returns one loss per position, the divergence of the
  prediction of that position from the smoothed row of its label. When the label is not
  the ignore index, the row has mass \<open>1 - ls\<close> at the label, 0 at the ignore index and
  \<open>ls / (V - 2)\<close> at every other entry, and sums to exactly 1; the loss is the sum
  over the vocabulary of \<open>q * log q - q * x\<close>. When the label is the ignore index, the
  row is zero everywhere, sums to 0, and the loss of the position is 0.
\<close>

theorem label_smoothing_rows:
  assumes init: "LabelSmoothingLoss_init ls V ig = Inr L"
    and ig: "0 \<le> ig"
    and shape: "map length output = map length target"
    and vocab: "\<forall>orow \<in> set output. \<forall>x \<in> set orow. int (length x) = V"
    and labels: "\<forall>trow \<in> set target. \<forall>t \<in> set trow. 0 \<le> t \<and> t < V"
  shows "\<exists>losses.
           LabelSmoothingLoss_forward L output target = Inr losses \<and>
           map length losses = map length target \<and>
           (\<forall>b < length target. \<forall>p < length (target ! b).
              \<exists>row. smoothed_target L (target ! b ! p) = Inr row \<and> length row = nat V \<and>
                kl_div_row (output ! b ! p) row = Inr (losses ! b ! p) \<and>
                (if target ! b ! p \<noteq> ig
                 then row ! nat (target ! b ! p) = 1 - ls \<and> row ! nat ig = 0 \<and>
                      (\<forall>k < nat V. k \<noteq> nat (target ! b ! p) \<and> k \<noteq> nat ig \<longrightarrow>
                         row ! k = ls / real_of_int (V - 2)) \<and>
                      sum_list row = 1 \<and>
                      losses ! b ! p =
                        sum_list (map (\<lambda>k. (if row ! k = 0 then 0 else row ! k * ln (row ! k)) -
                                              row ! k * output ! b ! p ! k) [0..<nat V])
                 else (\<forall>k < nat V. row ! k = 0) \<and> sum_list row = 0 \<and> losses ! b ! p = 0))"
proof -
  note I = LabelSmoothingLoss_init_Inr [OF init ig]
  have lb: "length output = length target" using shape by (metis length_map)
  have lr: "length (output ! b) = length (target ! b)" if "b < length target" for b
  proof -
    have "map length output ! b = map length target ! b" using shape by simp
    then show ?thesis using that lb by simp
  qed
  have lx: "length (output ! b ! p) = nat V" if "b < length target" "p < length (target ! b)" for b p
  proof -
    have "output ! b \<in> set output" using that(1) lb by simp
    moreover have "output ! b ! p \<in> set (output ! b)" using that lr [of b] by simp
    ultimately have "int (length (output ! b ! p)) = V" using vocab by blast
    then show ?thesis by simp
  qed
  have lt: "0 \<le> target ! b ! p \<and> target ! b ! p < V"
    if "b < length target" "p < length (target ! b)" for b p
    using labels that by (metis nth_mem)
  define pos_loss where
    "pos_loss = (\<lambda>x t. case ebind (smoothed_target L t) (kl_div_row x) of Inr l \<Rightarrow> l | Inl e \<Rightarrow> 0)"
  have step: "\<exists>row. smoothed_target L t = Inr row \<and> length row = nat V \<and>
                kl_div_row x row = Inr (pos_loss x t) \<and>
                ebind (smoothed_target L t) (kl_div_row x) = Inr (pos_loss x t) \<and>
                (if t \<noteq> ig
                 then row ! nat t = 1 - ls \<and> row ! nat ig = 0 \<and>
                      (\<forall>k < nat V. k \<noteq> nat t \<and> k \<noteq> nat ig \<longrightarrow> row ! k = ls / real_of_int (V - 2)) \<and>
                      sum_list row = 1 \<and>
                      pos_loss x t =
                        sum_list (map (\<lambda>k. (if row ! k = 0 then 0 else row ! k * ln (row ! k)) -
                                              row ! k * x ! k) [0..<nat V])
                 else (\<forall>k < nat V. row ! k = 0) \<and> sum_list row = 0 \<and> pos_loss x t = 0)"
    if t: "0 \<le> t" "t < V" and x: "length x = nat V" for x t
  proof -
    from smoothed_target_row [OF init ig t]
    obtain row where
      r: "smoothed_target L t = Inr row" and l: "length row = nat V" and
      nn: "\<forall>k < nat V. 0 \<le> row ! k" and
      f: "if t \<noteq> ig
          then row ! nat t = 1 - ls \<and> row ! nat ig = 0 \<and>
               (\<forall>k < nat V. k \<noteq> nat t \<and> k \<noteq> nat ig \<longrightarrow> row ! k = ls / real_of_int (V - 2)) \<and>
               sum_list row = 1
          else (\<forall>k < nat V. row ! k = 0) \<and> sum_list row = 0"
      by blast
    let ?s = "sum_list (map (\<lambda>k. (if row ! k = 0 then 0 else row ! k * ln (row ! k)) -
                                  row ! k * x ! k) [0..<nat V])"
    have k: "kl_div_row x row = Inr ?s"
      using kl_div_row_eq [of x row] x l nn by simp
    then have p: "pos_loss x t = ?s" by (simp add: pos_loss_def r)
    have z: "?s = 0" if "t = ig"
      using f that by (intro sum_list_zero_terms) simp
    show ?thesis
    proof (cases "t = ig")
      case True
      with f z p have "(\<forall>k < nat V. row ! k = 0) \<and> sum_list row = 0 \<and> pos_loss x t = 0"
        by simp
      with True r l k p show ?thesis by (intro exI [of _ row]) simp
    next
      case False
      with f have "row ! nat t = 1 - ls \<and> row ! nat ig = 0 \<and>
               (\<forall>k < nat V. k \<noteq> nat t \<and> k \<noteq> nat ig \<longrightarrow> row ! k = ls / real_of_int (V - 2)) \<and>
               sum_list row = 1"
        by simp
      with False r l k p show ?thesis by (intro exI [of _ row]) simp
    qed
  qed
  define losses where "losses = map2 (map2 pos_loss) output target"
  have inner: "emap (\<lambda>(x, t). ebind (smoothed_target L t) (kl_div_row x))
                 (zip (output ! b) (target ! b)) = Inr (map2 pos_loss (output ! b) (target ! b))"
    if b: "b < length target" for b
    unfolding emap_eq_Inr
  proof (intro conjI allI impI)
    show "length (map2 pos_loss (output ! b) (target ! b)) = length (zip (output ! b) (target ! b))"
      by simp
  next
    fix p assume "p < length (zip (output ! b) (target ! b))"
    then have p: "p < length (target ! b)" by simp
    from step [OF lt [OF b p, THEN conjunct1] lt [OF b p, THEN conjunct2] lx [OF b p]]
    have "ebind (smoothed_target L (target ! b ! p)) (kl_div_row (output ! b ! p)) =
            Inr (pos_loss (output ! b ! p) (target ! b ! p))"
      by blast
    then show "(case zip (output ! b) (target ! b) ! p of
                  (x, t) \<Rightarrow> ebind (smoothed_target L t) (kl_div_row x)) =
               Inr (map2 pos_loss (output ! b) (target ! b) ! p)"
      using p lr [OF b] by simp
  qed
  have outer: "emap (\<lambda>(orow, trow).
                  emap (\<lambda>(x, t). ebind (smoothed_target L t) (kl_div_row x)) (zip orow trow))
                 (zip output target) = Inr losses"
    unfolding emap_eq_Inr losses_def
  proof (intro conjI allI impI)
    show "length (map2 (map2 pos_loss) output target) = length (zip output target)" by simp
  next
    fix b assume "b < length (zip output target)"
    then have b: "b < length target" by simp
    show "(case zip output target ! b of
             (orow, trow) \<Rightarrow>
               emap (\<lambda>(x, t). ebind (smoothed_target L t) (kl_div_row x)) (zip orow trow)) =
          Inr (map2 (map2 pos_loss) output target ! b)"
      using inner [OF b] b lb by simp
  qed
  have tv: "tgt_vocab_size L = V" using I(6) by simp
  have run: "LabelSmoothingLoss_forward L output target = Inr losses"
    unfolding LabelSmoothingLoss_forward_def tv using vocab shape outer by simp
  have ll: "map length losses = map length target"
  proof (rule nth_equalityI)
    show "length (map length losses) = length (map length target)"
      using lb by (simp add: losses_def)
  next
    fix b assume "b < length (map length losses)"
    then have b: "b < length target" using lb by (simp add: losses_def)
    then show "map length losses ! b = map length target ! b"
      using lb lr [OF b] by (simp add: losses_def)
  qed
  have at: "losses ! b ! p = pos_loss (output ! b ! p) (target ! b ! p)"
    if "b < length target" "p < length (target ! b)" for b p
    using that lb lr [of b] by (simp add: losses_def)
  show ?thesis
  proof (intro exI [of _ losses] conjI allI impI)
    show "LabelSmoothingLoss_forward L output target = Inr losses" by (rule run)
  next
    show "map length losses = map length target" by (rule ll)
  next
    fix b p assume b: "b < length target" and p: "p < length (target ! b)"
    from step [OF lt [OF b p, THEN conjunct1] lt [OF b p, THEN conjunct2] lx [OF b p]]
    show "\<exists>row. smoothed_target L (target ! b ! p) = Inr row \<and> length row = nat V \<and>
                kl_div_row (output ! b ! p) row = Inr (losses ! b ! p) \<and>
                (if target ! b ! p \<noteq> ig
                 then row ! nat (target ! b ! p) = 1 - ls \<and> row ! nat ig = 0 \<and>
                      (\<forall>k < nat V. k \<noteq> nat (target ! b ! p) \<and> k \<noteq> nat ig \<longrightarrow>
                         row ! k = ls / real_of_int (V - 2)) \<and>
                      sum_list row = 1 \<and>
                      losses ! b ! p =
                        sum_list (map (\<lambda>k. (if row ! k = 0 then 0 else row ! k * ln (row ! k)) -
                                              row ! k * output ! b ! p ! k) [0..<nat V])
                 else (\<forall>k < nat V. row ! k = 0) \<and> sum_list row = 0 \<and> losses ! b ! p = 0)"
      unfolding at [OF b p] by blast
  qed
qed

theorem label_smoothing_rows_witness:
  "\<exists>L losses row row'.
      LabelSmoothingLoss_init (1 / 10) 5 0 = Inr L \<and>
      LabelSmoothingLoss_forward L [[[- 1, - 2, - 3, - 4, - 5], [- 5, - 4, - 3, - 2, - 1]]] [[3, 0]] =
        Inr losses \<and>
      map length losses = [2] \<and>
      smoothed_target L 3 = Inr row \<and> row ! 3 = 9 / 10 \<and> row ! 0 = 0 \<and> row ! 1 = 1 / 30 \<and>
      sum_list row = 1 \<and>
      kl_div_row [- 1, - 2, - 3, - 4, - 5] row = Inr (losses ! 0 ! 0) \<and>
      smoothed_target L 0 = Inr row' \<and> sum_list row' = 0 \<and>
      losses ! 0 ! 1 = 0"
proof -
  let ?out = "[[[- 1, - 2, - 3, - 4, - 5], [- 5, - 4, - 3, - 2, - 1::real]]]"
  let ?tgt = "[[3, 0::int]]"
  obtain L where init: "LabelSmoothingLoss_init (1 / 10) 5 0 = Inr L"
    by (simp add: LabelSmoothingLoss_init_def py_index_def Let_def)
  have ig: "(0::int) \<le> 0" by simp
  have shape: "map length ?out = map length ?tgt" by simp
  have vocab: "\<forall>orow \<in> set ?out. \<forall>x \<in> set orow. int (length x) = 5" by simp
  have labels: "\<forall>trow \<in> set ?tgt. \<forall>t \<in> set trow. 0 \<le> t \<and> t < 5" by simp
  from label_smoothing_rows [OF init ig shape vocab labels]
  obtain losses where
    run: "LabelSmoothingLoss_forward L ?out ?tgt = Inr losses" and
    ll: "map length losses = map length ?tgt" and
    a: "\<forall>b < length ?tgt. \<forall>p < length (?tgt ! b).
          \<exists>row. smoothed_target L (?tgt ! b ! p) = Inr row \<and> length row = nat 5 \<and>
            kl_div_row (?out ! b ! p) row = Inr (losses ! b ! p) \<and>
            (if ?tgt ! b ! p \<noteq> 0
             then row ! nat (?tgt ! b ! p) = 1 - 1 / 10 \<and> row ! nat 0 = 0 \<and>
                  (\<forall>k < nat 5. k \<noteq> nat (?tgt ! b ! p) \<and> k \<noteq> nat 0 \<longrightarrow>
                     row ! k = (1 / 10) / real_of_int (5 - 2)) \<and>
                  sum_list row = 1 \<and>
                  losses ! b ! p =
                    sum_list (map (\<lambda>k. (if row ! k = 0 then 0 else row ! k * ln (row ! k)) -
                                          row ! k * ?out ! b ! p ! k) [0..<nat 5])
             else (\<forall>k < nat 5. row ! k = 0) \<and> sum_list row = 0 \<and> losses ! b ! p = 0)"
    by blast
  from a [rule_format, of 0 0]
  obtain row where row: "smoothed_target L 3 = Inr row" "row ! 3 = 9 / 10" "row ! 0 = 0"
      "row ! 1 = 1 / 30" "sum_list row = 1"
      "kl_div_row [- 1, - 2, - 3, - 4, - 5] row = Inr (losses ! 0 ! 0)"
    by auto
  from a [rule_format, of 0 1]
  obtain row' where row': "smoothed_target L 0 = Inr row'" "sum_list row' = 0" "losses ! 0 ! 1 = 0"
    by auto
  from ll have "map length losses = [2]" by simp
  with init run row row' have c:
    "LabelSmoothingLoss_init (1 / 10) 5 0 = Inr L \<and>
      LabelSmoothingLoss_forward L [[[- 1, - 2, - 3, - 4, - 5], [- 5, - 4, - 3, - 2, - 1]]] [[3, 0]] =
        Inr losses \<and>
      map length losses = [2] \<and>
      smoothed_target L 3 = Inr row \<and> row ! 3 = 9 / 10 \<and> row ! 0 = 0 \<and> row ! 1 = 1 / 30 \<and>
      sum_list row = 1 \<and>
      kl_div_row [- 1, - 2, - 3, - 4, - 5] row = Inr (losses ! 0 ! 0) \<and>
      smoothed_target L 0 = Inr row' \<and> sum_list row' = 0 \<and>
      losses ! 0 ! 1 = 0"
    by simp
  show ?thesis
    by (rule exI [of _ L], rule exI [of _ losses], rule exI [of _ row], rule exI [of _ row'], rule c)
qed


section \<open>Claims C2 and C7: the normalisation of the token loss\<close>

lemma sum_list_divide_const:
  fixes xs :: "real list"
  shows "sum_list (map (\<lambda>x. x / d) xs) = sum_list xs / d"
  by (induction xs) (simp_all add: add_divide_distrib)

lemma sum_list_real_of_int: "sum_list (map real_of_int xs) = real_of_int (sum_list xs)"
  by (induction xs) simp_all

lemma fsum_Nil [simp]: "fsum [] = Finite 0"
  by (simp add: fsum_def)

lemma fsum_Cons [simp]: "fsum (x # xs) = fadd x (fsum xs)"
  by (simp add: fsum_def)

lemma fsum_Finite: "fsum (map Finite xs) = Finite (sum_list xs)"
  by (induction xs) simp_all

lemma fsum_mask_row:
  "fsum (map (\<lambda>m. Finite (real_of_int m)) mrow) = Finite (real_of_int (sum_list mrow))"
  by (induction mrow) simp_all

lemma mask_total:
  "fsum (map fsum (map (map (\<lambda>m. Finite (real_of_int m))) msk)) =
     Finite (real_of_int (sum_list (map sum_list msk)))"
  by (induction msk) (simp_all add: fsum_mask_row)

lemma masked_row_Finite:
  "map2 fmul (map Finite lrow) (map (\<lambda>m. Finite (real_of_int m)) mrow) =
     map Finite (map2 (\<lambda>l m. l * real_of_int m) lrow mrow)"
proof (induction lrow arbitrary: mrow)
  case Nil
  then show ?case by simp
next
  case (Cons l lrow)
  then show ?case by (cases mrow) simp_all
qed

lemma masked_rows_Finite:
  "map2 (map2 fmul) (map (map Finite) loss) (map (map (\<lambda>m. Finite (real_of_int m))) msk) =
     map (map Finite) (map2 (\<lambda>lrow mrow. map2 (\<lambda>l m. l * real_of_int m) lrow mrow) loss msk)"
proof (induction loss arbitrary: msk)
  case Nil
  then show ?case by simp
next
  case (Cons lrow loss)
  then show ?case by (cases msk) (simp_all add: masked_row_Finite)
qed

lemma fsum_quotients_row:
  "d \<noteq> 0 \<Longrightarrow>
   fsum (map (\<lambda>x. fdiv x (Finite d)) (map Finite row)) = Finite (sum_list (map (\<lambda>x. x / d) row))"
  by (induction row) simp_all

lemma fsum_quotients:
  "d \<noteq> 0 \<Longrightarrow>
   fsum (map (\<lambda>row. fsum (map (\<lambda>x. fdiv x (Finite d)) row)) (map (map Finite) rows)) =
     Finite (sum_list (map (\<lambda>row. sum_list (map (\<lambda>x. x / d) row)) rows))"
  by (induction rows) (simp_all del: map_map add: fsum_quotients_row)

lemma loss_mask_and_normalize_eq:
  assumes "map length loss = map length msk"
    and "real_of_int (sum_list (map sum_list msk)) + 1 / 100000 \<noteq> 0"
  shows "loss_mask_and_normalize (map (map Finite) loss) msk =
           Inr (Finite
                  (sum_list (map2 (\<lambda>lrow mrow. sum_list (map2 (\<lambda>l m. l * real_of_int m) lrow mrow))
                               loss msk) /
                   (real_of_int (sum_list (map sum_list msk)) + 1 / 100000)))"
proof -
  let ?d = "real_of_int (sum_list (map sum_list msk)) + 1 / 100000"
  let ?rows = "map2 (\<lambda>lrow mrow. map2 (\<lambda>l m. l * real_of_int m) lrow mrow) loss msk"
  have "sum_list (map (\<lambda>row. sum_list (map (\<lambda>x. x / ?d) row)) ?rows) =
        sum_list (map (\<lambda>row. sum_list row / ?d) ?rows)"
    by (simp add: sum_list_divide_const)
  also have "\<dots> = sum_list (map sum_list ?rows) / ?d"
    using sum_list_divide_const [of ?d "map sum_list ?rows"] by (simp add: comp_def)
  also have "map sum_list ?rows =
        map2 (\<lambda>lrow mrow. sum_list (map2 (\<lambda>l m. l * real_of_int m) lrow mrow)) loss msk"
    by (simp add: split_def)
  finally have q: "sum_list (map (\<lambda>row. sum_list (map (\<lambda>x. x / ?d) row)) ?rows) =
        sum_list (map2 (\<lambda>lrow mrow. sum_list (map2 (\<lambda>l m. l * real_of_int m) lrow mrow)) loss msk) / ?d" .
  have sh: "map length (map (map Finite) loss) = map length msk"
    using assms(1) by (simp add: comp_def)
  have den: "fadd (fsum (map fsum (map (map (\<lambda>m. Finite (real_of_int m))) msk)))
               (Finite (1 / 100000)) = Finite ?d"
    by (simp del: map_map add: mask_total)
  show ?thesis
    unfolding loss_mask_and_normalize_def Let_def den masked_rows_Finite
      fsum_quotients [OF assms(2)] q
    using sh by simp
qed

lemma mask_total_nonneg:
  assumes "\<forall>row \<in> set msk. \<forall>m \<in> set row. m = 0 \<or> m = (1::int)"
  shows "0 \<le> sum_list (map sum_list msk)"
proof -
  have "0 \<le> sum_list row" if "row \<in> set msk" for row
    using assms that by (intro sum_list_nonneg) force
  then show ?thesis by (intro sum_list_nonneg) auto
qed

text \<open>
  Claim C2 says that the token loss is normalised per example, each example's masked
  losses divided by its own valid count. The code divides by \<open>torch.sum(mask)\<close>, the
  count of valid target positions of the whole batch. On a batch of two examples with two
  and one valid positions the two normalisations differ.
\<close>

theorem per_example_normalization_counterexample:
  "loss_mask_and_normalize [[Finite 2, Finite 2], [Finite 4, Finite 0]] [[1, 1], [1, 0]] \<noteq>
     Inr (Finite (spec_per_example_normalize [[2, 2], [4, 0]] [[1, 1], [1, 0]]))"
  by (simp add: loss_mask_and_normalize_def spec_per_example_normalize_def Let_def)

text \<open>
  Claim C2, amended. For a tensor of finite losses and a 0/1 mask of the same shape,
  \<open>loss_mask_and_normalize\<close> returns the sum of the masked losses of all examples
  divided by the total number of valid positions of the batch plus \<open>1e-5\<close>: one global
  average over the valid positions of the batch.
\<close>

theorem loss_mask_and_normalize_global:
  assumes "map length loss = map length msk"
    and "\<forall>row \<in> set msk. \<forall>m \<in> set row. m = 0 \<or> m = 1"
  shows "loss_mask_and_normalize (map (map Finite) loss) msk =
           Inr (Finite
                  (sum_list (map2 (\<lambda>lrow mrow. sum_list (map2 (\<lambda>l m. l * real_of_int m) lrow mrow))
                               loss msk) /
                   (real_of_int (sum_list (map sum_list msk)) + 1 / 100000)))"
proof -
  have "0 \<le> real_of_int (sum_list (map sum_list msk))"
    using mask_total_nonneg [OF assms(2)] by simp
  then have "real_of_int (sum_list (map sum_list msk)) + 1 / 100000 \<noteq> 0" by simp
  with assms(1) show ?thesis by (rule loss_mask_and_normalize_eq)
qed

theorem loss_mask_and_normalize_global_witness:
  "loss_mask_and_normalize [[Finite 2, Finite 2], [Finite 4, Finite 0]] [[1, 1], [1, 0]] =
     Inr (Finite (8 / (3 + 1 / 100000)))"
proof -
  have a: "map length [[2, 2], [4, 0::real]] = map length [[1, 1], [1, 0::int]]" by simp
  have b: "\<forall>row \<in> set [[1, 1], [1, 0::int]]. \<forall>m \<in> set row. m = 0 \<or> m = 1" by simp
  show ?thesis using loss_mask_and_normalize_global [OF a b] by simp
qed

lemma fmul_zero: "fmul x (Finite 0) = (if is_finite x then Finite 0 else NaN)"
  by (cases x) (simp_all add: is_finite_def)

lemma fsum_zero_or_NaN:
  "fsum (map (\<lambda>y. if P y then Finite 0 else NaN) ys) =
     (if \<forall>y \<in> set ys. P y then Finite 0 else NaN)"
  by (induction ys) simp_all

lemma masked_row_zero:
  assumes "length lrow = length mrow" "\<forall>m \<in> set mrow. m = 0"
  shows "map2 fmul lrow (map (\<lambda>m. Finite (real_of_int m)) mrow) =
           map (\<lambda>x. if is_finite x then Finite 0 else NaN) lrow"
  using assms by (induction lrow mrow rule: list_induct2) (simp_all add: fmul_zero)

lemma quotient_row_zero:
  assumes "length lrow = length mrow" "\<forall>m \<in> set mrow. m = 0" "d \<noteq> 0"
  shows "fsum (map (\<lambda>x. fdiv x (Finite d))
                 (map2 fmul lrow (map (\<lambda>m. Finite (real_of_int m)) mrow))) =
           (if \<forall>x \<in> set lrow. is_finite x then Finite 0 else NaN)"
proof -
  have "map (\<lambda>x. fdiv x (Finite d)) (map (\<lambda>x. if is_finite x then Finite 0 else NaN) lrow) =
        map (\<lambda>x. if is_finite x then Finite 0 else NaN) lrow"
    using assms(3) by simp
  then show ?thesis
    unfolding masked_row_zero [OF assms(1,2)] by (simp only: fsum_zero_or_NaN)
qed

lemma quotient_rows_zero:
  assumes "map length loss = map length msk" "\<forall>row \<in> set msk. \<forall>m \<in> set row. m = 0" "d \<noteq> 0"
  shows "map (\<lambda>row. fsum (map (\<lambda>x. fdiv x (Finite d)) row))
           (map2 (map2 fmul) loss (map (map (\<lambda>m. Finite (real_of_int m))) msk)) =
         map (\<lambda>lrow. if \<forall>x \<in> set lrow. is_finite x then Finite 0 else NaN) loss"
  using assms
proof (induction loss arbitrary: msk)
  case Nil
  then show ?case by simp
next
  case (Cons lrow loss)
  then obtain mrow msk' where m: "msk = mrow # msk'" by (cases msk) auto
  with Cons.prems have "length lrow = length mrow" "\<forall>m \<in> set mrow. m = 0"
    "map length loss = map length msk'" "\<forall>row \<in> set msk'. \<forall>m \<in> set row. m = 0"
    by simp_all
  with Cons.IH [of msk'] Cons.prems(3) show ?case
    by (simp del: map_map add: m quotient_row_zero)
qed

lemma all_zero_total:
  assumes "\<forall>row \<in> set msk. \<forall>m \<in> set row. m = (0::int)"
  shows "sum_list (map sum_list msk) = 0"
proof -
  have "sum_list row = 0" if "row \<in> set msk" for row
    using assms that by (intro sum_list_all_zero) auto
  then show ?thesis by (intro sum_list_all_zero) auto
qed

text \<open>
  Claim C7 says that for any input whose target mask has no valid position the normalised
  token loss is 0, not NaN. The denominator is indeed the epsilon; but the masked loss is
  the product \<open>loss * mask\<close>, and an infinite per-position loss times the mask entry 0
  is NaN, which the sum keeps.
\<close>

theorem masked_infinite_loss_counterexample:
  "loss_mask_and_normalize [[PosInf, Finite 2]] [[0, 0]] = Inr NaN"
  by (simp add: loss_mask_and_normalize_def Let_def)

text \<open>
  Claim C7, amended. When the target validity mask has no valid position, the normalised
  token loss is the number 0 if every per-position loss is finite (the denominator is the
  epsilon, not zero, and every masked loss is 0), and NaN if some per-position loss is
  infinite or NaN.
\<close>

theorem token_loss_without_valid_targets:
  assumes "map length loss = map length msk"
    and "\<forall>row \<in> set msk. \<forall>m \<in> set row. m = 0"
  shows "loss_mask_and_normalize loss msk =
           Inr (if \<forall>row \<in> set loss. \<forall>x \<in> set row. is_finite x then Finite 0 else NaN)"
proof -
  have den: "fadd (fsum (map fsum (map (map (\<lambda>m. Finite (real_of_int m))) msk)))
               (Finite (1 / 100000)) = Finite (1 / 100000)"
    by (simp del: map_map add: mask_total all_zero_total [OF assms(2)])
  have eps: "(1 / 100000 :: real) \<noteq> 0" by simp
  show ?thesis
    unfolding loss_mask_and_normalize_def Let_def den
      quotient_rows_zero [OF assms eps] fsum_zero_or_NaN
    using assms(1) by simp
qed

theorem token_loss_without_valid_targets_witness:
  "loss_mask_and_normalize [[Finite 2, Finite 2], [Finite 4, Finite 7]] [[0, 0], [0, 0]] =
     Inr (Finite 0) \<and>
   loss_mask_and_normalize [[Finite 2, NaN], [NegInf, Finite 7]] [[0, 0], [0, 0]] = Inr NaN"
proof -
  have a: "map length [[Finite 2, Finite 2], [Finite 4, Finite 7]] = map length [[0, 0], [0, 0::int]]"
    "map length [[Finite 2, NaN], [NegInf, Finite 7]] = map length [[0, 0], [0, 0::int]]"
    by simp_all
  have b: "\<forall>row \<in> set [[0, 0], [0, 0::int]]. \<forall>m \<in> set row. m = 0" by simp
  show ?thesis
    using token_loss_without_valid_targets [OF a(1) b] token_loss_without_valid_targets [OF a(2) b]
    by (simp add: is_finite_def)
qed

subsection \<open>The token loss returned by the forward pass\<close>

text \<open>
  In \<open>forward\<close> the mask handed to \<open>loss_mask_and_normalize\<close> is the target mask
  built from \<open>num_target_tokens\<close>. So whenever the training forward pass returns, its
  token loss is the sum of the masked per-position losses over the batch-wide count of
  valid target positions plus epsilon.
\<close>

lemma finite_value_Inr: "finite_value x = Inr r \<longleftrightarrow> x = Finite r"
  by (cases x) (simp_all add: finite_value_def)

lemma forward_train_Inr:
  assumes "forward self r calls source_ids target_ids pseudo_ids num_source_tokens
             num_target_tokens False = Inr (calls', res)"
  shows "\<exists>target_mask target_position_ids masked_lm_loss pseudo_lm_loss length_loss.
           create_mask_and_position_ids num_target_tokens (width target_ids)
             (Some num_source_tokens) = Inr (target_mask, target_position_ids) \<and>
           loss_mask_and_normalize (map (map Finite) masked_lm_loss) target_mask =
             Inr (Finite pseudo_lm_loss) \<and>
           (res = Losses pseudo_lm_loss length_loss \<or>
            (\<exists>g. res = GlatLosses pseudo_lm_loss length_loss g))"
  using assms
  unfolding forward_def forward_train_def Let_def
  by (auto simp: ebind_eq_Inr finite_value_Inr split: if_splits prod.splits option.splits) blast+

lemma loss_mask_and_normalize_shape:
  "loss_mask_and_normalize loss msk = Inr x \<Longrightarrow> map length loss = map length msk"
  by (auto simp: loss_mask_and_normalize_def split: if_splits)

lemma forward_token_loss_global:
  assumes run: "forward self r calls source_ids target_ids pseudo_ids num_source_tokens
                  num_target_tokens False = Inr (calls', res)"
  shows "\<exists>target_mask target_position_ids masked_lm_loss pseudo_lm_loss length_loss.
           create_mask_and_position_ids num_target_tokens (width target_ids)
             (Some num_source_tokens) = Inr (target_mask, target_position_ids) \<and>
           (res = Losses pseudo_lm_loss length_loss \<or>
            (\<exists>g. res = GlatLosses pseudo_lm_loss length_loss g)) \<and>
           pseudo_lm_loss =
             sum_list (map2 (\<lambda>lrow mrow. sum_list (map2 (\<lambda>l m. l * real_of_int m) lrow mrow))
                         masked_lm_loss target_mask) /
             (real_of_int (sum_list (map sum_list target_mask)) + 1 / 100000)"
proof -
  from forward_train_Inr [OF run]
  obtain tm tp masked tok len where
    cm: "create_mask_and_position_ids num_target_tokens (width target_ids)
           (Some num_source_tokens) = Inr (tm, tp)" and
    lm: "loss_mask_and_normalize (map (map Finite) masked) tm = Inr (Finite tok)" and
    res: "res = Losses tok len \<or> (\<exists>g. res = GlatLosses tok len g)"
    by blast
  have tm: "tm = map (\<lambda>c. map (\<lambda>p. if p < c then 1 else 0) (arange (width target_ids)))
                   num_target_tokens"
    using cm by (rule create_mask_and_position_ids_mask)
  have b: "\<forall>row \<in> set tm. \<forall>m \<in> set row. m = 0 \<or> m = 1"
    by (auto simp: tm)
  have "map length (map (map Finite) masked) = map length tm"
    using lm by (rule loss_mask_and_normalize_shape)
  then have sh: "map length masked = map length tm" by (simp add: comp_def)
  have "0 \<le> real_of_int (sum_list (map sum_list tm))"
    using mask_total_nonneg [OF b] by simp
  then have "real_of_int (sum_list (map sum_list tm)) + 1 / 100000 \<noteq> 0" by simp
  with sh have "loss_mask_and_normalize (map (map Finite) masked) tm =
          Inr (Finite
                 (sum_list (map2 (\<lambda>lrow mrow. sum_list (map2 (\<lambda>l m. l * real_of_int m) lrow mrow))
                              masked tm) /
                  (real_of_int (sum_list (map sum_list tm)) + 1 / 100000)))"
    by (rule loss_mask_and_normalize_eq)
  with lm have "tok = sum_list (map2 (\<lambda>lrow mrow. sum_list (map2 (\<lambda>l m. l * real_of_int m) lrow mrow))
                           masked tm) /
               (real_of_int (sum_list (map sum_list tm)) + 1 / 100000)"
    by simp
  with cm res show ?thesis by blast
qed


section \<open>Decoding: what a successful run of \<open>forward_decode\<close> computed\<close>

lemma predict_length_Inr:
  assumes "predict_length self calls input_ids token_type_ids position_ids source_mask =
             Inr (calls', lens)"
  shows "\<exists>inp dist raw.
           calls' = calls @ [inp] \<and>
           bert_input_ids inp = input_ids \<and>
           bert_token_type_ids inp = token_type_ids \<and>
           bert_position_ids inp = position_ids \<and>
           forward_length self (bert self inp) source_mask = Inr dist \<and>
           emap argmax dist = Inr raw \<and>
           lens = clamp_length raw"
  using assms
  unfolding predict_length_def Let_def
  by (auto simp: ebind_eq_Inr)

lemma forward_decode_Inr:
  assumes "forward_decode self calls input_ids token_type_ids position_ids input_mask length_out =
             Inr (calls', toks, lens)"
  defines "sl \<equiv> int (width input_ids)"
  defines "source_mask \<equiv> map (map (\<lambda>t. if t \<noteq> pad_word_id self then 1 else (0::int))) input_ids"
  defines "tlen \<equiv> Max (set lens)"
  defines "sl' \<equiv> (if 512 < tlen + sl then 512 - tlen else sl)"
  defines "pseudo_mask \<equiv> map (\<lambda>l. map (\<lambda>p. p < l) (arange (nat tlen))) lens"
  defines "pseudo \<equiv> map2 (map2 (\<lambda>x m. if \<not> m then pad_word_id self else x))
                      (replicate (length lens) (replicate (nat tlen) (mask_word_id self))) pseudo_mask"
  defines "source_ids \<equiv> (if 512 < tlen + sl then map (py_slice_to sl') input_ids else input_ids)"
  shows "\<exists>calls1 inp2 raw_toks.
           (case length_out of
              None \<Rightarrow> predict_length self calls input_ids (map (py_slice_to sl) token_type_ids)
                        (map (py_slice_to sl) position_ids) source_mask
            | Some l \<Rightarrow> Inr (calls, map (\<lambda>x. wrap64 (x + 1)) l)) = Inr (calls1, lens) \<and>
           lens \<noteq> [] \<and> 0 \<le> tlen \<and>
           calls' = calls1 @ [inp2] \<and>
           cat1 (map (map (\<lambda>_. 1 * source_type_id)) source_ids)
                (map (map (\<lambda>_. 1 * target_type_id)) pseudo) = Inr (bert_token_type_ids inp2) \<and>
           cat1 source_ids pseudo = Inr (bert_input_ids inp2) \<and>
           emap (emap argmax) (cls self (map (py_slice_from sl') (bert self inp2))) = Inr raw_toks \<and>
           map length raw_toks = map length pseudo_mask \<and>
           toks = map2 (map2 (\<lambda>x m. if \<not> m then pad_word_id self else x)) raw_toks pseudo_mask"
  using assms(1)
  unfolding forward_decode_def Let_def sl_def source_mask_def tlen_def sl'_def pseudo_mask_def
    pseudo_def source_ids_def feed_bert_def
  by (auto simp: ebind_eq_Inr Max_ge_iff not_less split: if_splits prod.splits)

lemma argmax_Inr: "argmax xs = Inr k \<longleftrightarrow> xs \<noteq> [] \<and> k = int (argmax_list xs)"
  by (auto simp: argmax_def)

lemma argmax_list_less: "xs \<noteq> [] \<Longrightarrow> argmax_list xs < length xs"
proof (induction xs)
  case Nil
  then show ?case by simp
next
  case (Cons x xs)
  then show ?case by (cases "xs = []") auto
qed

lemma argmax_list_max:
  "j < length xs \<Longrightarrow> xs ! j \<le> xs ! argmax_list xs"
proof (induction xs arbitrary: j)
  case Nil
  then show ?case by simp
next
  case (Cons x xs)
  show ?case
  proof (cases "\<forall>y \<in> set xs. y \<le> x")
    case True
    then show ?thesis using Cons.prems by (cases j) auto
  next
    case False
    then obtain y where y: "y \<in> set xs" "x < y" by auto
    then obtain k where k: "k < length xs" "xs ! k = y" by (auto simp: in_set_conv_nth)
    with Cons.IH [of k] y have "x < xs ! argmax_list xs" by simp
    with False Cons.IH Cons.prems show ?thesis by (cases j) auto
  qed
qed

lemma argmax_list_unique:
  assumes "k < length xs" and "\<forall>j < length xs. j \<noteq> k \<longrightarrow> xs ! j < xs ! k"
  shows "argmax_list xs = k"
proof (rule ccontr)
  assume ne: "argmax_list xs \<noteq> k"
  from assms(1) have nz: "xs \<noteq> []" by auto
  have "argmax_list xs < length xs" using nz by (rule argmax_list_less)
  with assms(2) ne have "xs ! argmax_list xs < xs ! k" by simp
  moreover have "xs ! k \<le> xs ! argmax_list xs" using assms(1) by (rule argmax_list_max)
  ultimately show False by simp
qed

lemma argmax_list_shift: "argmax_list (map (\<lambda>x. x - c) xs) = argmax_list xs"
  by (induction xs) auto

lemma argmax_log_softmax: "argmax (log_softmax xs) = argmax xs"
  by (simp add: argmax_def log_softmax_def argmax_list_shift)

lemma argmax_replicate: "0 < n \<Longrightarrow> argmax (replicate n c) = Inr 0"
proof -
  have "argmax_list (replicate n c) = 0"
    by (cases n) simp_all
  then show "0 < n \<Longrightarrow> argmax (replicate n c) = Inr 0" by (simp add: argmax_def)
qed

lemma argmax_replicate_update:
  "k < n \<Longrightarrow> c < d \<Longrightarrow> argmax ((replicate n c)[k := d]) = Inr (int k)"
proof -
  assume k: "k < n" and c: "c < d"
  have "argmax_list ((replicate n c)[k := d]) = k"
    using k c by (intro argmax_list_unique) (auto simp: nth_list_update)
  with k show ?thesis by (auto simp: argmax_def)
qed

lemma clamp_length_nth:
  "b < length raw \<Longrightarrow> clamp_length raw ! b = max 7 (min 48 (raw ! b))"
  by (simp add: clamp_length_def)

lemma length_clamp_length [simp]: "length (clamp_length raw) = length raw"
  by (simp add: clamp_length_def)

subsection \<open>A concrete decoding run\<close>

lemma demo_fields:
  "pad_word_id demo_model = 0" "mask_word_id demo_model = 103"
  "bert demo_model = demo_bert" "cls demo_model = demo_cls"
  "encoder_embed_dim demo_model = 2" "embed_length demo_model = (replicate 512 [0, 0])[9 := [0, 1]]"
  by (simp_all add: demo_model_def)

lemma demo_linear:
  "linear [a, b] ((replicate 512 [0, 0])[9 := [0, 1]]) = Inr ((replicate 512 0)[9 := b])"
proof -
  have "\<forall>w \<in> set ((replicate 512 [0, 0::real])[9 := [0, 1]]). length w = length [a, b]"
    using set_update_subset_insert [of "replicate 512 [0, 0::real]" 9 "[0, 1]"] by auto
  then show ?thesis
    unfolding linear_def by (simp add: map_update)
qed

lemma replicate_update_same: "(replicate n c)[k := c] = replicate n c"
  by (cases "k < n") (auto simp: list_eq_iff_nth_eq nth_list_update)

lemma demo_predict_length:
  "predict_length demo_model calls [[11, 0], [12, 12]] [[0, 1], [0, 0]] [[0, 0], [0, 1]]
     [[1, 0], [1, 1]] =
   Inr (calls @ [\<lparr>bert_input_ids = [[11, 0], [12, 12]],
                   bert_attention_mask = [[[1, 0], [0, 0]], [[1, 1], [1, 1]]],
                   bert_token_type_ids = [[0, 1], [0, 0]],
                   bert_position_ids = [[0, 0], [0, 1]]\<rparr>], [7, 9])"
  by (simp add: predict_length_def demo_fields demo_bert_def Let_def forward_length_def
      pool_example_def demo_linear argmax_log_softmax argmax_replicate argmax_replicate_update
      clamp_length_def upt_0_2 replicate_update_same)

lemma demo_forward_decode:
  "forward_decode demo_model [] [[11, 0], [12, 12]] [[0, 1], [0, 0]] [[0, 0], [0, 1]]
     [[True, False], [True, True]] None =
   Inr ([\<lparr>bert_input_ids = [[11, 0], [12, 12]],
           bert_attention_mask = [[[1, 0], [0, 0]], [[1, 1], [1, 1]]],
           bert_token_type_ids = [[0, 1], [0, 0]],
           bert_position_ids = [[0, 0], [0, 1]]\<rparr>,
         \<lparr>bert_input_ids =
             [[11, 0, 103, 103, 103, 103, 103, 103, 103, 0, 0],
              [12, 12, 103, 103, 103, 103, 103, 103, 103, 103, 103]],
           bert_attention_mask =
             [[[1, 0, 0, 0, 0, 0, 0, 0, 0, 0, 0],
               [0, 0, 0, 0, 0, 0, 0, 0, 0, 0, 0],
               [1, 0, 1, 1, 1, 1, 1, 1, 1, 0, 0],
               [1, 0, 1, 1, 1, 1, 1, 1, 1, 0, 0],
               [1, 0, 1, 1, 1, 1, 1, 1, 1, 0, 0],
               [1, 0, 1, 1, 1, 1, 1, 1, 1, 0, 0],
               [1, 0, 1, 1, 1, 1, 1, 1, 1, 0, 0],
               [1, 0, 1, 1, 1, 1, 1, 1, 1, 0, 0],
               [1, 0, 1, 1, 1, 1, 1, 1, 1, 0, 0],
               [0, 0, 0, 0, 0, 0, 0, 0, 0, 0, 0],
               [0, 0, 0, 0, 0, 0, 0, 0, 0, 0, 0]],
              [[1, 1, 0, 0, 0, 0, 0, 0, 0, 0, 0],
               [1, 1, 0, 0, 0, 0, 0, 0, 0, 0, 0],
               [1, 1, 1, 1, 1, 1, 1, 1, 1, 1, 1],
               [1, 1, 1, 1, 1, 1, 1, 1, 1, 1, 1],
               [1, 1, 1, 1, 1, 1, 1, 1, 1, 1, 1],
               [1, 1, 1, 1, 1, 1, 1, 1, 1, 1, 1],
               [1, 1, 1, 1, 1, 1, 1, 1, 1, 1, 1],
               [1, 1, 1, 1, 1, 1, 1, 1, 1, 1, 1],
               [1, 1, 1, 1, 1, 1, 1, 1, 1, 1, 1],
               [1, 1, 1, 1, 1, 1, 1, 1, 1, 1, 1],
               [1, 1, 1, 1, 1, 1, 1, 1, 1, 1, 1]]],
           bert_token_type_ids =
             [[0, 0, 1, 1, 1, 1, 1, 1, 1, 1, 1],
              [0, 0, 1, 1, 1, 1, 1, 1, 1, 1, 1]],
           bert_position_ids =
             [[0, 0, 1, 2, 3, 4, 5, 6, 7, 1, 1],
              [0, 1, 2, 3, 4, 5, 6, 7, 8, 9, 10]]\<rparr>],
        [[1, 1, 1, 1, 1, 1, 1, 0, 0], [1, 1, 1, 1, 1, 1, 1, 1, 1]],
        [7, 9])"
  by (simp add: forward_decode_def demo_predict_length demo_fields demo_bert_def demo_cls_def
      Let_def width_def py_slice_to_def py_slice_from_def arange_def broadcast_pair_def cat1_def
      feed_bert_def create_attention_mask_def attention_row_def source_type_id_def
      target_type_id_def argmax_def eval_nat_numeral)

text \<open>The small model is one that \<open>NAT_init\<close> builds.\<close>

lemma demo_model_constructed:
  "NAT_init demo_bert demo_cls ((replicate 512 [0, 0])[9 := [0, 1]]) 3 2 False None (1 / 2) 0
     102 103 0 = Inr demo_model"
  by (simp add: NAT_init_def demo_model_def)


text \<open>The run with the second length table: raw lengths 3 and 60.\<close>

lemma demo2_fields:
  "pad_word_id demo_model2 = 0" "mask_word_id demo_model2 = 103"
  "bert demo_model2 = demo_bert" "cls demo_model2 = demo_cls"
  "encoder_embed_dim demo_model2 = 2"
  "embed_length demo_model2 = (replicate 512 [0, 0])[3 := [1, 0], 60 := [0, 1]]"
  by (simp_all add: demo_model2_def demo_model_def)

lemma demo2_linear:
  "linear [a, b] ((replicate 512 [0, 0])[3 := [1, 0], 60 := [0, 1]]) =
     Inr ((replicate 512 0)[3 := a, 60 := b])"
proof -
  have "set ((replicate 512 [0, 0::real])[3 := [1, 0], 60 := [0, 1]]) \<subseteq>
          {[0, 1], [1, 0], [0, 0]}"
    using set_update_subset_insert [of "(replicate 512 [0, 0::real])[3 := [1, 0]]" 60 "[0, 1]"]
      set_update_subset_insert [of "replicate 512 [0, 0::real]" 3 "[1, 0]"]
    by auto
  then have "\<forall>w \<in> set ((replicate 512 [0, 0::real])[3 := [1, 0], 60 := [0, 1]]). length w = length [a, b]"
    by auto
  then show ?thesis
    unfolding linear_def by (simp add: map_update)
qed

lemma argmax_demo2:
  "argmax ((replicate 512 0)[3 := 1, 60 := 0]) = Inr 3"
  "argmax ((replicate 512 0)[3 := 0, 60 := 1]) = Inr 60"
proof -
  have "argmax_list ((replicate 512 (0::real))[3 := 1, 60 := 0]) = 3"
    by (intro argmax_list_unique) (auto simp: nth_list_update)
  moreover have "argmax_list ((replicate 512 (0::real))[3 := 0, 60 := 1]) = 60"
    by (intro argmax_list_unique) (auto simp: nth_list_update)
  ultimately show "argmax ((replicate 512 0)[3 := 1, 60 := 0]) = Inr 3"
    "argmax ((replicate 512 0)[3 := 0, 60 := 1]) = Inr 60"
    by (auto simp: argmax_def)
qed

lemma demo2_predict_length:
  "predict_length demo_model2 calls [[11, 0], [12, 12]] [[0, 1], [0, 0]] [[0, 0], [0, 1]]
     [[1, 0], [1, 1]] =
   Inr (calls @ [\<lparr>bert_input_ids = [[11, 0], [12, 12]],
                   bert_attention_mask = [[[1, 0], [0, 0]], [[1, 1], [1, 1]]],
                   bert_token_type_ids = [[0, 1], [0, 0]],
                   bert_position_ids = [[0, 0], [0, 1]]\<rparr>], [7, 48])"
  by (simp add: predict_length_def demo2_fields demo_bert_def Let_def forward_length_def
      pool_example_def demo2_linear argmax_log_softmax argmax_demo2
      clamp_length_def upt_0_2)

lemma demo2_forward_length:
  "forward_length demo_model2
     (bert demo_model2 \<lparr>bert_input_ids = [[11, 0], [12, 12]],
                          bert_attention_mask = [[[1, 0], [0, 0]], [[1, 1], [1, 1]]],
                          bert_token_type_ids = [[0, 1], [0, 0]],
                          bert_position_ids = [[0, 0], [0, 1]]\<rparr>)
     [[1, 0], [1, 1]] =
   Inr [log_softmax ((replicate 512 0)[3 := 1, 60 := 0]),
        log_softmax ((replicate 512 0)[3 := 0, 60 := 1])]"
  by (simp add: demo2_fields demo_bert_def forward_length_def pool_example_def demo2_linear
      upt_0_2)

lemma demo2_forward_decode_calls:
  "\<exists>c2 toks.
     forward_decode demo_model2 [] [[11, 0], [12, 12]] [[0, 1], [0, 0]] [[0, 0], [0, 1]]
       [[True, False], [True, True]] None =
     Inr ([\<lparr>bert_input_ids = [[11, 0], [12, 12]],
             bert_attention_mask = [[[1, 0], [0, 0]], [[1, 1], [1, 1]]],
             bert_token_type_ids = [[0, 1], [0, 0]],
             bert_position_ids = [[0, 0], [0, 1]]\<rparr>, c2], toks, [7, 48])"
  by (simp add: forward_decode_def demo2_predict_length demo2_fields demo_bert_def demo_cls_def
      Let_def width_def py_slice_to_def py_slice_from_def arange_def broadcast_pair_def cat1_def
      feed_bert_def create_attention_mask_def attention_row_def source_type_id_def
      target_type_id_def argmax_def eval_nat_numeral)

section \<open>Claim C8: padding positions of the decoded output\<close>

text \<open>
  Claim C8. Whenever \<open>forward_decode\<close> returns (with a predicted or a supplied
  length), the predicted tokens have one row per example, as wide as the largest decoded
  length; at every position at or beyond an example's decoded length the token is the
  pad id, and at every position inside it the token is the argmax of the head's scores
  for that position in the final encoder pass, an index into the vocabulary dimension.
\<close>

theorem decode_padding_is_pad:
  assumes "forward_decode self calls input_ids token_type_ids position_ids input_mask length_out =
             Inr (calls', prediction_tokens, lens)"
  shows "length prediction_tokens = length lens \<and>
         (\<forall>b < length lens.
            length (prediction_tokens ! b) = nat (Max (set lens)) \<and>
            (\<forall>p < nat (Max (set lens)).
               if lens ! b \<le> int p
               then prediction_tokens ! b ! p = pad_word_id self
               else (let source_len =
                           (if 512 < Max (set lens) + int (width input_ids)
                            then 512 - Max (set lens) else int (width input_ids));
                         prediction_scores =
                           cls self (map (py_slice_from source_len) (bert self (last calls')))
                     in prediction_scores ! b ! p \<noteq> [] \<and>
                        prediction_tokens ! b ! p = int (argmax_list (prediction_scores ! b ! p)) \<and>
                        0 \<le> prediction_tokens ! b ! p \<and>
                        prediction_tokens ! b ! p < int (length (prediction_scores ! b ! p)))))"
proof -
  let ?tl = "Max (set lens)"
  let ?sl' = "if 512 < ?tl + int (width input_ids) then 512 - ?tl else int (width input_ids)"
  let ?pm = "map (\<lambda>l. map (\<lambda>p. p < l) (arange (nat ?tl))) lens"
  from forward_decode_Inr [OF assms]
  obtain calls1 inp2 raw where
    c: "calls' = calls1 @ [inp2]" and
    e: "emap (emap argmax) (cls self (map (py_slice_from ?sl') (bert self inp2))) = Inr raw" and
    l: "map length raw = map length ?pm" and
    t: "prediction_tokens = map2 (map2 (\<lambda>x m. if \<not> m then pad_word_id self else x)) raw ?pm"
    by blast
  let ?scores = "cls self (map (py_slice_from ?sl') (bert self (last calls')))"
  have last: "last calls' = inp2" using c by simp
  from l have lr: "length raw = length lens" by (metis length_map)
  have rowlen: "length (raw ! b) = nat ?tl" if "b < length lens" for b
  proof -
    have "map length raw ! b = map length ?pm ! b" using l by simp
    then show ?thesis using that lr by simp
  qed
  have len: "length prediction_tokens = length lens" using t lr by simp
  have row: "prediction_tokens ! b ! p =
               (if \<not> int p < lens ! b then pad_word_id self else raw ! b ! p)"
    and rl: "length (prediction_tokens ! b) = nat ?tl"
    if "b < length lens" "p < nat ?tl" for b p
    using that t lr rowlen [of b] by simp_all
  have sc: "?scores ! b ! p \<noteq> [] \<and> raw ! b ! p = int (argmax_list (?scores ! b ! p))"
    if "b < length lens" "p < nat ?tl" for b p
  proof -
    from e have e1: "length raw = length ?scores"
      and e2: "\<forall>i < length ?scores. emap argmax (?scores ! i) = Inr (raw ! i)"
      unfolding last by (simp_all add: emap_eq_Inr)
    from that lr e1 e2 have "emap argmax (?scores ! b) = Inr (raw ! b)" by simp
    then have "length (raw ! b) = length (?scores ! b)"
      and "\<forall>i < length (?scores ! b). argmax (?scores ! b ! i) = Inr (raw ! b ! i)"
      by (simp_all add: emap_eq_Inr)
    with that rowlen [of b] have "argmax (?scores ! b ! p) = Inr (raw ! b ! p)" by simp
    then show ?thesis by (simp add: argmax_Inr)
  qed
  show ?thesis
  proof (intro conjI allI impI)
    show "length prediction_tokens = length lens" by (rule len)
  next
    fix b assume "b < length lens"
    then show "length (prediction_tokens ! b) = nat ?tl" using t lr rowlen [of b] by simp
  next
    fix b p assume bp: "b < length lens" "p < nat ?tl"
    show "if lens ! b \<le> int p
               then prediction_tokens ! b ! p = pad_word_id self
               else (let source_len = ?sl';
                         prediction_scores =
                           cls self (map (py_slice_from source_len) (bert self (last calls')))
                     in prediction_scores ! b ! p \<noteq> [] \<and>
                        prediction_tokens ! b ! p = int (argmax_list (prediction_scores ! b ! p)) \<and>
                        0 \<le> prediction_tokens ! b ! p \<and>
                        prediction_tokens ! b ! p < int (length (prediction_scores ! b ! p)))"
      using row [OF bp] sc [OF bp] argmax_list_less [of "?scores ! b ! p"]
      by (simp add: Let_def)
  qed
qed

theorem decode_padding_is_pad_witness:
  "\<exists>calls' prediction_tokens.
     forward_decode demo_model [] [[11, 0], [12, 12]] [[0, 1], [0, 0]] [[0, 0], [0, 1]]
       [[True, False], [True, True]] None = Inr (calls', prediction_tokens, [7, 9]) \<and>
     prediction_tokens ! 0 ! 6 = 1 \<and> prediction_tokens ! 0 ! 7 = 0 \<and>
     prediction_tokens ! 0 ! 8 = 0 \<and> prediction_tokens ! 1 ! 8 = 1 \<and>
     pad_word_id demo_model = 0"
proof -
  obtain calls' toks where
    e: "forward_decode demo_model [] [[11, 0], [12, 12]] [[0, 1], [0, 0]] [[0, 0], [0, 1]]
       [[True, False], [True, True]] None = Inr (calls', toks, [7, 9])"
    and t: "toks = [[1, 1, 1, 1, 1, 1, 1, 0, 0], [1, 1, 1, 1, 1, 1, 1, 1, 1]]"
    using demo_forward_decode by blast
  from decode_padding_is_pad [OF e]
  have "\<forall>b < length [7, 9::int]. \<forall>p < nat (Max (set [7, 9::int])).
          [7, 9] ! b \<le> int p \<longrightarrow> toks ! b ! p = pad_word_id demo_model"
    by (simp add: Let_def)
  then have "toks ! 0 ! 7 = pad_word_id demo_model \<and> toks ! 0 ! 8 = pad_word_id demo_model"
    by simp
  moreover have "toks ! 0 ! 6 = 1 \<and> toks ! 1 ! 8 = 1" using t by simp
  ultimately show ?thesis using e by (auto simp: demo_fields)
qed

section \<open>Claim C6: the decoded length is the clamped argmax\<close>

text \<open>
  Claim C6. Whenever \<open>forward_decode\<close> returns without a supplied length, the length
  of every example is the argmax of its row of the length distribution (computed by
  \<open>forward_length\<close> from the first encoder pass), clamped to at least 7 and at most
  48; and the clamp sends the raw values 3 and 60 to 7 and 48.
\<close>

theorem decode_length_is_clamped_argmax:
  assumes "forward_decode self calls input_ids token_type_ids position_ids input_mask None =
             Inr (calls', prediction_tokens, length_out)"
  shows "(\<exists>dist.
            forward_length self (bert self (calls' ! length calls))
              (map (map (\<lambda>t. if t \<noteq> pad_word_id self then 1 else 0)) input_ids) = Inr dist \<and>
            length length_out = length dist \<and>
            (\<forall>b < length dist.
               dist ! b \<noteq> [] \<and>
               length_out ! b = max 7 (min 48 (int (argmax_list (dist ! b)))) \<and>
               7 \<le> length_out ! b \<and> length_out ! b \<le> 48)) \<and>
         clamp_length [3, 60] = [7, 48]"
proof -
  let ?sm = "map (map (\<lambda>t. if t \<noteq> pad_word_id self then 1 else (0::int))) input_ids"
  from forward_decode_Inr [OF assms]
  obtain calls1 inp2 where
    p: "predict_length self calls input_ids
          (map (py_slice_to (int (width input_ids))) token_type_ids)
          (map (py_slice_to (int (width input_ids))) position_ids) ?sm = Inr (calls1, length_out)"
    and c: "calls' = calls1 @ [inp2]"
    by auto
  from predict_length_Inr [OF p]
  obtain inp dist raw where
    c1: "calls1 = calls @ [inp]" and
    d: "forward_length self (bert self inp) ?sm = Inr dist" and
    r: "emap argmax dist = Inr raw" and
    l: "length_out = clamp_length raw"
    by blast
  have inp: "calls' ! length calls = inp" using c c1 by simp
  from r have lr: "length raw = length dist"
    and ar: "\<forall>b < length dist. argmax (dist ! b) = Inr (raw ! b)"
    by (simp_all add: emap_eq_Inr)
  have "dist ! b \<noteq> [] \<and>
        length_out ! b = max 7 (min 48 (int (argmax_list (dist ! b)))) \<and>
        7 \<le> length_out ! b \<and> length_out ! b \<le> 48" if "b < length dist" for b
  proof -
    from ar that have "dist ! b \<noteq> []" "raw ! b = int (argmax_list (dist ! b))"
      by (simp_all add: argmax_Inr)
    then show ?thesis using that lr l by (simp add: clamp_length_nth)
  qed
  moreover have "length length_out = length dist" using l lr by simp
  moreover have "clamp_length [3, 60] = [7, 48]" by (simp add: clamp_length_def)
  ultimately show ?thesis using d inp by auto
qed

theorem decode_length_is_clamped_argmax_witness:
  "\<exists>calls' prediction_tokens dist.
     forward_decode demo_model2 [] [[11, 0], [12, 12]] [[0, 1], [0, 0]] [[0, 0], [0, 1]]
       [[True, False], [True, True]] None = Inr (calls', prediction_tokens, [7, 48]) \<and>
     forward_length demo_model2 (bert demo_model2 (calls' ! 0)) [[1, 0], [1, 1]] = Inr dist \<and>
     length dist = 2 \<and>
     argmax_list (dist ! 0) = 3 \<and> argmax_list (dist ! 1) = 60 \<and>
     (7::int) = max 7 (min 48 (int (argmax_list (dist ! 0)))) \<and>
     (48::int) = max 7 (min 48 (int (argmax_list (dist ! 1))))"
proof -
  let ?inp = "\<lparr>bert_input_ids = [[11, 0], [12, 12]],
                bert_attention_mask = [[[1, 0], [0, 0]], [[1, 1], [1, 1]]],
                bert_token_type_ids = [[0, 1], [0, 0]],
                bert_position_ids = [[0, 0], [0, 1]]\<rparr>"
  obtain c2 toks where
    e: "forward_decode demo_model2 [] [[11, 0], [12, 12]] [[0, 1], [0, 0]] [[0, 0], [0, 1]]
       [[True, False], [True, True]] None = Inr ([?inp, c2], toks, [7, 48])"
    using demo2_forward_decode_calls by blast
  from decode_length_is_clamped_argmax [OF e]
  obtain dist where
    d: "forward_length demo_model2 (bert demo_model2 ([?inp, c2] ! 0)) [[1, 0], [1, 1]] = Inr dist"
    and l: "length [7, 48::int] = length dist"
    and a: "\<forall>b < length dist.
               dist ! b \<noteq> [] \<and>
               [7, 48] ! b = max 7 (min 48 (int (argmax_list (dist ! b)))) \<and>
               7 \<le> [7, 48::int] ! b \<and> [7, 48::int] ! b \<le> 48"
    by (auto simp: demo2_fields)
  from l have ld: "length dist = 2" by simp
  from d have dist: "dist = [log_softmax ((replicate 512 0)[3 := 1, 60 := 0]),
                             log_softmax ((replicate 512 0)[3 := 0, 60 := 1])]"
    by (simp add: demo2_forward_length)
  have r0: "argmax_list (dist ! 0) = 3"
    using argmax_demo2(1) by (simp add: dist log_softmax_def argmax_list_shift argmax_def)
  have r1: "argmax_list (dist ! 1) = 60"
    using argmax_demo2(2) by (simp add: dist log_softmax_def argmax_list_shift argmax_def)
  from a [rule_format, of 0] ld
  have "(7::int) = max 7 (min 48 (int (argmax_list (dist ! 0))))" by simp
  moreover from a [rule_format, of 1] ld
  have "(48::int) = max 7 (min 48 (int (argmax_list (dist ! 1))))" by simp
  ultimately show ?thesis using e d ld r0 r1 by (intro exI [of _ "[?inp, c2]"] exI [of _ toks] exI [of _ dist]) simp
qed


subsection \<open>A concrete training run\<close>

lemma demo_forward_length:
  "forward_length demo_model [[[1, 0], [0, 1]]] [[1, 1]] = Inr [log_softmax ((replicate 512 0)[9 := 1 / 2])]"
  by (simp add: forward_length_def demo_fields pool_example_def demo_linear upt_0_2)

lemma demo_fields2:
  "use_glat demo_model = False" "crit_mask_lm_smoothed demo_model = None"
  "glat_f demo_model = 1 / 2" "glat_random_prob demo_model = None"
  by (simp_all add: demo_model_def)

lemma length_log_softmax [simp]: "length (log_softmax xs) = length xs"
  by (simp add: log_softmax_def)

lemma demo_forward_train:
  "\<exists>tok len.
     forward demo_model r calls [[11, 12]] [[1, 2]] [[103, 103]] [2] [2] False =
       Inr (calls @ [\<lparr>bert_input_ids = [[11, 12, 103, 103]],
                       bert_attention_mask =
                         [[[1, 1, 0, 0], [1, 1, 0, 0], [1, 1, 1, 1], [1, 1, 1, 1]]],
                       bert_token_type_ids = [[0, 0, 1, 1]],
                       bert_position_ids = [[0, 1, 2, 3]]\<rparr>], Losses tok len)"
  by (simp add: forward_def forward_train_def demo_fields demo_bert_def demo_cls_def Let_def
      width_def cat1_def create_mask_and_position_ids_None create_mask_and_position_ids_Some
      wrap64_def
      feed_bert_def create_attention_mask_def attention_row_def source_type_id_def
      target_type_id_def demo_forward_length arange_def upt_0_2 
      cross_entropy_mean_def cross_entropy_row_def cross_entropy_none_def loss_mask_and_normalize_def
      finite_value_def
      demo_fields2)

section \<open>Claim C9: no randomness without GLAT\<close>

text \<open>
  Claim C9. With GLAT disabled, the result of the training forward pass (the token loss
  and the length loss, or the error) depends neither on the random source nor on the
  encoder calls made before: two calls with the same inputs and the same model return
  the same losses. The encoder and the head are functions of their inputs here, which is
  the claim's deterministic encoder.
\<close>

theorem forward_without_glat_is_deterministic:
  assumes "\<not> use_glat self"
  shows "map_sum id snd (forward self r calls source_ids target_ids pseudo_ids
                           num_source_tokens num_target_tokens False) =
         map_sum id snd (forward self r' calls' source_ids target_ids pseudo_ids
                           num_source_tokens num_target_tokens False)"
  using assms
  unfolding forward_def forward_train_def feed_bert_def Let_def
  by (auto simp: ebind_def split: sum.splits option.splits prod.splits)


theorem forward_without_glat_is_deterministic_witness:
  "\<exists>calls' tok len.
     forward demo_model demo_rng [] [[11, 12]] [[1, 2]] [[103, 103]] [2] [2] False =
       Inr (calls', Losses tok len) \<and>
     map_sum id snd (forward demo_model demo_rng [] [[11, 12]] [[1, 2]] [[103, 103]] [2] [2] False) =
     map_sum id snd (forward demo_model demo_rng' calls' [[11, 12]] [[1, 2]] [[103, 103]] [2] [2] False)"
proof -
  have g: "\<not> use_glat demo_model" by (simp add: demo_model_def)
  obtain calls' tok len where
    "forward demo_model demo_rng [] [[11, 12]] [[1, 2]] [[103, 103]] [2] [2] False =
       Inr (calls', Losses tok len)"
    using demo_forward_train [of demo_rng "[]"] by blast
  then show ?thesis
    using forward_without_glat_is_deterministic [OF g, of demo_rng "[]" _ _ _ _ _ demo_rng' calls']
    by blast
qed

section \<open>Claim C10: the segment-type ids fed to the encoder in decode mode\<close>

lemma cat1_Inr: "cat1 a b = Inr c \<longleftrightarrow> length a = length b \<and> c = map2 (@) a b"
  by (auto simp: cat1_def)

lemma forward_decode_mode_Inr:
  assumes "forward_decode_mode self calls source_ids target_ids = Inr (calls', res)"
  shows "\<exists>toks lens la ta.
           res = Decoded toks lens la ta \<and>
           forward_decode self calls source_ids
             (map (map (\<lambda>m. if \<not> m then 1 else 0)) (map (map (\<lambda>t. t \<noteq> pad_word_id self)) source_ids))
             (map (\<lambda>mrow. map2 (\<lambda>p m. if \<not> m then 0 else p) (arange (width source_ids)) mrow)
                (map (map (\<lambda>t. t \<noteq> pad_word_id self)) source_ids))
             (map (map (\<lambda>t. t \<noteq> pad_word_id self)) source_ids) None = Inr (calls', toks, lens)"
  using assms
  unfolding forward_decode_mode_def Let_def
  by (auto simp: ebind_eq_Inr split: if_splits)

lemma clamp_length_bounds:
  "l \<in> set (clamp_length raw) \<Longrightarrow> 7 \<le> l \<and> l \<le> 48"
  by (auto simp: clamp_length_def)

lemma demo_forward_decode_mode:
  "\<exists>c1 c2 toks la ta.
     forward demo_model r [] [[11, 0], [12, 12]] [[5, 6, 0], [7, 8, 9]] p ns nt True =
       Inr ([c1, c2], Decoded toks [7, 9] la ta) \<and>
     bert_input_ids c1 = [[11, 0], [12, 12]] \<and>
     bert_token_type_ids c1 = [[0, 1], [0, 0]] \<and>
     bert_input_ids c2 = [[11, 0, 103, 103, 103, 103, 103, 103, 103, 0, 0],
                          [12, 12, 103, 103, 103, 103, 103, 103, 103, 103, 103]] \<and>
     bert_token_type_ids c2 = [[0, 0, 1, 1, 1, 1, 1, 1, 1, 1, 1],
                               [0, 0, 1, 1, 1, 1, 1, 1, 1, 1, 1]]"
  by (simp add: forward_def forward_decode_mode_def demo_fields Let_def width_def arange_def
      upt_0_2 demo_forward_decode broadcast_pair_def true_divide_def)

text \<open>
  Claim C10 says that in decode mode the segment-type ids fed to the encoder are 0 at
  valid source positions and 1 at source padding positions. Decode mode calls the
  encoder twice. The ids computed by \<open>forward\<close> (lines 163 and 164) go to the first
  call only; for the second call \<open>forward_decode\<close> rebuilds them (lines 326 to 328)
  with the source type on the whole source block. In the run below the second position
  of the first source row is padding, and the second call labels it 0.
\<close>

theorem source_padding_segment_counterexample:
  "(case forward demo_model demo_rng [] [[11, 0], [12, 12]] [[5, 6, 0], [7, 8, 9]] [] [] [] True of
      Inl e \<Rightarrow> False
    | Inr (calls', res) \<Rightarrow>
        bert_input_ids (calls' ! 1) ! 0 ! 1 = pad_word_id demo_model \<and>
        bert_token_type_ids (calls' ! 1) ! 0 ! 1 = 0 \<and>
        bert_token_type_ids (calls' ! 1) ! 0 ! 1 \<noteq> target_type_id)"
proof -
  obtain c1 c2 toks la ta where
    "forward demo_model demo_rng [] [[11, 0], [12, 12]] [[5, 6, 0], [7, 8, 9]] [] [] [] True =
       Inr ([c1, c2], Decoded toks [7, 9] la ta)"
    "bert_input_ids c2 = [[11, 0, 103, 103, 103, 103, 103, 103, 103, 0, 0],
                          [12, 12, 103, 103, 103, 103, 103, 103, 103, 103, 103]]"
    "bert_token_type_ids c2 = [[0, 0, 1, 1, 1, 1, 1, 1, 1, 1, 1],
                               [0, 0, 1, 1, 1, 1, 1, 1, 1, 1, 1]]"
    using demo_forward_decode_mode [of demo_rng "[]" "[]" "[]"] by blast
  then show ?thesis by (simp add: demo_fields target_type_id_def)
qed

text \<open>
  Claim C10, amended. In decode mode, for a rectangular batch of source ids, the encoder
  is called exactly twice. The first call (the length prediction) receives the source
  ids with segment type 0 at every non-padding position and 1 at every padding position
  (a position whose token is the pad id). The second call (the token prediction)
  receives the source block, cut to \<open>512 - target length\<close> positions when it would
  not fit, with segment type 0 at every position of it, padding or not, followed by the
  target block with segment type 1.
\<close>

theorem decode_segment_ids:
  assumes run: "forward self r calls source_ids target_ids pseudo_ids num_source_tokens
                  num_target_tokens True = Inr (calls', Decoded toks lens la ta)"
    and rect: "\<forall>row \<in> set source_ids. length row = width source_ids"
  defines "w \<equiv> (if 512 < Max (set lens) + int (width source_ids)
                 then nat (512 - Max (set lens)) else width source_ids)"
  shows "\<exists>c1 c2.
           calls' = calls @ [c1, c2] \<and>
           bert_input_ids c1 = source_ids \<and>
           bert_token_type_ids c1 =
             map (map (\<lambda>t. if t = pad_word_id self then 1 else 0)) source_ids \<and>
           (\<forall>b < length source_ids.
              take w (bert_input_ids c2 ! b) = take w (source_ids ! b) \<and>
              take w (bert_token_type_ids c2 ! b) = replicate w 0 \<and>
              drop w (bert_token_type_ids c2 ! b) = replicate (nat (Max (set lens))) 1)"
proof -
  let ?sm = "map (map (\<lambda>t. t \<noteq> pad_word_id self)) source_ids"
  let ?tt = "map (map (\<lambda>m. if \<not> m then 1 else (0::int))) ?sm"
  let ?pos = "map (\<lambda>mrow. map2 (\<lambda>p m. if \<not> m then 0 else p) (arange (width source_ids)) mrow) ?sm"
  let ?sl = "int (width source_ids)"
  let ?tlen = "Max (set lens)"
  let ?sl' = "if 512 < ?tlen + ?sl then 512 - ?tlen else ?sl"
  let ?src = "if 512 < ?tlen + ?sl then map (py_slice_to ?sl') source_ids else source_ids"
  let ?pm = "map (\<lambda>l. map (\<lambda>p. p < l) (arange (nat ?tlen))) lens"
  let ?pseudo = "map2 (map2 (\<lambda>x m. if \<not> m then pad_word_id self else x))
                   (replicate (length lens) (replicate (nat ?tlen) (mask_word_id self))) ?pm"
  from run have "forward_decode_mode self calls source_ids target_ids =
                   Inr (calls', Decoded toks lens la ta)"
    by (simp add: forward_def)
  from forward_decode_mode_Inr [OF this]
  have fd: "forward_decode self calls source_ids ?tt ?pos ?sm None = Inr (calls', toks, lens)"
    by simp
  from forward_decode_Inr [OF fd]
  obtain calls1 inp2 where
    p: "predict_length self calls source_ids (map (py_slice_to ?sl) ?tt)
          (map (py_slice_to ?sl) ?pos)
          (map (map (\<lambda>t. if t \<noteq> pad_word_id self then 1 else 0)) source_ids) = Inr (calls1, lens)"
    and ne: "lens \<noteq> []"
    and c: "calls' = calls1 @ [inp2]"
    and ty: "cat1 (map (map (\<lambda>_. 1 * source_type_id)) ?src)
                  (map (map (\<lambda>_. 1 * target_type_id)) ?pseudo) = Inr (bert_token_type_ids inp2)"
    and ids: "cat1 ?src ?pseudo = Inr (bert_input_ids inp2)"
    by auto
  from predict_length_Inr [OF p]
  obtain inp1 raw where
    c1: "calls1 = calls @ [inp1]" and
    i1: "bert_input_ids inp1 = source_ids" and
    t1: "bert_token_type_ids inp1 = map (py_slice_to ?sl) ?tt" and
    l: "lens = clamp_length raw"
    by blast
  have "map (py_slice_to ?sl) ?tt = ?tt"
    using rect by (auto simp: py_slice_to_def list_eq_iff_nth_eq)
  also have "?tt = map (map (\<lambda>t. if t = pad_word_id self then 1 else 0)) source_ids"
    by simp
  finally have t1': "bert_token_type_ids inp1 =
      map (map (\<lambda>t. if t = pad_word_id self then 1 else 0)) source_ids"
    using t1 by simp
  have "?tlen \<in> set lens" using ne by simp
  then have tb: "7 \<le> ?tlen" "?tlen \<le> 48" using clamp_length_bounds l by blast+
  from ids have len: "length ?src = length ?pseudo"
    and ids': "bert_input_ids inp2 = map2 (@) ?src ?pseudo"
    by (simp_all add: cat1_Inr)
  from ty have ty': "bert_token_type_ids inp2 =
      map2 (@) (map (map (\<lambda>_. 1 * source_type_id)) ?src)
               (map (map (\<lambda>_. 1 * target_type_id)) ?pseudo)"
    by (simp add: cat1_Inr)
  have lsrc: "length ?src = length source_ids" by simp
  have lps: "length ?pseudo = length lens" by simp
  have B: "length lens = length source_ids" using len lsrc lps by simp
  have "take w (bert_input_ids inp2 ! b) = take w (source_ids ! b) \<and>
        take w (bert_token_type_ids inp2 ! b) = replicate w 0 \<and>
        drop w (bert_token_type_ids inp2 ! b) = replicate (nat ?tlen) 1"
    if b: "b < length source_ids" for b
  proof -
    have rb: "length (source_ids ! b) = width source_ids" using rect b by simp
    have srcb: "?src ! b = take w (source_ids ! b)"
      using b rb tb by (auto simp: w_def py_slice_to_def)
    have wl: "w \<le> width source_ids" using tb by (auto simp: w_def)
    then have lw: "length (?src ! b) = w" using srcb rb by simp
    have psb: "length (?pseudo ! b) = nat ?tlen" using b B by simp
    have "bert_input_ids inp2 ! b = ?src ! b @ ?pseudo ! b"
      unfolding ids' using b B lsrc lps by (subst nth_map) (simp_all del: replicate.simps)
    moreover have "bert_token_type_ids inp2 ! b =
        replicate (length (?src ! b)) 0 @ replicate (length (?pseudo ! b)) 1"
      unfolding ty' using b B lsrc lps
      by (subst nth_map)
        (simp_all add: source_type_id_def target_type_id_def map_replicate_const
           del: replicate.simps)
    ultimately show ?thesis
      using lw psb srcb by (simp del: replicate.simps)
  qed
  then show ?thesis using c c1 i1 t1' by auto
qed

theorem decode_segment_ids_witness:
  "\<exists>c1 c2 toks lens la ta.
     forward demo_model demo_rng [] [[11, 0], [12, 12]] [[5, 6, 0], [7, 8, 9]] [] [] [] True =
       Inr ([c1, c2], Decoded toks lens la ta) \<and>
     bert_input_ids c1 = [[11, 0], [12, 12]] \<and>
     bert_token_type_ids c1 = [[0, 1], [0, 0]] \<and>
     take 2 (bert_input_ids c2 ! 0) = [11, 0] \<and>
     take 2 (bert_token_type_ids c2 ! 0) = [0, 0] \<and>
     drop 2 (bert_token_type_ids c2 ! 0) = replicate 9 1"
proof -
  obtain c1 c2 toks la ta where
    run: "forward demo_model demo_rng [] [[11, 0], [12, 12]] [[5, 6, 0], [7, 8, 9]] [] [] [] True =
       Inr ([c1, c2], Decoded toks [7, 9] la ta)"
    using demo_forward_decode_mode [of demo_rng "[]" "[]" "[]"] by blast
  have rect: "\<forall>row \<in> set [[11, 0], [12, 12::int]]. length row = width [[11, 0], [12, 12::int]]"
    by (simp add: width_def)
  from decode_segment_ids [OF run rect]
  obtain d1 d2 where
    c: "[c1, c2] = [] @ [d1, d2]" and
    a: "bert_input_ids d1 = [[11, 0], [12, 12]]"
       "bert_token_type_ids d1 =
          map (map (\<lambda>t. if t = pad_word_id demo_model then 1 else 0)) [[11, 0], [12, 12]]" and
    b: "\<forall>b < length [[11, 0], [12, 12::int]].
              take (if 512 < Max (set [7, 9]) + int (width [[11, 0], [12, 12::int]])
                    then nat (512 - Max (set [7, 9])) else width [[11, 0], [12, 12::int]])
                (bert_input_ids d2 ! b) =
              take (if 512 < Max (set [7, 9]) + int (width [[11, 0], [12, 12::int]])
                    then nat (512 - Max (set [7, 9])) else width [[11, 0], [12, 12::int]])
                ([[11, 0], [12, 12]] ! b) \<and>
              take (if 512 < Max (set [7, 9]) + int (width [[11, 0], [12, 12::int]])
                    then nat (512 - Max (set [7, 9])) else width [[11, 0], [12, 12::int]])
                (bert_token_type_ids d2 ! b) =
              replicate (if 512 < Max (set [7, 9]) + int (width [[11, 0], [12, 12::int]])
                    then nat (512 - Max (set [7, 9])) else width [[11, 0], [12, 12::int]]) 0 \<and>
              drop (if 512 < Max (set [7, 9]) + int (width [[11, 0], [12, 12::int]])
                    then nat (512 - Max (set [7, 9])) else width [[11, 0], [12, 12::int]])
                (bert_token_type_ids d2 ! b) = replicate (nat (Max (set [7, 9]))) 1"
    by blast
  from c have d: "d1 = c1" "d2 = c2" by simp_all
  from b [rule_format, of 0]
  have "take 2 (bert_input_ids c2 ! 0) = [11, 0] \<and>
        take 2 (bert_token_type_ids c2 ! 0) = [0, 0] \<and>
        drop 2 (bert_token_type_ids c2 ! 0) = replicate 9 1"
    unfolding d by (simp add: width_def numeral_2_eq_2)
  moreover from a have "bert_input_ids c1 = [[11, 0], [12, 12]]"
    "bert_token_type_ids c1 = [[0, 1], [0, 0]]"
    unfolding d by (simp_all add: demo_fields)
  ultimately show ?thesis using run by blast
qed


section \<open>Claim C3: the reveal count of glancing sampling\<close>

lemma forward_glat_Inr:
  assumes "forward_glat self r calls source_ids target_ids pseudo_ids num_source_tokens
             num_target_tokens = Inr (calls', pseudo_ids', N)"
  shows "\<exists>inp target_mask target_position_ids prediction_tokens.
           width target_ids = width pseudo_ids \<and> 0 < width source_ids \<and> 0 < width target_ids \<and>
           create_mask_and_position_ids num_target_tokens (width target_ids)
             (Some num_source_tokens) = Inr (target_mask, target_position_ids) \<and>
           calls' = calls @ [inp] \<and>
           emap (emap argmax) (cls self (map (drop (width source_ids)) (bert self inp))) =
             Inr prediction_tokens \<and>
           glat_counts (glat_f self) prediction_tokens target_ids target_mask = Inr N \<and>
           length pseudo_ids \<le> length target_mask \<and>
           emap (\<lambda>(i, indice).
                   glat_reveal_row self r i indice (target_mask ! i) (N ! i)
                     (target_ids ! i) (pseudo_ids ! i))
             (zip [0..<length pseudo_ids]
                (map (\<lambda>i. argsort_desc (map (rand_sort r i) [0..<length (pseudo_ids ! i)]))
                   [0..<length pseudo_ids])) = Inr pseudo_ids'"
  using assms
  unfolding forward_glat_def Let_def feed_bert_def
  by (auto simp: ebind_eq_Inr not_less split: if_splits prod.splits)


lemma argsort_desc_perm:
  "distinct (argsort_desc xs)" "set (argsort_desc xs) = {..<length xs}"
  by (auto simp: argsort_desc_def)

lemma filter_less_upt: "filter (\<lambda>p. p < k) [0..<T] = [0..<min T k]"
proof (induction T)
  case 0
  then show ?case by simp
next
  case (Suc T)
  show ?case
  proof (cases "T < k")
    case True
    with Suc show ?thesis by (simp add: min_def)
  next
    case False
    then have "min (Suc T) k = min T k" by (simp add: min_def)
    with Suc False show ?thesis by simp
  qed
qed

lemma valid_positions_prefix:
  "filter (\<lambda>p. int p < c) [0..<T] = [0..<min T (nat c)]"
proof -
  have "(\<lambda>p. int p < c) = (\<lambda>p. p < nat c)" by (auto simp: fun_eq_iff)
  then show ?thesis by (simp add: filter_less_upt)
qed

lemma sum_list_indicator:
  "sum_list (map (\<lambda>x. if P x then 1 else 0) xs) = int (length (filter P xs))"
  by (induction xs) simp_all

lemma mask_row_sum:
  "sum_list (map (\<lambda>p. if p < c then 1 else 0) (arange T)) = int (min T (nat c))"
proof -
  have "sum_list (map (\<lambda>p. if p < c then 1 else 0) (arange T)) =
        sum_list (map (\<lambda>p. if int p < c then 1 else 0) [0..<T])"
    by (simp add: arange_def comp_def)
  also have "\<dots> = int (length (filter (\<lambda>p. int p < c) [0..<T]))"
    by (rule sum_list_indicator)
  finally show ?thesis by (simp add: valid_positions_prefix)
qed

lemma mask_row_ones:
  "length (filter (\<lambda>m. m = 1) (map (\<lambda>p. if p < c then 1 else (0::int)) (arange T))) =
     min T (nat c)"
proof -
  have "filter (\<lambda>m. m = 1) (map (\<lambda>p. if p < c then 1 else (0::int)) (arange T)) =
        map (\<lambda>p. 1) (filter (\<lambda>p. int p < c) [0..<T])"
    by (simp add: arange_def filter_map comp_def)
  then show ?thesis by (simp add: valid_positions_prefix)
qed

lemma glat_mismatches_le:
  "glat_mismatches prediction target tmask \<le> length (filter (\<lambda>m. m = 1) tmask)"
  unfolding glat_mismatches_def
proof (induction tmask arbitrary: prediction target)
  case Nil
  then show ?case by simp
next
  case (Cons m ms)
  show ?case
  proof (cases prediction)
    case Nil
    then show ?thesis by simp
  next
    case pc: (Cons p ps)
    show ?thesis
    proof (cases target)
      case Nil
      then show ?thesis by simp
    next
      case (Cons t ts)
      with pc Cons.IH [of ps ts] show ?thesis by auto
    qed
  qed
qed

subsection \<open>Rounding to single precision\<close>

lemma binade_bounds:
  "e \<le> binade n e x \<and> binade n e x \<le> e + int n \<and>
   (e < binade n e x \<longrightarrow> 2 powi (binade n e x) \<le> x) \<and>
   (binade n e x < e + int n \<longrightarrow> x < 2 powi (binade n e x + 1))"
proof (induction n arbitrary: e)
  case 0
  then show ?case by simp
next
  case (Suc n)
  show ?case
  proof (cases "2 powi (e + 1) \<le> x")
    case True
    define b where "b = binade n (e + 1) x"
    note IH = Suc [of "e + 1", folded b_def]
    have "2 powi b \<le> x"
    proof (cases "e + 1 < b")
      case True
      with IH show ?thesis by simp
    next
      case False
      with IH have "b = e + 1" by simp
      with \<open>2 powi (e + 1) \<le> x\<close> show ?thesis by simp
    qed
    moreover have "binade (Suc n) e x = b" using True by (simp add: b_def)
    ultimately show ?thesis using IH by simp
  next
    case False
    then show ?thesis by (simp add: not_le)
  qed
qed

lemma float32_exponent_range: "- 126 \<le> float32_exponent x" "float32_exponent x \<le> 127"
  using binade_bounds [of "- 126" 253 "\<bar>x\<bar>"] by (simp_all add: float32_exponent_def)

lemma float32_exponent_lower:
  "- 126 < float32_exponent x \<Longrightarrow> 2 powi (float32_exponent x) \<le> \<bar>x\<bar>"
  using binade_bounds [of "- 126" 253 "\<bar>x\<bar>"] by (simp add: float32_exponent_def)

lemma float32_exponent_upper:
  "float32_exponent x < 127 \<Longrightarrow> \<bar>x\<bar> < 2 powi (float32_exponent x + 1)"
  using binade_bounds [of "- 126" 253 "\<bar>x\<bar>"] by (simp add: float32_exponent_def)

lemma float32_exponent_mono:
  assumes "\<bar>x\<bar> \<le> \<bar>y\<bar>"
  shows "float32_exponent x \<le> float32_exponent y"
proof (rule ccontr)
  assume "\<not> float32_exponent x \<le> float32_exponent y"
  then have lt: "float32_exponent y < float32_exponent x" by simp
  then have "- 126 < float32_exponent x" using float32_exponent_range(1) [of y] by simp
  then have a: "2 powi (float32_exponent x) \<le> \<bar>x\<bar>" by (rule float32_exponent_lower)
  have "float32_exponent y < 127" using lt float32_exponent_range(2) [of x] by simp
  then have b: "\<bar>y\<bar> < 2 powi (float32_exponent y + 1)" by (rule float32_exponent_upper)
  have "(2::real) powi (float32_exponent y + 1) \<le> 2 powi (float32_exponent x)"
    using lt by (intro power_int_increasing) simp_all
  with a b assms show False by simp
qed

lemma float32_exponent_eq:
  assumes "- 126 \<le> e" "e \<le> 127" "2 powi e \<le> \<bar>x\<bar>" "\<bar>x\<bar> < 2 powi (e + 1)"
  shows "float32_exponent x = e"
proof (rule antisym)
  show "float32_exponent x \<le> e"
  proof (rule ccontr)
    assume "\<not> float32_exponent x \<le> e"
    then have lt: "e < float32_exponent x" by simp
    then have "2 powi (float32_exponent x) \<le> \<bar>x\<bar>"
      using assms(1) by (intro float32_exponent_lower) simp
    moreover have "(2::real) powi (e + 1) \<le> 2 powi (float32_exponent x)"
      using lt by (intro power_int_increasing) simp_all
    ultimately show False using assms(4) by simp
  qed
  show "e \<le> float32_exponent x"
  proof (rule ccontr)
    assume "\<not> e \<le> float32_exponent x"
    then have lt: "float32_exponent x < e" by simp
    then have "\<bar>x\<bar> < 2 powi (float32_exponent x + 1)"
      using assms(2) by (intro float32_exponent_upper) simp
    moreover have "(2::real) powi (float32_exponent x + 1) \<le> 2 powi e"
      using lt by (intro power_int_increasing) simp_all
    ultimately show False using assms(3) by simp
  qed
qed

lemma round_half_even_of_int [simp]: "round_half_even (of_int k) = k"
  by (simp add: round_half_even_def)

lemma round_half_even_bounds:
  "\<lfloor>x\<rfloor> \<le> round_half_even x" "round_half_even x \<le> \<lfloor>x\<rfloor> + 1"
  by (simp_all add: round_half_even_def Let_def)

lemma round_half_even_mono:
  assumes "x \<le> y"
  shows "round_half_even x \<le> round_half_even y"
proof (cases "\<lfloor>x\<rfloor> = \<lfloor>y\<rfloor>")
  case True
  then show ?thesis using assms by (auto simp: round_half_even_def Let_def)
next
  case False
  then have "\<lfloor>x\<rfloor> < \<lfloor>y\<rfloor>" using floor_mono [OF assms] by simp
  then have "round_half_even x \<le> \<lfloor>y\<rfloor>" using round_half_even_bounds(2) [of x] by simp
  then show ?thesis using round_half_even_bounds(1) [of y] by simp
qed

lemma round_half_even_le: "x \<le> of_int k \<Longrightarrow> round_half_even x \<le> k"
  using round_half_even_mono [of x "of_int k"] by simp

lemma round_half_even_ge: "of_int k \<le> x \<Longrightarrow> k \<le> round_half_even x"
  using round_half_even_mono [of "of_int k" x] by simp

lemma float32_unit_pos: "0 < (2::real) powi k"
  by (simp add: zero_less_power_int)

lemma float32_mono:
  assumes "0 \<le> x" "x \<le> y"
  shows "float32 x \<le> float32 y"
proof -
  define ex where "ex = float32_exponent x"
  define ey where "ey = float32_exponent y"
  define ux :: real where "ux = 2 powi (ex - 23)"
  define uy :: real where "uy = 2 powi (ey - 23)"
  have fx: "float32 x = of_int (round_half_even (x / ux)) * ux"
    by (simp add: float32_def Let_def ex_def ux_def)
  have fy: "float32 y = of_int (round_half_even (y / uy)) * uy"
    by (simp add: float32_def Let_def ey_def uy_def)
  have ux: "0 < ux" and uy: "0 < uy" by (simp_all add: ux_def uy_def float32_unit_pos)
  have le: "ex \<le> ey" unfolding ex_def ey_def using assms by (intro float32_exponent_mono) simp
  show ?thesis
  proof (cases "ex = ey")
    case True
    then have "ux = uy" by (simp add: ux_def uy_def)
    moreover have "x / uy \<le> y / uy" using assms uy by (simp add: divide_right_mono)
    ultimately show ?thesis
      unfolding fx fy using round_half_even_mono [of "x / uy" "y / uy"] uy by simp
  next
    case False
    with le have lt: "ex < ey" by simp
    have "- 126 < ey" using lt float32_exponent_range(1) [of x] by (simp add: ex_def)
    then have ylow: "2 powi ey \<le> y"
      using float32_exponent_lower [of y] assms by (simp add: ey_def)
    have "ex < 127" using lt float32_exponent_range(2) [of y] by (simp add: ey_def)
    then have xup: "x < 2 powi (ex + 1)"
      using float32_exponent_upper [of x] assms by (simp add: ex_def)
    have p1: "(2::real) powi (ex + 1) = 2 ^ 24 * ux"
      using power_int_add [of "2::real" 24 "ex - 23"] by (simp add: ux_def add.commute)
    have p2: "(2::real) powi ey = 2 ^ 23 * uy"
      using power_int_add [of "2::real" 23 "ey - 23"] by (simp add: uy_def add.commute)
    have "x < 2 ^ 24 * ux" using xup unfolding p1 .
    then have "x / ux < 2 ^ 24" using ux by (simp add: pos_divide_less_eq)
    then have "round_half_even (x / ux) \<le> 2 ^ 24"
      by (intro round_half_even_le) simp
    then have "real_of_int (round_half_even (x / ux)) \<le> real_of_int (2 ^ 24)"
      by (simp only: of_int_le_iff)
    then have "real_of_int (round_half_even (x / ux)) \<le> 2 ^ 24" by simp
    then have "float32 x \<le> 2 ^ 24 * ux" unfolding fx using ux by (simp add: mult_right_mono)
    also have "\<dots> = 2 powi (ex + 1)" by (simp add: p1)
    also have "\<dots> \<le> 2 powi ey" using lt by (intro power_int_increasing) simp_all
    also have "\<dots> \<le> float32 y"
    proof -
      have "2 ^ 23 * uy \<le> y" using ylow unfolding p2 .
      then have "2 ^ 23 \<le> y / uy" using uy by (simp add: pos_le_divide_eq)
      then have "2 ^ 23 \<le> round_half_even (y / uy)"
        by (intro round_half_even_ge) simp
      then have "real_of_int (2 ^ 23) \<le> real_of_int (round_half_even (y / uy))"
        by (simp only: of_int_le_iff)
      then have "2 ^ 23 \<le> real_of_int (round_half_even (y / uy))" by simp
      then have "2 ^ 23 * uy \<le> float32 y" unfolding fy using uy by (simp add: mult_right_mono)
      then show ?thesis by (simp add: p2)
    qed
    finally show ?thesis .
  qed
qed

lemma float32_exact:
  assumes m: "\<bar>m\<bar> < 2 ^ 24" and k: "- 149 \<le> k"
  shows "float32 (of_int m * 2 powi k) = of_int m * 2 powi k"
proof -
  define x :: real where "x = of_int m * 2 powi k"
  define e where "e = float32_exponent x"
  define u :: real where "u = 2 powi (e - 23)"
  have u: "0 < u" by (simp add: u_def float32_unit_pos)
  have ek: "e - 23 \<le> k"
  proof (cases "- 126 < e")
    case True
    then have "2 powi e \<le> \<bar>x\<bar>" unfolding e_def by (rule float32_exponent_lower)
    also have "\<bar>x\<bar> = \<bar>real_of_int m\<bar> * 2 powi k"
      by (simp add: x_def abs_mult)
    also have "\<dots> < 2 ^ 24 * 2 powi k"
    proof -
      have "\<bar>real_of_int m\<bar> < 2 ^ 24"
        using m by (metis of_int_abs of_int_less_numeral_power_cancel_iff)
      then show ?thesis by (simp add: float32_unit_pos)
    qed
    also have "\<dots> = 2 powi (24 + k)"
      using power_int_add [of "2::real" 24 k] by simp
    finally have "(2::real) powi e < 2 powi (24 + k)" .
    then have "e < 24 + k"
      by (metis linorder_not_less one_le_numeral power_int_increasing)
    then show ?thesis by simp
  next
    case False
    then show ?thesis using k float32_exponent_range(1) [of x] by (simp add: e_def)
  qed
  then obtain j where j: "k = (e - 23) + int j"
    by (metis add.commute diff_add_cancel diff_ge_0_iff_ge nonneg_int_cases ) 
  have "(2::real) powi k = u * 2 ^ j"
    unfolding j u_def using power_int_add [of "2::real" "e - 23" "int j"] by simp
  then have "x / u = of_int (m * 2 ^ j)" using u by (simp add: x_def)
  then have "round_half_even (x / u) = m * 2 ^ j" by (simp only: round_half_even_of_int)
  then have "float32 x = of_int (m * 2 ^ j) * u" by (simp add: float32_def Let_def e_def u_def)
  also have "\<dots> = x" using \<open>x / u = of_int (m * 2 ^ j)\<close> u by (simp add: field_simps)
  finally show ?thesis by (simp add: x_def)
qed

lemma float32_of_nat: "n < 2 ^ 24 \<Longrightarrow> float32 (real n) = real n"
  using float32_exact [of "int n" 0] by simp

lemma float32_0 [simp]: "float32 0 = 0"
  using float32_exact [of 0 0] by simp

lemma float32_1 [simp]: "float32 1 = 1"
  using float32_exact [of 1 0] by simp

lemma float32_half: "n < 2 ^ 24 \<Longrightarrow> float32 (real n / 2) = real n / 2"
  using float32_exact [of "int n" "- 1"] by simp

lemma float32_nonneg: "0 \<le> x \<Longrightarrow> 0 \<le> float32 x"
  using float32_mono [of 0 x] by simp

lemma float32_le_1: "0 \<le> x \<Longrightarrow> x \<le> 1 \<Longrightarrow> float32 x \<le> 1"
  using float32_mono [of x 1] by simp

lemma to_float32_small: "0 \<le> float32 x \<Longrightarrow> float32 x < 2 ^ 24 \<Longrightarrow> to_float32 x = Inr (float32 x)"
proof -
  assume a: "0 \<le> float32 x" "float32 x < 2 ^ 24"
  have "(2::real) ^ 24 \<le> 2 ^ 128" by simp
  with a have "\<not> 2 ^ 128 \<le> \<bar>float32 x\<bar>" by linarith
  then show ?thesis by (simp add: to_float32_def Let_def)
qed

lemma glat_count_fraction:
  assumes f: "0 \<le> f" "f \<le> 1" and d: "d < 2 ^ 24"
  shows "glat_count f d = Inr \<lfloor>float32 (real d * float32 f)\<rfloor>"
    and "0 \<le> \<lfloor>float32 (real d * float32 f)\<rfloor>"
    and "\<lfloor>float32 (real d * float32 f)\<rfloor> \<le> int d"
proof -
  let ?p = "float32 (real d * float32 f)"
  have dr: "real d < 2 ^ 24" using d by (metis of_nat_less_numeral_power_cancel_iff)
  have fd: "float32 (real d) = real d" using d by (rule float32_of_nat)
  have f0: "0 \<le> float32 f" using f(1) by (rule float32_nonneg)
  have f1: "float32 f \<le> 1" using f by (rule float32_le_1)
  have p0: "0 \<le> real d * float32 f" using f0 by simp
  have p1: "real d * float32 f \<le> real d" using f1 by (simp add: mult_left_le)
  have q0: "0 \<le> ?p" using p0 by (rule float32_nonneg)
  have "?p \<le> float32 (real d)" using p0 p1 by (rule float32_mono)
  then have q1: "?p \<le> real d" by (simp add: fd)
  have a: "to_float32 (real d) = Inr (real d)"
    using to_float32_small [of "real d"] dr by (simp add: fd)
  have b: "to_float32 f = Inr (float32 f)"
    using to_float32_small [of f] f0 f1 by simp
  have c: "to_float32 (real d * float32 f) = Inr ?p"
    using to_float32_small [of "real d * float32 f"] q0 q1 dr by simp
  show n0: "0 \<le> \<lfloor>?p\<rfloor>" using q0 by simp
  show n1: "\<lfloor>?p\<rfloor> \<le> int d" using q1 by (simp add: floor_le_iff)
  have "int d < 2 ^ 63"
  proof -
    have "int d < 2 ^ 24" using d by (metis of_nat_less_numeral_power_cancel_iff)
    then show ?thesis by simp
  qed
  moreover have "?p < 2 ^ 63"
  proof -
    have "(2::real) ^ 24 \<le> 2 ^ 63" by simp
    with q1 dr show ?thesis by linarith
  qed
  ultimately have "trunc_long ?p = Inr \<lfloor>?p\<rfloor>"
    using q0 n0 n1 by (simp add: trunc_long_def Let_def)
  then show "glat_count f d = Inr \<lfloor>?p\<rfloor>"
    by (simp add: glat_count_def a b c)
qed

lemma float32_half_exact [simp]: "float32 (1 / 2) = 1 / 2"
  using float32_exact [of 1 "- 1"] by simp

lemma glat_count_half:
  assumes "d < 2 ^ 24"
  shows "glat_count (1 / 2) d = Inr (int (d div 2))"
proof -
  have "glat_count (1 / 2) d = Inr \<lfloor>float32 (real d * float32 (1 / 2))\<rfloor>"
    using assms by (intro glat_count_fraction) simp_all
  also have "float32 (real d * float32 (1 / 2)) = real d / 2"
    using float32_half [OF assms] by simp
  also have "\<lfloor>real d / 2\<rfloor> = int (d div 2)"
    using floor_divide_of_nat_eq [of d 2, where ?'a = real] by simp
  finally show ?thesis .
qed

lemma float32_53: "float32 (53 / 100) = 2222981 / 4194304"
proof -
  have e: "float32_exponent (53 / 100) = - 1"
    by (rule float32_exponent_eq) simp_all
  show ?thesis by (simp add: float32_def e Let_def round_half_even_def)
qed

lemma float32_53_100: "float32 (55574525 / 1048576) = 13893631 / 262144"
proof -
  have e: "float32_exponent (55574525 / 1048576) = 5"
    by (rule float32_exponent_eq) simp_all
  show ?thesis by (simp add: float32_def e Let_def round_half_even_def)
qed

lemma glat_count_single_precision:
  "glat_count (53 / 100) 100 = Inr 52" "\<lfloor>53 / 100 * real 100\<rfloor> = (53::int)"
proof -
  have "glat_count (53 / 100) 100 = Inr \<lfloor>float32 (real 100 * float32 (53 / 100))\<rfloor>"
    by (intro glat_count_fraction) simp_all
  then show "glat_count (53 / 100) 100 = Inr 52"
    by (simp add: float32_53 float32_53_100)
  show "\<lfloor>53 / 100 * real 100\<rfloor> = (53::int)" by simp
qed

lemma float32_03: "float32 (299999999 / 1000000000) = 5033165 / 16777216"
proof -
  have e: "float32_exponent (299999999 / 1000000000) = - 2"
    by (rule float32_exponent_eq) simp_all
  show ?thesis by (simp add: float32_def e Let_def round_half_even_def)
qed

lemma float32_03_10: "float32 (25165825 / 8388608) = 3"
proof -
  have e: "float32_exponent (25165825 / 8388608) = 1"
    by (rule float32_exponent_eq) simp_all
  show ?thesis by (simp add: float32_def e Let_def round_half_even_def)
qed

lemma glat_count_exceeds_product:
  "glat_count (299999999 / 1000000000) 10 = Inr 3" "299999999 / 1000000000 * real 10 < (3::real)"
proof -
  have "glat_count (299999999 / 1000000000) 10 =
          Inr \<lfloor>float32 (real 10 * float32 (299999999 / 1000000000))\<rfloor>"
    by (intro glat_count_fraction) simp_all
  then show "glat_count (299999999 / 1000000000) 10 = Inr 3"
    by (simp add: float32_03 float32_03_10)
  show "299999999 / 1000000000 * real 10 < (3::real)" by simp
qed

subsection \<open>The rows of the result\<close>

lemma fold_update_length:
  "length (fold (\<lambda>(p, v) d. d[p := v]) ps d) = length d"
  by (induction ps arbitrary: d) (auto simp: split_def)

lemma fold_update_map_nth:
  "q < length d \<Longrightarrow>
   fold (\<lambda>(p, v) d. d[p := v]) (zip idx (map f idx)) d ! q =
     (if q \<in> set idx then f q else d ! q)"
proof (induction idx arbitrary: d)
  case Nil
  then show ?case by simp
next
  case (Cons p idx)
  then show ?case by (auto simp: nth_list_update)
qed

lemma index_get_put:
  assumes "\<forall>p \<in> set idx. p < length src" "\<forall>p \<in> set idx. p < length dest"
  shows "ebind (index_get src idx) (index_put dest idx) =
           Inr (fold (\<lambda>(p, v) d. d[p := v]) (zip idx (map (\<lambda>p. src ! p) idx)) dest)"
  using assms by (simp add: index_get_def index_put_def)




lemma glat_reveal_row_plain:
  assumes none: "glat_random_prob self = None"
    and perm: "distinct indice" "set indice = {..<T}"
    and len: "length target = T" "length pseudo = T"
    and v: "sum_list tmask = int v" "v \<le> T"
    and n: "0 \<le> n" "n \<le> int v"
  shows "\<exists>S. glat_reveal_row self r i indice tmask n target pseudo =
               Inr (map (\<lambda>p. if p \<in> S then target ! p else pseudo ! p) [0..<T]) \<and>
             S \<subseteq> {..<v} \<and> card S = nat n"
proof -
  define valid where "valid = filter (\<lambda>p. int p < sum_list tmask) indice"
  define ind where "ind = py_slice_to n valid"
  have valid: "valid = filter (\<lambda>p. p < v) indice" unfolding valid_def using v(1) by simp
  have dv: "distinct valid" unfolding valid using perm(1) by simp
  have sv: "set valid = {..<v}" unfolding valid set_filter perm(2) using v(2) by auto
  have lv: "length valid = v" using distinct_card [OF dv] sv by simp
  have ind: "ind = take (nat n) valid" unfolding ind_def using n(1) by (simp add: py_slice_to_def)
  have di: "distinct ind" unfolding ind using dv by (rule distinct_take)
  have li: "length ind = nat n" unfolding ind using lv n by simp
  have "set ind \<subseteq> set valid" unfolding ind by (rule set_take_subset)
  then have si: "set ind \<subseteq> {..<v}" using sv by simp
  have ci: "card (set ind) = nat n" using distinct_card [OF di] li by simp
  have inr: "\<forall>p \<in> set ind. p < length target" "\<forall>p \<in> set ind. p < length pseudo"
    using si v(2) len by auto
  have "glat_reveal_row self r i indice tmask n target pseudo =
          ebind (index_get target ind) (index_put pseudo ind)"
    unfolding ind_def valid_def by (simp add: glat_reveal_row_def none Let_def)
  also have "\<dots> = Inr (fold (\<lambda>(p, v) d. d[p := v]) (zip ind (map (\<lambda>p. target ! p) ind)) pseudo)"
    using inr by (rule index_get_put)
  also have "fold (\<lambda>(p, v) d. d[p := v]) (zip ind (map (\<lambda>p. target ! p) ind)) pseudo =
             map (\<lambda>p. if p \<in> set ind then target ! p else pseudo ! p) [0..<T]"
  proof (rule nth_equalityI)
    show "length (fold (\<lambda>(p, v) d. d[p := v]) (zip ind (map (\<lambda>p. target ! p) ind)) pseudo) =
          length (map (\<lambda>p. if p \<in> set ind then target ! p else pseudo ! p) [0..<T])"
      using len by (simp add: fold_update_length)
  next
    fix q assume "q < length (fold (\<lambda>(p, v) d. d[p := v]) (zip ind (map (\<lambda>p. target ! p) ind)) pseudo)"
    then have q: "q < length pseudo" by (simp add: fold_update_length)
    then have "q < T" using len by simp
    then show "fold (\<lambda>(p, v) d. d[p := v]) (zip ind (map (\<lambda>p. target ! p) ind)) pseudo ! q =
          map (\<lambda>p. if p \<in> set ind then target ! p else pseudo ! p) [0..<T] ! q"
      using fold_update_map_nth [OF q, of ind "\<lambda>p. target ! p"] by simp
  qed
  finally show ?thesis using si ci by blast
qed


lemma glat_counts_Inr:
  assumes "glat_counts f prediction_tokens target_ids target_mask = Inr N"
  shows "map length prediction_tokens = map length target_ids"
    and "map length target_ids = map length target_mask"
    and "emap (\<lambda>(p, t, m). glat_count f (glat_mismatches p t m))
           (zip prediction_tokens (zip target_ids target_mask)) = Inr N"
  using assms by (auto simp: glat_counts_def split: if_splits)



lemma glat_mismatches_card:
  assumes "length prediction = T" "length target = T" "length tmask = T"
  shows "glat_mismatches prediction target tmask =
           card {p. p < T \<and> prediction ! p \<noteq> target ! p \<and> tmask ! p = 1}"
proof -
  have "{i. i < length (zip prediction (zip target tmask)) \<and>
            (case zip prediction (zip target tmask) ! i of (p, t, m) \<Rightarrow> p \<noteq> t \<and> m = 1)} =
        {p. p < T \<and> prediction ! p \<noteq> target ! p \<and> tmask ! p = 1}"
    using assms by auto
  then show ?thesis
    unfolding glat_mismatches_def length_filter_conv_card by simp
qed



lemma valid_set_eq: "{p. p < T \<and> int p < c} = {..<min T (nat c)}"
  by auto

subsection \<open>Concrete glancing runs\<close>

lemma upt_0_3: "[0..<3] = [0, Suc 0, 2]"
  by (simp add: eval_nat_numeral)

lemma demo_glat_sort:
  "argsort_desc [0, 1, 2] = [2, Suc 0, 0]"
  "argsort_desc [0, - 1, - 2] = [0, Suc 0, 2]"
  by (simp_all add: argsort_desc_def upt_0_3)

lemma demo_rng_sort:
  "rand_sort demo_rng i p = real p" "rand_sort demo_rng' i p = - real p"
  by (simp_all add: demo_rng_def demo_rng'_def)

lemma demo_glat_call:
  "[\<lparr>bert_input_ids = [[11, 103, 103, 103]],
      bert_attention_mask = [[[1, 0, 0, 0], [1, 1, 1, 1], [1, 1, 1, 1], [1, 1, 1, 1]]],
      bert_token_type_ids = [[0, 1, 1, 1]],
      bert_position_ids = [[0, 1, 2, 3]]\<rparr>] = demo_glat_calls"
  by (simp add: demo_glat_calls_def)

lemma demo_glat_call_padded:
  "[\<lparr>bert_input_ids = [[11, 103, 103, 0]],
      bert_attention_mask = [[[1, 0, 0, 0], [1, 1, 1, 0], [1, 1, 1, 0], [0, 0, 0, 0]]],
      bert_token_type_ids = [[0, 1, 1, 1]],
      bert_position_ids = [[0, 1, 2, 0]]\<rparr>] = demo_glat_calls_padded"
  by (simp add: demo_glat_calls_padded_def)

lemma demo_glat_count:
  "glat_count (1 / 2) (Suc (Suc (Suc 0))) = Inr 1" "glat_count (1 / 2) (Suc (Suc 0)) = Inr 1"
proof -
  have "glat_count (1 / 2) 3 = Inr 1" using glat_count_half [of 3] by simp
  then show "glat_count (1 / 2) (Suc (Suc (Suc 0))) = Inr 1" by (simp only: numeral_3_eq_3)
  have "glat_count (1 / 2) 2 = Inr 1" using glat_count_half [of 2] by simp
  then show "glat_count (1 / 2) (Suc (Suc 0)) = Inr 1" by (simp only: numeral_2_eq_2)
qed

lemmas demo_glat_simps =
  forward_glat_def demo_fields demo_fields2 demo_bert_def demo_cls_def Let_def
  width_def cat1_def create_mask_and_position_ids_None create_mask_and_position_ids_Some
  wrap64_def feed_bert_def create_attention_mask_def attention_row_def source_type_id_def
  target_type_id_def arange_def upt_0_3 argmax_def glat_counts_def glat_mismatches_def
  demo_glat_count demo_rng_sort demo_glat_sort glat_reveal_row_def py_slice_to_def index_get_def
  index_put_def demo_glat_call demo_glat_call_padded

lemma demo_forward_glat:
  "forward_glat demo_model demo_rng [] [[11]] [[5, 6, 7]] [[103, 103, 103]] [1] [3] =
     Inr (demo_glat_calls, [[103, 103, 7]], [1])"
  "forward_glat demo_model demo_rng' [] [[11]] [[5, 6, 7]] [[103, 103, 103]] [1] [3] =
     Inr (demo_glat_calls, [[5, 103, 103]], [1])"
  "forward_glat demo_model demo_rng [] [[11]] [[103, 103, 103]] [[103, 103, 103]] [1] [3] =
     Inr (demo_glat_calls, [[103, 103, 103]], [1])"
  "forward_glat demo_model demo_rng [] [[11]] [[5, 6, 0]] [[103, 103, 0]] [1] [2] =
     Inr (demo_glat_calls_padded, [[103, 6, 0]], [1])"
  by (simp_all add: demo_glat_simps)

lemma demo_glat_draft:
  "emap (emap argmax)
     (cls demo_model (map (drop (Suc 0)) (bert demo_model (last demo_glat_calls)))) =
     Inr [[1, 1, 1]]"
  "emap (emap argmax)
     (cls demo_model (map (drop (Suc 0)) (bert demo_model (last demo_glat_calls_padded)))) =
     Inr [[1, 1, 1]]"
  by (simp_all add: demo_glat_calls_def demo_glat_calls_padded_def demo_fields demo_bert_def
      demo_cls_def argmax_def)

lemma glat_depends_on_rng:
  "forward_glat demo_model demo_rng [] [[11]] [[5, 6, 7]] [[103, 103, 103]] [1] [3] \<noteq>
   forward_glat demo_model demo_rng' [] [[11]] [[5, 6, 7]] [[103, 103, 103]] [1] [3]"
  by (simp add: demo_forward_glat)

text \<open>
  Claim C3 says that \<open>N\<close> is \<open>glat_f\<close> times the number of valid target positions
  where the draft differs from the ground truth, and that exactly \<open>N\<close> valid positions
  of the result differ from the all-masked pseudo-target. The code computes the product
  in single precision and converts it to an integer (\<open>N.long()\<close>), and the tokens it
  copies in are the ground-truth tokens, whatever they are. In the run below, with the
  default \<open>glat_f = 0.5\<close>, the draft \<open>[1, 1, 1]\<close> differs from the ground truth at
  all three valid positions; \<open>N\<close> is 1, not 1.5; and since the ground-truth token
  copied in is the mask token itself, no position of the result differs from the
  original. (The rounding alone moves \<open>N\<close> as well: by
  \<open>glat_count_single_precision\<close>, 100 differing positions and \<open>glat_f = 0.53\<close>
  give 52 and not 53, and by \<open>glat_count_exceeds_product\<close>, 10 differing positions
  and \<open>glat_f = 0.299999999\<close> give 3, which is more than the product.)
\<close>

theorem glat_reveal_count_counterexample:
  "(case forward_glat demo_model demo_rng [] [[11]] [[103, 103, 103]] [[103, 103, 103]] [1] [3] of
      Inl e \<Rightarrow> False
    | Inr (calls', pseudo_ids', N) \<Rightarrow>
        emap (emap argmax) (cls demo_model (map (drop 1) (bert demo_model (last calls')))) =
          Inr [[1, 1, 1]] \<and>
        N = [1] \<and>
        real_of_int (N ! 0) \<noteq> glat_f demo_model * 3 \<and>
        pseudo_ids' = [[103, 103, 103]] \<and>
        length (filter (\<lambda>p. pseudo_ids' ! 0 ! p \<noteq> [[103, 103, 103]] ! 0 ! p) [0..<3]) \<noteq>
          nat (N ! 0))"
  by (simp add: demo_forward_glat demo_glat_draft demo_fields2 upt_0_3)

text \<open>
  Claim C3, amended. With \<open>glat_random_prob\<close> unset, a fraction
  \<open>0 \<le> glat_f \<le> 1\<close> and fewer than \<open>2^24\<close> target positions, whenever
  \<open>forward_glat\<close> returns on rectangular inputs, for every example \<open>i\<close>, with
  \<open>d\<close> the number of valid target positions where the draft prediction differs from the
  ground truth: \<open>N\<close> is the single-precision product of \<open>d\<close> and \<open>glat_f\<close>,
  rounded down to an integer (which is \<open>d div 2\<close> for \<open>glat_f = 0.5\<close>);
  \<open>0 \<le> N \<le> d\<close>, and \<open>d\<close> is at most the number of valid target positions; there
  is a set \<open>S\<close> of exactly \<open>N\<close> valid positions such that the result holds the
  ground-truth token at the positions of \<open>S\<close> and the token of the given pseudo-target
  everywhere else (the mask token at the valid positions of an all-masked pseudo-target,
  whatever it holds at the padding positions); and when the ground-truth token differs
  from the token of the pseudo-target at every valid position, exactly \<open>N\<close> positions
  of the result differ from the original. This holds for every random source.
\<close>

theorem glat_reveal_count:
  assumes run: "forward_glat self r calls source_ids target_ids pseudo_ids num_source_tokens
                  num_target_tokens = Inr (calls', pseudo_ids', N)"
    and none: "glat_random_prob self = None"
    and f: "0 \<le> glat_f self" "glat_f self \<le> 1"
    and rect: "\<forall>row \<in> set target_ids. length row = width target_ids"
              "\<forall>row \<in> set pseudo_ids. length row = width pseudo_ids"
    and small: "width target_ids < 2 ^ 24"
    and i: "i < length pseudo_ids"
  defines "T \<equiv> width target_ids"
  defines "valid \<equiv> {p. p < T \<and> int p < num_target_tokens ! i}"
  shows "\<exists>draft S d.
           emap (emap argmax)
             (cls self (map (drop (width source_ids)) (bert self (last calls')))) = Inr draft \<and>
           d = card {p \<in> valid. draft ! i ! p \<noteq> target_ids ! i ! p} \<and>
           N ! i = \<lfloor>float32 (real d * float32 (glat_f self))\<rfloor> \<and>
           (glat_f self = 1 / 2 \<longrightarrow> N ! i = int (d div 2)) \<and>
           0 \<le> N ! i \<and> N ! i \<le> int d \<and> d \<le> card valid \<and>
           S \<subseteq> valid \<and> card S = nat (N ! i) \<and>
           length (pseudo_ids' ! i) = T \<and>
           (\<forall>p < T. pseudo_ids' ! i ! p =
                      (if p \<in> S then target_ids ! i ! p else pseudo_ids ! i ! p)) \<and>
           ((\<forall>p \<in> valid. target_ids ! i ! p \<noteq> pseudo_ids ! i ! p) \<longrightarrow>
              card {p. p < T \<and> pseudo_ids' ! i ! p \<noteq> pseudo_ids ! i ! p} = nat (N ! i))"
proof -
  from forward_glat_Inr [OF run]
  obtain inp tm tp draft where
    w: "width target_ids = width pseudo_ids" and
    cm: "create_mask_and_position_ids num_target_tokens (width target_ids)
           (Some num_source_tokens) = Inr (tm, tp)" and
    c: "calls' = calls @ [inp]" and
    d: "emap (emap argmax) (cls self (map (drop (width source_ids)) (bert self inp))) = Inr draft" and
    gc: "glat_counts (glat_f self) draft target_ids tm = Inr N" and
    le: "length pseudo_ids \<le> length tm" and
    rv: "emap (\<lambda>(i, indice).
                 glat_reveal_row self r i indice (tm ! i) (N ! i) (target_ids ! i) (pseudo_ids ! i))
           (zip [0..<length pseudo_ids]
              (map (\<lambda>i. argsort_desc (map (rand_sort r i) [0..<length (pseudo_ids ! i)]))
                 [0..<length pseudo_ids])) = Inr pseudo_ids'"
    by blast
  define c' where "c' = num_target_tokens ! i"
  define v where "v = min T (nat c')"
  have tm: "tm = map (\<lambda>c. map (\<lambda>p. if p < c then 1 else 0) (arange T)) num_target_tokens"
    using create_mask_and_position_ids_mask [OF cm] by (simp add: T_def)
  note G = glat_counts_Inr [OF gc]
  have l1: "length draft = length target_ids" using G(1) by (metis length_map)
  have l2: "length target_ids = length tm" using G(2) by (metis length_map)
  have l3: "length tm = length num_target_tokens" using tm by simp
  have it: "i < length tm" using i le by simp
  have tmi: "tm ! i = map (\<lambda>p. if p < c' then 1 else 0) (arange T)"
    using it l3 by (simp add: tm c'_def)
  have lt: "length (target_ids ! i) = T" using rect(1) it l2 by (simp add: T_def)
  have lp: "length (pseudo_ids ! i) = T" using rect(2) i w by (simp add: T_def)
  have lm: "length (tm ! i) = T" by (simp add: tmi)
  have ld: "length (draft ! i) = T"
  proof -
    have "map length draft ! i = map length target_ids ! i" using G(1) by simp
    then show ?thesis using it l1 l2 lt by simp
  qed
  have valid: "valid = {..<v}" unfolding valid_def v_def c'_def by (rule valid_set_eq)
  have cv: "card valid = v" by (simp add: valid)
  have tmp: "tm ! i ! p = 1 \<longleftrightarrow> p \<in> valid" if "p < T" for p
    using that by (auto simp: tmi valid_def c'_def)
  define dn where "dn = glat_mismatches (draft ! i) (target_ids ! i) (tm ! i)"
  have Ni: "glat_count (glat_f self) dn = Inr (N ! i)"
  proof -
    from G(3) have "\<forall>k < length (zip draft (zip target_ids tm)).
        (\<lambda>(p, t, m). glat_count (glat_f self) (glat_mismatches p t m))
          (zip draft (zip target_ids tm) ! k) = Inr (N ! k)"
      by (simp add: emap_eq_Inr)
    from this [rule_format, of i] show ?thesis using it l1 l2 by (simp add: dn_def)
  qed
  have "{p. p < T \<and> draft ! i ! p \<noteq> target_ids ! i ! p \<and> tm ! i ! p = 1} =
        {p \<in> valid. draft ! i ! p \<noteq> target_ids ! i ! p}"
    using tmp by (auto simp: valid_def)
  then have dn: "dn = card {p \<in> valid. draft ! i ! p \<noteq> target_ids ! i ! p}"
    unfolding dn_def glat_mismatches_card [OF ld lt lm] by simp
  have "dn \<le> length (filter (\<lambda>m. m = 1) (tm ! i))"
    unfolding dn_def by (rule glat_mismatches_le)
  then have dv: "dn \<le> v" unfolding tmi mask_row_ones v_def .
  have vT: "v \<le> T" by (simp add: v_def)
  have ds: "dn < 2 ^ 24" using dv vT small by (simp add: T_def)
  note tr = glat_count_fraction [OF f ds]
  have n1: "N ! i = \<lfloor>float32 (real dn * float32 (glat_f self))\<rfloor>" using tr(1) Ni by simp
  have n2: "0 \<le> N ! i" using tr(2) n1 by simp
  have n3: "N ! i \<le> int dn" using tr(3) n1 by simp
  have n4: "N ! i \<le> int v" using n3 dv by simp
  have n5: "N ! i = int (dn div 2)" if "glat_f self = 1 / 2"
    using glat_count_half [OF ds] Ni that by simp
  have sm: "sum_list (tm ! i) = int v" by (simp add: tmi mask_row_sum v_def)
  let ?indice = "argsort_desc (map (rand_sort r i) [0..<T])"
  have row: "glat_reveal_row self r i ?indice (tm ! i) (N ! i) (target_ids ! i) (pseudo_ids ! i) =
               Inr (pseudo_ids' ! i)"
  proof -
    from rv have "\<forall>k < length pseudo_ids.
        (\<lambda>(i, indice).
           glat_reveal_row self r i indice (tm ! i) (N ! i) (target_ids ! i) (pseudo_ids ! i))
          (zip [0..<length pseudo_ids]
             (map (\<lambda>i. argsort_desc (map (rand_sort r i) [0..<length (pseudo_ids ! i)]))
                [0..<length pseudo_ids]) ! k) = Inr (pseudo_ids' ! k)"
      by (simp add: emap_eq_Inr)
    from this [rule_format, OF i] show ?thesis using i lp by simp
  qed
  have perm: "distinct ?indice" "set ?indice = {..<T}"
    using argsort_desc_perm [of "map (rand_sort r i) [0..<T]"] by simp_all
  from glat_reveal_row_plain [OF none perm lt lp sm vT n2 n4, of r i]
  obtain S where
    S1: "glat_reveal_row self r i ?indice (tm ! i) (N ! i) (target_ids ! i) (pseudo_ids ! i) =
           Inr (map (\<lambda>p. if p \<in> S then target_ids ! i ! p else pseudo_ids ! i ! p) [0..<T])"
    and S2: "S \<subseteq> {..<v}" and S3: "card S = nat (N ! i)"
    by blast
  from row S1 have pr: "pseudo_ids' ! i =
      map (\<lambda>p. if p \<in> S then target_ids ! i ! p else pseudo_ids ! i ! p) [0..<T]"
    by simp
  have P1: "length (pseudo_ids' ! i) = T" by (simp add: pr)
  have P2: "\<forall>p < T. pseudo_ids' ! i ! p =
                (if p \<in> S then target_ids ! i ! p else pseudo_ids ! i ! p)"
    by (simp add: pr)
  have P3: "card {p. p < T \<and> pseudo_ids' ! i ! p \<noteq> pseudo_ids ! i ! p} = nat (N ! i)"
    if ne: "\<forall>p \<in> valid. target_ids ! i ! p \<noteq> pseudo_ids ! i ! p"
  proof -
    have "{p. p < T \<and> pseudo_ids' ! i ! p \<noteq> pseudo_ids ! i ! p} = S"
      using S2 vT ne P2 by (auto simp: valid split: if_splits)
    then show ?thesis using S3 by simp
  qed
  have last: "last calls' = inp" using c by simp
  have dc: "dn \<le> card valid" using dv by (simp add: cv)
  have S2': "S \<subseteq> valid" using S2 by (simp add: valid)
  show ?thesis
    using d dn n1 n5 n2 n3 dc S2' S3 P1 P2 P3 unfolding last
    by blast
qed

theorem glat_reveal_count_witness:
  "\<exists>calls' pseudo_ids' N draft S.
     forward_glat demo_model demo_rng [] [[11]] [[5, 6, 0]] [[103, 103, 0]] [1] [2] =
       Inr (calls', pseudo_ids', N) \<and>
     emap (emap argmax) (cls demo_model (map (drop 1) (bert demo_model (last calls')))) =
       Inr draft \<and>
     N ! 0 = 1 \<and>
     N ! 0 = \<lfloor>float32 (real (card {p \<in> {p. p < 3 \<and> int p < 2}. draft ! 0 ! p \<noteq> [5, 6, 0] ! p}) *
                        float32 (glat_f demo_model))\<rfloor> \<and>
     S \<subseteq> {p. p < 3 \<and> int p < 2} \<and> card S = 1 \<and>
     pseudo_ids' ! 0 = [103, 6, 0] \<and>
     card {p. p < 3 \<and> pseudo_ids' ! 0 ! p \<noteq> [103, 103, 0] ! p} = 1"
proof -
  let ?run = "forward_glat demo_model demo_rng [] [[11]] [[5, 6, 0]] [[103, 103, 0]] [1] [2]"
  have run: "?run = Inr (demo_glat_calls_padded, [[103, 6, 0]], [1])"
    by (rule demo_forward_glat(4))
  have none: "glat_random_prob demo_model = None" by (rule demo_fields2(4))
  have f: "0 \<le> glat_f demo_model" "glat_f demo_model \<le> 1" by (simp_all add: demo_fields2)
  have rect: "\<forall>row \<in> set [[5, 6, 0::int]]. length row = width [[5, 6, 0::int]]"
    "\<forall>row \<in> set [[103, 103, 0::int]]. length row = width [[103, 103, 0::int]]"
    by (simp_all add: width_def)
  have small: "width [[5, 6, 0::int]] < 2 ^ 24" by (simp add: width_def)
  have i: "0 < length [[103, 103, 0::int]]" by simp
  have v: "{p. p < width [[5, 6, 0::int]] \<and> int p < [2] ! 0} = {p. p < 3 \<and> int p < 2}"
    by (auto simp: width_def)
  have ne: "\<forall>p \<in> {p. p < 3 \<and> int p < 2}. [[5, 6, 0]] ! 0 ! p \<noteq> [[103, 103, 0::int]] ! 0 ! p"
    by (auto simp: nth_Cons')
  from glat_reveal_count [OF run none f rect small i]
  obtain draft S d where
    d: "emap (emap argmax)
          (cls demo_model (map (drop (width [[11::int]]))
             (bert demo_model (last demo_glat_calls_padded)))) = Inr draft" and
    dd: "d = card {p \<in> {p. p < 3 \<and> int p < 2}. draft ! 0 ! p \<noteq> [[5, 6, 0]] ! 0 ! p}" and
    n: "[1] ! 0 = \<lfloor>float32 (real d * float32 (glat_f demo_model))\<rfloor>" and
    s: "S \<subseteq> {p. p < 3 \<and> int p < 2}" "card S = nat ([1] ! 0)" and
    c: "(\<forall>p \<in> {p. p < 3 \<and> int p < 2}. [[5, 6, 0]] ! 0 ! p \<noteq> [[103, 103, 0::int]] ! 0 ! p) \<longrightarrow>
        card {p. p < width [[5, 6, 0::int]] \<and> [[103, 6, 0]] ! 0 ! p \<noteq> [[103, 103, 0::int]] ! 0 ! p} =
          nat ([1] ! 0)"
    unfolding v by blast
  from c ne have c': "card {p. p < 3 \<and> [103, 6, 0] ! p \<noteq> [103, 103, 0::int] ! p} = 1"
    by (simp add: width_def numeral_3_eq_3)
  from d have d': "emap (emap argmax)
          (cls demo_model (map (drop 1) (bert demo_model (last demo_glat_calls_padded)))) = Inr draft"
    by (simp add: width_def)
  from n dd have n': "(1::int) =
      \<lfloor>float32 (real (card {p \<in> {p. p < 3 \<and> int p < 2}. draft ! 0 ! p \<noteq> [5, 6, 0] ! p}) *
                float32 (glat_f demo_model))\<rfloor>"
    by simp
  from s have s': "card S = 1" by simp
  show ?thesis
    apply (rule exI [of _ demo_glat_calls_padded])
    apply (rule exI [of _ "[[103, 6, 0]]"])
    apply (rule exI [of _ "[1]"])
    apply (rule exI [of _ draft])
    apply (rule exI [of _ S])
    using run d' n' s(1) s' c' apply simp
    done
qed

end
